(* ===== verification/Prelude.thy ===== *)
theory Prelude
  imports Main "HOL-Library.Word"
begin

text \<open>
  Shared vocabulary of the development: the machine integers and byte strings of the Rust
  sources, Rust arrays \<open>[T; N]\<close> as a type whose length is part of the type, panics as the
  left summand of a sum, and the slice, list and word lemmas that the components share.
  Lemmas that only rewrite are declared \<open>simp\<close>; the collection \<open>res_simps\<close> holds the
  facts that take a computation with panics apart.
\<close>

unbundle bit_operations_syntax

named_theorems res_simps "facts that decompose computations that may panic"

section \<open>Machine integers and bytes\<close>

type_synonym u8 = "8 word"
type_synonym u16 = "16 word"
type_synonym u32 = "32 word"
type_synonym u64 = "64 word"
type_synonym usize = "64 word"
type_synonym bytes = "u8 list"

lemma unat_u8_bound: "unat (b :: u8) < 256"
  by (rule order_less_le_trans [OF unsigned_less]) simp

lemma unat_u16_bound: "unat (b :: u16) < 65536"
  by (rule order_less_le_trans [OF unsigned_less]) simp

section \<open>Panics\<close>

text \<open>Each reason for which the modelled code can panic.\<close>

datatype panic =
    Index_Out_Of_Bounds
  | Slice_Out_Of_Range
  | Copy_Length_Mismatch
  | Unwrap_On_None
  | Unwrap_On_Err
  | Assertion_Failed

type_synonym 'a res = "panic + 'a"

definition bind_res :: "'a res \<Rightarrow> ('a \<Rightarrow> 'b res) \<Rightarrow> 'b res" where
  "bind_res m f = (case m of Inl e \<Rightarrow> Inl e | Inr x \<Rightarrow> f x)"

lemma bind_res_Inr [simp]: "bind_res (Inr x) f = f x"
  by (simp add: bind_res_def)

lemma bind_res_Inl [simp]: "bind_res (Inl e) f = Inl e"
  by (simp add: bind_res_def)

lemma bind_res_eq_Inr [res_simps]:
  "bind_res m f = Inr y \<longleftrightarrow> (\<exists>x. m = Inr x \<and> f x = Inr y)"
  by (cases m) auto

lemma bind_res_eq_Inl [res_simps]:
  "bind_res m f = Inl e \<longleftrightarrow> m = Inl e \<or> (\<exists>x. m = Inr x \<and> f x = Inl e)"
  by (cases m) auto

text \<open>\<open>Option::unwrap\<close>.\<close>

definition unwrap :: "'a option \<Rightarrow> 'a res" where
  "unwrap x = (case x of None \<Rightarrow> Inl Unwrap_On_None | Some v \<Rightarrow> Inr v)"

lemma unwrap_Some [simp]: "unwrap (Some v) = Inr v"
  by (simp add: unwrap_def)

lemma unwrap_None [simp]: "unwrap None = Inl Unwrap_On_None"
  by (simp add: unwrap_def)

lemma unwrap_eq_Inr [res_simps]: "unwrap x = Inr v \<longleftrightarrow> x = Some v"
  by (cases x) auto

text \<open>\<open>Result::unwrap\<close> and \<open>Result::expect\<close>, where \<open>None\<close> stands for an error.\<close>

definition unwrap_ok :: "'a option \<Rightarrow> 'a res" where
  "unwrap_ok x = (case x of None \<Rightarrow> Inl Unwrap_On_Err | Some v \<Rightarrow> Inr v)"

lemma unwrap_ok_Some [simp]: "unwrap_ok (Some v) = Inr v"
  by (simp add: unwrap_ok_def)

lemma unwrap_ok_None [simp]: "unwrap_ok None = Inl Unwrap_On_Err"
  by (simp add: unwrap_ok_def)

lemma unwrap_ok_eq_Inr [res_simps]: "unwrap_ok x = Inr v \<longleftrightarrow> x = Some v"
  by (cases x) auto

section \<open>Slices and indexing\<close>

text \<open>\<open>&xs[a..b]\<close>, which panics unless \<open>a \<le> b \<le> xs.len()\<close>.\<close>

definition slice_range :: "'a list \<Rightarrow> nat \<Rightarrow> nat \<Rightarrow> 'a list res" where
  "slice_range xs a b =
     (if a \<le> b \<and> b \<le> length xs then Inr (take (b - a) (drop a xs)) else Inl Slice_Out_Of_Range)"

lemma range_prefix [simp]: "n \<le> length xs \<Longrightarrow> slice_range xs 0 n = Inr (take n xs)"
  by (simp add: slice_range_def)

lemma range_suffix [simp]: "n \<le> length xs \<Longrightarrow> slice_range xs n (length xs) = Inr (drop n xs)"
  by (simp add: slice_range_def)

text \<open>\<open>xs[i]\<close> and \<open>xs[i] = v\<close>, which panic out of range.\<close>

definition index :: "'a list \<Rightarrow> nat \<Rightarrow> 'a res" where
  "index xs i = (if i < length xs then Inr (xs ! i) else Inl Index_Out_Of_Bounds)"

definition assign :: "'a list \<Rightarrow> nat \<Rightarrow> 'a \<Rightarrow> 'a list res" where
  "assign xs i v = (if i < length xs then Inr (xs[i := v]) else Inl Index_Out_Of_Bounds)"

lemma index_Inr [simp]: "i < length xs \<Longrightarrow> index xs i = Inr (xs ! i)"
  by (simp add: index_def)

lemma assign_Inr [simp]: "i < length xs \<Longrightarrow> assign xs i v = Inr (xs[i := v])"
  by (simp add: assign_def)

section \<open>Fixed-length arrays\<close>

text \<open>\<open>[T; N]\<close>: the lists of exactly \<open>N\<close> elements, with \<open>N\<close> a numeral type.\<close>

typedef (overloaded) ('a, 'n::len) array = "{xs :: 'a list. length xs = LENGTH('n)}"
  morphisms array_to_list Abs_array
proof
  show "replicate LENGTH('n) undefined \<in> {xs :: 'a list. length xs = LENGTH('n)}"
    by simp
qed

setup_lifting type_definition_array

type_synonym hash32 = "(u8, 32) array"

lemma length_array_to_list [simp]:
  "length (array_to_list (a :: ('a, 'n::len) array)) = LENGTH('n)"
  using array_to_list [of a] by simp

lemma array_eqI: "array_to_list a = array_to_list b \<Longrightarrow> a = b"
  by (simp add: array_to_list_inject)

text \<open>The array literal \<open>[v; N]\<close>.\<close>

lift_definition array_splat :: "'a \<Rightarrow> ('a, 'n::len) array" is
  "\<lambda>v. replicate LENGTH('n) v" by simp

lift_definition array_set :: "('a, 'n::len) array \<Rightarrow> nat \<Rightarrow> 'a \<Rightarrow> ('a, 'n) array" is
  "\<lambda>xs i v. xs[i := v]" by simp

lift_definition array_overwrite :: "('a, 'n::len) array \<Rightarrow> 'a list \<Rightarrow> ('a, 'n) array" is
  "\<lambda>d xs. take LENGTH('n) (xs @ drop (length xs) d)" by simp

text \<open>\<open>dst.copy_from_slice(src)\<close>, which panics when the lengths differ.\<close>

definition copy_from_slice :: "('a, 'n::len) array \<Rightarrow> 'a list \<Rightarrow> ('a, 'n) array res" where
  "copy_from_slice d xs =
     (if length xs = LENGTH('n) then Inr (array_overwrite d xs) else Inl Copy_Length_Mismatch)"

lemma array_to_list_splat [simp]:
  "array_to_list (array_splat v :: ('a, 'n::len) array) = replicate LENGTH('n) v"
  by transfer simp

lemma array_to_list_set [simp]:
  "array_to_list (array_set a i v) = (array_to_list a)[i := v]"
  by transfer simp

lemma array_to_list_overwrite [simp]:
  "length xs = LENGTH('n::len) \<Longrightarrow> array_to_list (array_overwrite (a :: ('a, 'n) array) xs) = xs"
  by transfer simp

lemma array_overwrite_self [simp]:
  "array_overwrite (d :: ('a, 'n::len) array) (array_to_list a) = a"
  by (rule array_eqI) simp

lemma copy_from_slice_array [simp]: "copy_from_slice d (array_to_list a) = Inr a"
  by (simp add: copy_from_slice_def)

instantiation array :: (equal, len) equal
begin

definition equal_array :: "('a, 'b) array \<Rightarrow> ('a, 'b) array \<Rightarrow> bool" where
  "equal_array a b \<longleftrightarrow> array_to_list a = array_to_list b"

instance
  by standard (simp add: equal_array_def array_to_list_inject)

end

section \<open>Lists\<close>

text \<open>The last element of a list, if there is one.\<close>

definition last_option :: "'a list \<Rightarrow> 'a option" where
  "last_option xs = (if xs = [] then None else Some (last xs))"

lemma last_option_simps [simp]:
  "last_option [] = None"
  "last_option (x # xs) = (if xs = [] then Some x else last_option xs)"
  by (simp_all add: last_option_def)

lemma last_option_eq_None [simp]: "last_option xs = None \<longleftrightarrow> xs = []"
  by (simp add: last_option_def)

lemma filter_all [simp]: "(\<And>x. x \<in> set xs \<Longrightarrow> P x) \<Longrightarrow> filter P xs = xs"
  by (induction xs) auto

section \<open>Sums over lists\<close>

lemma sum_map_update:
  fixes f :: "'a \<Rightarrow> nat"
  shows "i < length xs \<Longrightarrow> sum_list (map f (xs[i := v])) + f (xs ! i) = sum_list (map f xs) + f v"
proof (induction xs arbitrary: i)
  case (Cons x xs)
  then show ?case by (cases i) (auto simp: algebra_simps)
qed simp

lemma in_set_update: "x \<in> set (xs[i := v]) \<Longrightarrow> x = v \<or> x \<in> set xs"
  using set_update_subset_insert [of xs i v] by blast

end
