(* ===== verification/Records.thy ===== *)
theory Records
  imports Prelude
begin

text \<open>
  The data that the storage layer passes around: \<open>SignedRecord\<close> (declared by the crate
  \<open>io_oi_core\<close>; its fields are the ones that src/src/storage.rs builds and reads), the cached
  form \<open>CachedRecord\<close>, the write command sent to cdDB, and how a record is addressed: by a
  32-byte content hash, and below that by a 64-bit entity id. \<open>EpochId\<close> is an integer type of
  \<open>io_oi_core\<close> whose width the sources do not show, so it is a word of any width \<open>'e\<close>;
  SHA-256 and AHash come from other crates and are the parameters \<open>sha256\<close> and \<open>ahash\<close>.
\<close>

section \<open>Records\<close>

record 'w signed_record =
  epoch_id :: "'w"
  payload :: bytes
  judge_signature :: "(u8, 64) array"
  record_type :: u32

record 'w cached_record =
  cached_epoch_id :: "'w"
  cached_record_type :: u32
  cached_judge_signature :: "(u8, 64) array"
  cached_payload :: bytes

text \<open>\<open>Arc<Vec<u8>>\<close> shares the payload bytes; sharing is not observable, so it is the bytes.\<close>

definition cache_of :: "('e::len) word signed_record \<Rightarrow> 'e word cached_record" where
  "cache_of r =
     \<lparr>cached_epoch_id = epoch_id r, cached_record_type = record_type r,
      cached_judge_signature = judge_signature r, cached_payload = payload r\<rparr>"

definition record_of :: "('e::len) word cached_record \<Rightarrow> 'e word signed_record" where
  "record_of c =
     \<lparr>epoch_id = cached_epoch_id c, payload = cached_payload c,
      judge_signature = cached_judge_signature c, record_type = cached_record_type c\<rparr>"

lemma record_of_cache_of [simp]: "record_of (cache_of r) = r"
  by (simp add: record_of_def cache_of_def)

lemma cache_of_record_of [simp]: "cache_of (record_of c) = c"
  by (simp add: record_of_def cache_of_def)

section \<open>Addressing\<close>

text \<open>
  The content hash of a record: the first 32 payload bytes when there are that many, the
  SHA-256 of the payload otherwise.
\<close>

definition content_hash :: "(bytes \<Rightarrow> hash32) \<Rightarrow> bytes \<Rightarrow> hash32 res" where
  "content_hash sha256 p =
     (if length p \<ge> 32
      then bind_res (slice_range p 0 32) (copy_from_slice (array_splat 0))
      else Inr (sha256 p))"

text \<open>
  \<open>AHasher::default()\<close>, \<open>write(&h)\<close>, \<open>finish() as usize\<close>: the parameter \<open>ahash\<close> maps the
  written bytes to the finished 64-bit value.
\<close>

definition entity_id :: "(bytes \<Rightarrow> u64) \<Rightarrow> hash32 \<Rightarrow> usize" where
  "entity_id ahash h = ucast (ahash (array_to_list h))"

text \<open>The hash under which \<open>apply_signed_record\<close> files a record, as a total function.\<close>

definition key_of :: "(bytes \<Rightarrow> hash32) \<Rightarrow> bytes \<Rightarrow> hash32" where
  "key_of sha256 p = (if length p \<ge> 32 then array_overwrite (array_splat 0) (take 32 p) else sha256 p)"

lemma content_hash_total [simp]: "content_hash sha256 p = Inr (key_of sha256 p)"
  by (simp add: content_hash_def key_of_def copy_from_slice_def)

lemma key_of_header [simp]: "key_of sha256 (array_to_list h @ v) = h"
  by (simp add: key_of_def)

lemma key_of_short: "length p < 32 \<Longrightarrow> key_of sha256 p = sha256 p"
  by (simp add: key_of_def)

section \<open>Write commands\<close>

text \<open>\<open>cdDB::commands::WriteCommand::InsertFast\<close>, the one command this program sends.\<close>

datatype write_command =
  InsertFast (cmd_entity_id: usize) (cmd_epoch: u32) (cmd_record_type: u32) (cmd_payload: bytes)

section \<open>Metrics\<close>

text \<open>
  \<open>metrics::db_metrics\<close> (src/src/metrics.rs): four process-wide counters, each counting its
  \<open>inc()\<close> calls.
\<close>

record db_metrics =
  db_gets :: nat
  db_puts :: nat
  cache_hits :: nat
  cache_misses :: nat

definition no_metrics :: db_metrics where
  "no_metrics = \<lparr>db_gets = 0, db_puts = 0, cache_hits = 0, cache_misses = 0\<rparr>"

definition inc_db_gets :: "db_metrics \<Rightarrow> db_metrics" where
  "inc_db_gets m = m\<lparr>db_gets := Suc (db_gets m)\<rparr>"

definition inc_db_puts :: "db_metrics \<Rightarrow> db_metrics" where
  "inc_db_puts m = m\<lparr>db_puts := Suc (db_puts m)\<rparr>"

definition inc_cache_hits :: "db_metrics \<Rightarrow> db_metrics" where
  "inc_cache_hits m = m\<lparr>cache_hits := Suc (cache_hits m)\<rparr>"

definition inc_cache_misses :: "db_metrics \<Rightarrow> db_metrics" where
  "inc_cache_misses m = m\<lparr>cache_misses := Suc (cache_misses m)\<rparr>"

lemmas metric_incs = inc_db_gets_def inc_db_puts_def inc_cache_hits_def inc_cache_misses_def

end
