(* ===== verification/Hot_Index.thy ===== *)
theory Hot_Index
  imports Prelude
begin

text \<open>
  \<open>cddb_helper::GlobalHotIndex\<close> (src/src/storage.rs): a table of \<open>capacity\<close> slots, each an
  atomically swappable optional pointer, indexed by the low bits of a hash. \<open>get\<close> and
  \<open>set\<close> are one atomic load and one atomic store, so each is one function on the table.
  The index is a direct-mapped cache: the locale \<open>direct_mapped\<close> states that contract (a
  read returns the last write to its slot) and proves what any sequence of writes leaves
  behind; it is interpreted on the definitions of this theory.
\<close>

section \<open>The table\<close>

record 'r global_hot_index =
  table :: "'r option list"
  idx_mask :: usize

text \<open>\<open>usize::is_power_of_two\<close>: exactly one bit is set.\<close>

definition is_power_of_two :: "usize \<Rightarrow> bool" where
  "is_power_of_two w \<longleftrightarrow> length (filter (bit w) [0..<64]) = 1"

text \<open>The loop \<open>for _ in 0..capacity { table.push(empty) }\<close>.\<close>

fun push_empties :: "nat \<Rightarrow> 'r option list \<Rightarrow> 'r option list" where
  "push_empties 0 t = t"
| "push_empties (Suc n) t = push_empties n (t @ [None])"

definition hot_index_new :: "usize \<Rightarrow> 'r global_hot_index res" where
  "hot_index_new capacity =
     (if is_power_of_two capacity
      then Inr \<lparr>table = push_empties (unat capacity) [], idx_mask = capacity - 1\<rparr>
      else Inl Assertion_Failed)"

definition hot_slot :: "'r global_hot_index \<Rightarrow> usize \<Rightarrow> nat" where
  "hot_slot idx hash = unat (hash AND idx_mask idx)"

definition hot_index_get :: "'r global_hot_index \<Rightarrow> usize \<Rightarrow> 'r option res" where
  "hot_index_get idx hash = index (table idx) (hot_slot idx hash)"

definition hot_index_set :: "'r global_hot_index \<Rightarrow> usize \<Rightarrow> 'r \<Rightarrow> 'r global_hot_index res" where
  "hot_index_set idx hash r =
     bind_res (assign (table idx) (hot_slot idx hash) (Some r)) (\<lambda>t. Inr (idx\<lparr>table := t\<rparr>))"

section \<open>Invariant\<close>

text \<open>
  What \<open>new\<close> establishes: the table has \<open>2 ^ k\<close> slots and the mask selects the low \<open>k\<close>
  bits.
\<close>

definition hot_wf :: "'r global_hot_index \<Rightarrow> bool" where
  "hot_wf idx \<longleftrightarrow> (\<exists>k < 64. length (table idx) = 2 ^ k \<and> idx_mask idx = 2 ^ k - 1)"

lemma is_power_of_two_iff: "is_power_of_two w \<longleftrightarrow> (\<exists>k < 64. w = 2 ^ k)"
proof
  assume "is_power_of_two w"
  then obtain k where k: "filter (bit w) [0..<64] = [k]"
    by (auto simp: is_power_of_two_def length_Suc_conv)
  then have "set (filter (bit w) [0..<64]) = {k}" by simp
  then have bits: "{n. n < 64 \<and> bit w n} = {k}" by auto
  then have "k < 64" by auto
  have "w = 2 ^ k"
  proof (rule bit_word_eqI)
    fix n assume "n < LENGTH(64)"
    then have "n < 64" by simp
    with bits have "bit w n \<longleftrightarrow> n = k" by auto
    with \<open>k < 64\<close> show "bit w n = bit (2 ^ k :: usize) n"
      by (auto simp: bit_exp_iff)
  qed
  with \<open>k < 64\<close> show "\<exists>k < 64. w = 2 ^ k" by blast
next
  assume "\<exists>k < 64. w = 2 ^ k"
  then obtain k where k: "k < 64" and w: "w = 2 ^ k" by blast
  have "set (filter (bit w) [0..<64]) = {k}"
    using k by (auto simp: w bit_exp_iff)
  then have "length (filter (bit w) [0..<64]) = card {k}"
    by (metis distinct_card distinct_filter distinct_upt)
  then show "is_power_of_two w"
    by (simp add: is_power_of_two_def)
qed

lemma push_empties_eq: "push_empties n t = t @ replicate n None"
  by (induction n arbitrary: t) (auto simp: replicate_append_same)

lemma unat_two_power: "k < 64 \<Longrightarrow> unat (2 ^ k :: usize) = 2 ^ k"
proof -
  assume "k < 64"
  then have "(2 :: nat) ^ k < 2 ^ 64" by (rule power_strict_increasing) simp
  moreover have "unat (of_nat (2 ^ k) :: usize) = 2 ^ k mod 2 ^ 64"
    by (simp only: unat_of_nat) simp
  ultimately show ?thesis by simp
qed

lemma hot_slot_mod:
  assumes "idx_mask idx = 2 ^ k - 1" and "k < 64"
  shows "hot_slot idx h = unat h mod 2 ^ k"
proof -
  have "h AND (2 ^ k - 1) = take_bit k h"
    by (simp add: take_bit_eq_mask mask_eq_decr_exp)
  then show ?thesis
    using assms by (simp add: hot_slot_def unsigned_take_bit_eq flip: take_bit_eq_mod)
qed

lemma hot_slot_bound: "hot_wf idx \<Longrightarrow> hot_slot idx h < length (table idx)"
  by (auto simp: hot_wf_def hot_slot_mod)

lemma hot_index_new_ok:
  assumes "hot_index_new capacity = Inr idx"
  shows "hot_wf idx" and "length (table idx) = unat capacity" and "set (table idx) \<subseteq> {None}"
  using assms
  by (auto simp: hot_index_new_def hot_wf_def is_power_of_two_iff push_empties_eq unat_two_power
      split: if_splits)

lemma hot_index_get_wf: "hot_wf idx \<Longrightarrow> hot_index_get idx h = Inr (table idx ! hot_slot idx h)"
  by (simp add: hot_index_get_def hot_slot_bound)

lemma hot_index_set_wf:
  "hot_wf idx \<Longrightarrow>
   hot_index_set idx h r = Inr (idx\<lparr>table := (table idx)[hot_slot idx h := Some r]\<rparr>)"
  by (simp add: hot_index_set_def hot_slot_bound)

lemma hot_slot_table [simp]: "hot_slot (idx\<lparr>table := t\<rparr>) h = hot_slot idx h"
  by (simp add: hot_slot_def)

lemma hot_wf_update [simp]: "hot_wf (idx\<lparr>table := (table idx)[i := v]\<rparr>) \<longleftrightarrow> hot_wf idx"
  by (simp add: hot_wf_def)

section \<open>The contract of a direct-mapped cache\<close>

locale direct_mapped =
  fixes get :: "'i \<Rightarrow> usize \<Rightarrow> 'r option res"
    and set :: "'i \<Rightarrow> usize \<Rightarrow> 'r \<Rightarrow> 'i res"
    and slot :: "'i \<Rightarrow> usize \<Rightarrow> nat"
    and wf :: "'i \<Rightarrow> bool"
  assumes get_total: "wf i \<Longrightarrow> \<exists>x. get i h = Inr x"
    and set_total: "wf i \<Longrightarrow> \<exists>i'. set i h r = Inr i'"
    and set_wf: "wf i \<Longrightarrow> set i h r = Inr i' \<Longrightarrow> wf i'"
    and set_slot: "wf i \<Longrightarrow> set i h r = Inr i' \<Longrightarrow> slot i' = slot i"
    and get_set: "wf i \<Longrightarrow> set i h r = Inr i' \<Longrightarrow>
      get i' h' = (if slot i h' = slot i h then Inr (Some r) else get i h')"
begin

fun set_all :: "'i \<Rightarrow> (usize \<times> 'r) list \<Rightarrow> 'i res" where
  "set_all i [] = Inr i"
| "set_all i ((h, r) # ws) = bind_res (set i h r) (\<lambda>i'. set_all i' ws)"

lemma set_all_total: "wf i \<Longrightarrow> \<exists>i'. set_all i ws = Inr i' \<and> wf i' \<and> slot i' = slot i"
proof (induction ws arbitrary: i)
  case Nil
  then show ?case by simp
next
  case (Cons w ws)
  obtain h r where w: "w = (h, r)" by (cases w)
  obtain i' where i': "set i h r = Inr i'"
    using Cons.prems set_total by blast
  then have "wf i'" and "slot i' = slot i"
    using Cons.prems by (auto intro: set_wf set_slot)
  with Cons.IH [of i'] i' show ?case by (simp add: w)
qed

text \<open>After any sequence of writes, a read returns the last write that hit its slot.\<close>

lemma get_set_all:
  assumes "wf i" and "set_all i ws = Inr i'"
  shows "get i' h =
    (case last_option (filter (\<lambda>(h', r). slot i h' = slot i h) ws) of
       None \<Rightarrow> get i h
     | Some w \<Rightarrow> Inr (Some (snd w)))"
  using assms
proof (induction ws arbitrary: i)
  case Nil
  then show ?case by simp
next
  case (Cons w ws)
  obtain h\<^sub>0 r\<^sub>0 where w: "w = (h\<^sub>0, r\<^sub>0)" by (cases w)
  with Cons.prems obtain j where j: "set i h\<^sub>0 r\<^sub>0 = Inr j" and rest: "set_all j ws = Inr i'"
    by (auto simp: res_simps)
  have "wf j" and slots: "slot j = slot i"
    using Cons.prems(1) j by (auto intro: set_wf set_slot)
  have first: "get j h = (if slot i h = slot i h\<^sub>0 then Inr (Some r\<^sub>0) else get i h)"
    using Cons.prems(1) j by (rule get_set)
  show ?case
    using Cons.IH [OF \<open>wf j\<close> rest] first
    by (auto simp: w slots split: option.splits)
qed

end

interpretation hot: direct_mapped hot_index_get hot_index_set hot_slot hot_wf
proof
  fix i :: "'r global_hot_index" and h h' r i'
  assume wf: "hot_wf i"
  show "\<exists>x. hot_index_get i h = Inr x" and "\<exists>j. hot_index_set i h r = Inr j"
    using wf by (simp_all add: hot_index_get_wf hot_index_set_wf)
  assume set: "hot_index_set i h r = Inr i'"
  with wf have i': "i' = i\<lparr>table := (table i)[hot_slot i h := Some r]\<rparr>"
    by (simp add: hot_index_set_wf)
  with wf show "hot_wf i'" and "hot_slot i' = hot_slot i"
    by (simp_all add: fun_eq_iff)
  show "hot_index_get i' h' =
      (if hot_slot i h' = hot_slot i h then Inr (Some r) else hot_index_get i h')"
    using wf by (simp add: i' hot_index_get_wf hot_slot_bound)
qed

section \<open>Properties\<close>

text \<open>
  C30: A new index starts empty, and after any sequence of \<open>set\<close> calls \<open>get(hash)\<close> returns the
  record of the last call whose hash agrees with \<open>hash\<close> modulo the capacity; none of the calls
  goes out of bounds.
\<close>

theorem hot_index_last_write_wins:
  assumes "hot_index_new capacity = Inr idx"
  shows "\<exists>idx'. hot.set_all idx ws = Inr idx' \<and>
    (\<forall>h. hot_index_get idx' h = Inr (map_option snd (last_option
      (filter (\<lambda>(h', r). unat h' mod unat capacity = unat h mod unat capacity) ws))))"
proof -
  have wf: "hot_wf idx" and len: "length (table idx) = unat capacity" and empty: "set (table idx) \<subseteq> {None}"
    using hot_index_new_ok [OF assms] by blast+
  have slot: "hot_slot idx h = unat h mod unat capacity" for h
    using wf len by (auto simp: hot_wf_def hot_slot_mod)
  have "hot_index_get idx h = Inr None" for h
    using wf empty nth_mem [OF hot_slot_bound [OF wf, of h]] by (auto simp: hot_index_get_wf)
  moreover obtain idx' where "hot.set_all idx ws = Inr idx'"
    using hot.set_all_total [OF wf] by blast
  ultimately show ?thesis
    using hot.get_set_all [OF wf] by (auto simp: slot split: option.splits)
qed

theorem hot_index_last_write_wins_witness:
  "hot_index_new 4 = Inr (\<lparr>table = [None, None, None, None], idx_mask = 3\<rparr> :: string global_hot_index) \<and>
   (\<exists>idx'. hot.set_all \<lparr>table = [None, None, None, None], idx_mask = 3\<rparr> [(5, ''one''), (9, ''two'')] = Inr idx' \<and>
     hot_index_get idx' 5 = Inr (Some ''two'') \<and> hot_index_get idx' 2 = Inr None)"
proof -
  have new: "hot_index_new 4 = Inr (\<lparr>table = [None, None, None, None], idx_mask = 3\<rparr> :: string global_hot_index)"
    by code_simp
  from hot_index_last_write_wins [OF new, of "[(5, ''one''), (9, ''two'')]"]
  obtain idx' where "hot.set_all \<lparr>table = [None, None, None, None], idx_mask = 3\<rparr> [(5, ''one''), (9, ''two'')] = Inr idx'"
    and get: "\<And>h. hot_index_get idx' h = Inr (map_option snd (last_option
      (filter (\<lambda>(h' :: usize, r). unat h' mod unat (4 :: usize) = unat h mod unat (4 :: usize)) [(5, ''one''), (9, ''two'')])))"
    by blast
  moreover have "hot_index_get idx' 5 = Inr (Some ''two'')" and "hot_index_get idx' 2 = Inr None"
    by (simp_all add: get)
  ultimately show ?thesis using new by blast
qed

text \<open>
  \<open>GlobalHotIndex::new\<close> panics on exactly the capacities that are not a power of two; on the
  others it builds that many empty slots and a mask whose \<open>AND\<close> is the remainder modulo the
  capacity, so every slot can be addressed and no address is out of range.
\<close>

lemma hot_index_new_spec:
  "case hot_index_new capacity of
     Inl e \<Rightarrow> e = Assertion_Failed \<and> (\<nexists>k. k < 64 \<and> capacity = 2 ^ k)
   | Inr idx \<Rightarrow> (\<exists>k < 64. capacity = 2 ^ k) \<and> table idx = replicate (unat capacity) None \<and>
       (\<forall>h. hot_slot idx h = unat h mod unat capacity)"
proof (cases "is_power_of_two capacity")
  case True
  then obtain k where "k < 64" and "capacity = 2 ^ k" by (auto simp: is_power_of_two_iff)
  with True show ?thesis
    by (auto simp: hot_index_new_def push_empties_eq unat_two_power intro!: hot_slot_mod)
next
  case False
  then show ?thesis by (auto simp: hot_index_new_def is_power_of_two_iff)
qed

end
