(* ===== verification/State_Store.thy ===== *)
theory State_Store
  imports Records Hot_Index
begin

text \<open>
  The \<open>StateStore\<close> trait (src/SPEC.md, \<open>impl StateStore for ...\<close> in src/src/storage.rs and
  src/src/main.rs) as a record of operations on a store state, and its contracts as locales:
  \<open>total_store\<close>, that no operation panics and every operation keeps the store well formed, and
  \<open>cached_store\<close>, that a read returns the last record applied to its cache slot. The stores
  interpret the locales in their own theories; the execution layer is proved against them.
\<close>

section \<open>The trait\<close>

text \<open>
  \<open>get_record\<close> also takes and returns the metrics, which the tiered store updates, and the state,
  since it may register the calling thread with the database.
\<close>

record ('st, 'w) state_store =
  ss_get_record :: "'st \<Rightarrow> hash32 \<Rightarrow> db_metrics \<Rightarrow> ('w signed_record option \<times> 'st \<times> db_metrics) res"
  ss_apply_signed_record :: "'st \<Rightarrow> 'w signed_record \<Rightarrow> 'st res"
  ss_get_by_epoch :: "'st \<Rightarrow> 'w \<Rightarrow> 'w signed_record list \<times> 'st"
  ss_prune :: "'st \<Rightarrow> 'w \<Rightarrow> u64 \<Rightarrow> 'st"
  ss_flush :: "'st \<Rightarrow> 'st"

text \<open>Records applied one after the other, as \<open>apply_signed_records\<close> of the trait does.\<close>

fun apply_signed_records :: "('st, 'e::len word) state_store \<Rightarrow> 'st \<Rightarrow> 'e word signed_record list \<Rightarrow> 'st res" where
  "apply_signed_records ops st [] = Inr st"
| "apply_signed_records ops st (r # rs) =
     bind_res (ss_apply_signed_record ops st r) (\<lambda>st'. apply_signed_records ops st' rs)"

text \<open>One call of any trait operation, as a step between store states.\<close>

inductive store_step :: "('st, 'e::len word) state_store \<Rightarrow> 'st \<Rightarrow> 'st \<Rightarrow> bool" for ops where
  step_get: "ss_get_record ops st h m = Inr (x, st', m') \<Longrightarrow> store_step ops st st'"
| step_apply: "ss_apply_signed_record ops st r = Inr st' \<Longrightarrow> store_step ops st st'"
| step_epoch: "store_step ops st (snd (ss_get_by_epoch ops st e))"
| step_prune: "store_step ops st (ss_prune ops st e k)"
| step_flush: "store_step ops st (ss_flush ops st)"

section \<open>The slot of a key\<close>

text \<open>
  Both stores build their hot index with capacity 262144, so a key's slot is its entity id
  modulo \<open>2 ^ 18\<close>.
\<close>

definition key_slot :: "(bytes \<Rightarrow> u64) \<Rightarrow> hash32 \<Rightarrow> nat" where
  "key_slot ahash h = unat (entity_id ahash h) mod 262144"

definition index_wf :: "'r global_hot_index \<Rightarrow> bool" where
  "index_wf idx \<longleftrightarrow> length (table idx) = 262144 \<and> idx_mask idx = 262143"

lemma index_wf_hot_wf: "index_wf idx \<Longrightarrow> hot_wf idx"
  by (auto simp: index_wf_def hot_wf_def intro!: exI [of _ 18])

lemma hot_slot_key_slot:
  "index_wf idx \<Longrightarrow> hot_slot idx (entity_id ahash h) = key_slot ahash h"
  using hot_slot_mod [of idx 18] by (simp add: index_wf_def key_slot_def)

lemma key_slot_bound [simp]: "key_slot ahash h < 262144"
  by (simp add: key_slot_def)

lemma index_wf_update [simp]: "index_wf (idx\<lparr>table := (table idx)[i := v]\<rparr>) \<longleftrightarrow> index_wf idx"
  by (simp add: index_wf_def)

lemma store_capacity_power: "is_power_of_two 262144"
  by (auto simp: is_power_of_two_iff intro!: exI [of _ 18])

lemma hot_index_new_store:
  "hot_index_new 262144 = Inr \<lparr>table = replicate 262144 None, idx_mask = 262143\<rparr>"
  by (simp add: hot_index_new_def store_capacity_power push_empties_eq)

text \<open>What a well-formed index holds in a slot, as a signed record.\<close>

definition peek_index :: "('e::len) word cached_record global_hot_index \<Rightarrow> nat \<Rightarrow> 'e word signed_record option" where
  "peek_index idx s = (if s < length (table idx) then map_option record_of (table idx ! s) else None)"

lemma hot_get_store:
  "index_wf idx \<Longrightarrow>
   hot_index_get idx (entity_id ahash h) = Inr (table idx ! key_slot ahash h)"
  by (simp add: hot_index_get_wf index_wf_hot_wf hot_slot_key_slot)

lemma hot_set_store:
  "index_wf idx \<Longrightarrow>
   hot_index_set idx (entity_id ahash h) r = Inr (idx\<lparr>table := (table idx)[key_slot ahash h := Some r]\<rparr>)"
  by (simp add: hot_index_set_wf index_wf_hot_wf hot_slot_key_slot)

lemma peek_index_slot:
  "index_wf idx \<Longrightarrow> peek_index idx (key_slot ahash h) = map_option record_of (table idx ! key_slot ahash h)"
  by (simp add: peek_index_def index_wf_def)

lemma peek_index_set:
  "index_wf idx \<Longrightarrow>
   peek_index (idx\<lparr>table := (table idx)[key_slot ahash h := Some (cache_of r)]\<rparr>) =
     (peek_index idx)(key_slot ahash h \<mapsto> r)"
  by (auto simp: peek_index_def index_wf_def fun_eq_iff)

section \<open>Contracts\<close>

locale total_store =
  fixes ops :: "('st, 'e::len word) state_store"
    and wf :: "'st \<Rightarrow> bool"
  assumes get_total: "wf st \<Longrightarrow> \<exists>x st' m'. ss_get_record ops st h m = Inr (x, st', m') \<and> wf st'"
    and apply_total: "wf st \<Longrightarrow> \<exists>st'. ss_apply_signed_record ops st r = Inr st' \<and> wf st'"
    and epoch_wf: "wf st \<Longrightarrow> wf (snd (ss_get_by_epoch ops st e))"
    and prune_wf: "wf st \<Longrightarrow> wf (ss_prune ops st e k)"
    and flush_wf: "wf st \<Longrightarrow> wf (ss_flush ops st)"
begin

lemma step_wf: "store_step ops st st' \<Longrightarrow> wf st \<Longrightarrow> wf st'"
proof (induction rule: store_step.induct)
  case (step_get st h m x st' m')
  then show ?case using get_total [of st h m] by auto
next
  case (step_apply st r st')
  then show ?case using apply_total [of st r] by auto
qed (auto intro: epoch_wf prune_wf flush_wf)

lemma steps_wf: "(store_step ops)\<^sup>*\<^sup>* st st' \<Longrightarrow> wf st \<Longrightarrow> wf st'"
  by (induction rule: rtranclp_induct) (auto intro: step_wf)

text \<open>In every state that calls can lead to, no call panics.\<close>

lemma steps_never_panic:
  assumes "wf st" and "(store_step ops)\<^sup>*\<^sup>* st st'"
  shows "(\<exists>x st'' m'. ss_get_record ops st' h m = Inr (x, st'', m')) \<and>
    (\<exists>st''. ss_apply_signed_record ops st' r = Inr st'')"
  using steps_wf [OF assms(2,1)] get_total apply_total by blast

end

locale cached_store = total_store ops wf
  for ops :: "('st, 'e::len word) state_store" and wf :: "'st \<Rightarrow> bool" +
  fixes sha256 :: "bytes \<Rightarrow> hash32"
    and slot :: "hash32 \<Rightarrow> nat"
    and peek :: "'st \<Rightarrow> nat \<Rightarrow> 'e word signed_record option"
  assumes get_cached: "wf st \<Longrightarrow> ss_get_record ops st h m = Inr (x, st', m') \<Longrightarrow>
      peek st (slot h) = Some r \<Longrightarrow> x = Some r"
    and peek_get: "wf st \<Longrightarrow> ss_get_record ops st h m = Inr (x, st', m') \<Longrightarrow> peek st' = peek st"
    and peek_apply: "wf st \<Longrightarrow> ss_apply_signed_record ops st r = Inr st' \<Longrightarrow>
      peek st' = (peek st)(slot (key_of sha256 (payload r)) \<mapsto> r)"
    and peek_epoch: "wf st \<Longrightarrow> peek (snd (ss_get_by_epoch ops st e)) = peek st"
    and peek_prune: "wf st \<Longrightarrow> peek (ss_prune ops st e k) = peek st"
    and peek_flush: "wf st \<Longrightarrow> peek (ss_flush ops st) = peek st"
begin

text \<open>Reading what was just written, under its own key or any key of the same slot.\<close>

lemma apply_then_get:
  assumes "wf st" and "slot h = slot (key_of sha256 (payload r))"
  shows "\<exists>st1 st2 m'. ss_apply_signed_record ops st r = Inr st1 \<and>
    ss_get_record ops st1 h m = Inr (Some r, st2, m') \<and> wf st2"
proof -
  obtain st1 where st1: "ss_apply_signed_record ops st r = Inr st1" "wf st1"
    using apply_total [OF assms(1)] by blast
  have "peek st1 (slot h) = Some r"
    using peek_apply [OF assms(1) st1(1)] assms(2) by simp
  moreover obtain x st2 m' where get: "ss_get_record ops st1 h m = Inr (x, st2, m')" "wf st2"
    using get_total [OF st1(2)] by blast
  ultimately have "x = Some r"
    using get_cached [OF st1(2)] by blast
  with st1 get show ?thesis by blast
qed

lemma apply_all_peek:
  assumes "wf st"
  shows "\<exists>st'. apply_signed_records ops st rs = Inr st' \<and> wf st' \<and>
    (\<forall>s. peek st' s =
      (case last_option (filter (\<lambda>r. slot (key_of sha256 (payload r)) = s) rs) of
         None \<Rightarrow> peek st s | Some r \<Rightarrow> Some r))"
  using assms
proof (induction rs arbitrary: st)
  case Nil
  then show ?case by simp
next
  case (Cons r rs)
  obtain st1 where st1: "ss_apply_signed_record ops st r = Inr st1" "wf st1"
    using apply_total [OF Cons.prems] by blast
  have peek1: "peek st1 = (peek st)(slot (key_of sha256 (payload r)) \<mapsto> r)"
    using peek_apply [OF Cons.prems st1(1)] .
  obtain st' where st': "apply_signed_records ops st1 rs = Inr st'" "wf st'"
    "\<And>s. peek st' s = (case last_option (filter (\<lambda>r. slot (key_of sha256 (payload r)) = s) rs) of
         None \<Rightarrow> peek st1 s | Some r \<Rightarrow> Some r)"
    using Cons.IH [OF st1(2)] by blast
  show ?case
    using st1(1) st' peek1 by (auto split: option.splits)
qed

end

end
