(* ===== verification/Cddb.thy ===== *)
theory Cddb
  imports Records "HOL-Library.AList"
begin

text \<open>
  The interface of the cdDB crate as the storage layer calls it. cdDB is not part of this
  repository, so its operations are the fields of a record that every definition using them
  takes as an argument. Its reference-counted objects (partition writers, routes, workers,
  columns) are opaque here: an \<open>Arc\<close> to one is its address, and all their state is in the
  database value \<open>'db\<close>. A query session \<open>'qs\<close> is what a session opened on a database reads.

  The second half states what the code relies on as the predicate \<open>cddb_laws\<close>: a write that
  \<open>try_send\<close> accepts is queued, the background dispatcher commits queued writes in order, and
  a session reads the committed rows (src/PERF.md, the tests and the benchmarks of the
  repository describe this behaviour). No definition of the model depends on these laws; only the
  theorems that mention them do.
\<close>

type_synonym arc = usize

record ('db, 'qs) cddb =
  cd_register_partition :: "'db \<Rightarrow> string \<Rightarrow> arc \<times> 'db"
  cd_register_partition_with_wal :: "'db \<Rightarrow> string \<Rightarrow> string option \<Rightarrow> arc \<times> 'db"
  cd_get_route :: "'db \<Rightarrow> string \<Rightarrow> arc option"
  cd_try_send :: "'db \<Rightarrow> arc \<Rightarrow> write_command \<Rightarrow> bool \<times> 'db"
  cd_register_worker :: "'db \<Rightarrow> arc \<Rightarrow> arc \<times> 'db"
  cd_query_session :: "'db \<Rightarrow> arc \<Rightarrow> arc \<Rightarrow> 'qs"
  cd_get_blob :: "'qs \<Rightarrow> usize \<Rightarrow> string \<Rightarrow> bytes option"
  cd_get_int :: "'qs \<Rightarrow> usize \<Rightarrow> string \<Rightarrow> u32 option"
  cd_entities_iter :: "'qs \<Rightarrow> usize list"

section \<open>What the code relies on\<close>

text \<open>A committed row: the columns \<open>epoch\<close>, \<open>type\<close> and \<open>payload\<close> of one entity.\<close>

type_synonym row = "u32 \<times> u32 \<times> bytes"

definition commit :: "write_command \<Rightarrow> (usize \<rightharpoonup> row) \<Rightarrow> (usize \<rightharpoonup> row)" where
  "commit c rows = rows(cmd_entity_id c \<mapsto> (cmd_epoch c, cmd_record_type c, cmd_payload c))"

text \<open>
  This program registers one partition with a database, so the laws speak of that partition:
  \<open>rows db\<close> are its committed rows, \<open>pending db\<close> its queue of accepted writes, oldest first,
  and \<open>drain db\<close> is the database once the background dispatcher has worked off the queue.
\<close>

definition session_reads_rows :: "('db, 'qs) cddb \<Rightarrow> ('db \<Rightarrow> usize \<rightharpoonup> row) \<Rightarrow> bool" where
  "session_reads_rows cd rows \<longleftrightarrow>
     (\<forall>db rt w i.
        let s = cd_query_session cd db rt w
        in cd_get_blob cd s i ''payload'' = map_option (\<lambda>(e, t, p). p) (rows db i) \<and>
           cd_get_int cd s i ''epoch'' = map_option (\<lambda>(e, t, p). e) (rows db i) \<and>
           cd_get_int cd s i ''type'' = map_option (\<lambda>(e, t, p). t) (rows db i) \<and>
           distinct (cd_entities_iter cd s) \<and>
           set (cd_entities_iter cd s) = dom (rows db))"

definition worker_keeps_rows ::
  "('db, 'qs) cddb \<Rightarrow> ('db \<Rightarrow> usize \<rightharpoonup> row) \<Rightarrow> ('db \<Rightarrow> write_command list) \<Rightarrow> bool" where
  "worker_keeps_rows cd rows pending \<longleftrightarrow>
     (\<forall>db rt. rows (snd (cd_register_worker cd db rt)) = rows db \<and>
              pending (snd (cd_register_worker cd db rt)) = pending db)"

definition try_send_queues ::
  "('db, 'qs) cddb \<Rightarrow> ('db \<Rightarrow> usize \<rightharpoonup> row) \<Rightarrow> ('db \<Rightarrow> write_command list) \<Rightarrow> bool" where
  "try_send_queues cd rows pending \<longleftrightarrow>
     (\<forall>db wr c. rows (snd (cd_try_send cd db wr c)) = rows db \<and>
        pending (snd (cd_try_send cd db wr c)) =
          (if fst (cd_try_send cd db wr c) then pending db @ [c] else pending db))"

definition drain_commits ::
  "('db \<Rightarrow> usize \<rightharpoonup> row) \<Rightarrow> ('db \<Rightarrow> write_command list) \<Rightarrow> ('db \<Rightarrow> 'db) \<Rightarrow> bool" where
  "drain_commits rows pending drain \<longleftrightarrow>
     (\<forall>db. rows (drain db) = fold commit (pending db) (rows db) \<and> pending (drain db) = [])"

definition cddb_laws ::
  "('db, 'qs) cddb \<Rightarrow> ('db \<Rightarrow> usize \<rightharpoonup> row) \<Rightarrow> ('db \<Rightarrow> write_command list) \<Rightarrow> ('db \<Rightarrow> 'db) \<Rightarrow> bool"
  where
  "cddb_laws cd rows pending drain \<longleftrightarrow>
     session_reads_rows cd rows \<and> worker_keeps_rows cd rows pending \<and>
     try_send_queues cd rows pending \<and> drain_commits rows pending drain"

lemma session_reads:
  assumes "cddb_laws cd rows pending drain"
  shows "cd_get_blob cd (cd_query_session cd db rt w) i ''payload'' =
           map_option (\<lambda>(e, t, p). p) (rows db i)"
    and "cd_get_int cd (cd_query_session cd db rt w) i ''epoch'' =
           map_option (\<lambda>(e, t, p). e) (rows db i)"
    and "cd_get_int cd (cd_query_session cd db rt w) i ''type'' =
           map_option (\<lambda>(e, t, p). t) (rows db i)"
    and "set (cd_entities_iter cd (cd_query_session cd db rt w)) = dom (rows db)"
    and "distinct (cd_entities_iter cd (cd_query_session cd db rt w))"
  using assms by (simp_all add: cddb_laws_def session_reads_rows_def Let_def)

lemma drain_rows: "cddb_laws cd rows pending drain \<Longrightarrow> rows (drain db) = fold commit (pending db) (rows db)"
  by (simp add: cddb_laws_def drain_commits_def)

lemma register_worker_rows:
  "cddb_laws cd rows pending drain \<Longrightarrow> rows (snd (cd_register_worker cd db rt)) = rows db"
  by (simp add: cddb_laws_def worker_keeps_rows_def)

lemma register_worker_pending:
  "cddb_laws cd rows pending drain \<Longrightarrow> pending (snd (cd_register_worker cd db rt)) = pending db"
  by (simp add: cddb_laws_def worker_keeps_rows_def)

lemma try_send_rows:
  assumes "cddb_laws cd rows pending drain" and "cd_try_send cd db wr c = (accepted, db')"
  shows "rows db' = rows db"
    and "pending db' = (if accepted then pending db @ [c] else pending db)"
  using assms by (auto simp: cddb_laws_def try_send_queues_def dest!: spec [of _ db] spec [of _ wr] spec [of _ c])

text \<open>The rows after a batch: the last write to an entity wins.\<close>

lemma fold_commit:
  "fold commit cs rows i =
     (case filter (\<lambda>c. cmd_entity_id c = i) cs of
        [] \<Rightarrow> rows i
      | hits \<Rightarrow> (let c = last hits in Some (cmd_epoch c, cmd_record_type c, cmd_payload c)))"
proof (induction cs arbitrary: rows)
  case Nil
  then show ?case by simp
next
  case (Cons c cs)
  show ?case
    using Cons.IH [of "commit c rows"]
    by (auto simp: commit_def Let_def split: list.splits)
qed

lemma fold_commit_snoc:
  "fold commit (cs @ [c]) rows (cmd_entity_id c) =
     Some (cmd_epoch c, cmd_record_type c, cmd_payload c)"
  by (simp add: commit_def)

lemma dom_fold_commit: "dom (fold commit cs rows) = dom rows \<union> cmd_entity_id ` set cs"
proof (induction cs arbitrary: rows)
  case (Cons c cs)
  have "dom (commit c rows) = insert (cmd_entity_id c) (dom rows)" by (simp add: commit_def)
  with Cons show ?case by simp
qed simp

section \<open>A database that satisfies the laws\<close>

text \<open>
  An in-memory database with a bounded queue, used to show that the laws can hold and to
  evaluate the model on concrete inputs. It models no source code.
\<close>

record mem_db =
  mem_rows :: "(usize \<times> row) list"
  mem_queue :: "write_command list"
  mem_workers :: nat

definition mem_commit :: "write_command \<Rightarrow> (usize \<times> row) list \<Rightarrow> (usize \<times> row) list" where
  "mem_commit c rs = AList.update (cmd_entity_id c) (cmd_epoch c, cmd_record_type c, cmd_payload c) rs"

definition mem_drain :: "mem_db \<Rightarrow> mem_db" where
  "mem_drain db = db\<lparr>mem_rows := fold mem_commit (mem_queue db) (mem_rows db), mem_queue := []\<rparr>"

definition mem_cddb :: "nat \<Rightarrow> (mem_db, (usize \<times> row) list) cddb" where
  "mem_cddb cap =
     \<lparr>cd_register_partition = (\<lambda>db p. (1, db)),
      cd_register_partition_with_wal = (\<lambda>db p wal. (1, db)),
      cd_get_route = (\<lambda>db p. Some 2),
      cd_try_send = (\<lambda>db wr c. if length (mem_queue db) < cap
                                then (True, db\<lparr>mem_queue := mem_queue db @ [c]\<rparr>) else (False, db)),
      cd_register_worker = (\<lambda>db rt. (of_nat (mem_workers db), db\<lparr>mem_workers := Suc (mem_workers db)\<rparr>)),
      cd_query_session = (\<lambda>db rt w. mem_rows db),
      cd_get_blob = (\<lambda>s i a. if a = ''payload'' then map_option (\<lambda>(e, t, p). p) (map_of s i) else None),
      cd_get_int = (\<lambda>s i a. if a = ''epoch'' then map_option (\<lambda>(e, t, p). e) (map_of s i)
                            else if a = ''type'' then map_option (\<lambda>(e, t, p). t) (map_of s i) else None),
      cd_entities_iter = (\<lambda>s. remdups (map fst s))\<rparr>"

abbreviation mem_rows_of :: "mem_db \<Rightarrow> usize \<rightharpoonup> row" where
  "mem_rows_of db \<equiv> map_of (mem_rows db)"

definition mem_empty :: mem_db where
  "mem_empty = \<lparr>mem_rows = [], mem_queue = [], mem_workers = 0\<rparr>"

lemma map_of_mem_commits: "map_of (fold mem_commit cs rs) = fold commit cs (map_of rs)"
  by (induction cs arbitrary: rs) (simp_all add: mem_commit_def commit_def update_conv')

lemma mem_cddb_laws: "cddb_laws (mem_cddb cap) mem_rows_of mem_queue mem_drain"
  by (simp add: cddb_laws_def session_reads_rows_def worker_keeps_rows_def try_send_queues_def
      drain_commits_def mem_cddb_def mem_drain_def map_of_mem_commits dom_map_of_conv_image_fst)

text \<open>Hash functions and records to evaluate on.\<close>

definition sample_sha :: "bytes \<Rightarrow> hash32" where
  "sample_sha b = array_overwrite (array_splat 0) (take 32 (b @ replicate 32 0))"

definition sample_ahash :: "bytes \<Rightarrow> u64" where
  "sample_ahash b = (case b of [] \<Rightarrow> 0 | x # _ \<Rightarrow> ucast x)"

definition sample_record :: "u8 \<Rightarrow> 64 word signed_record" where
  "sample_record b = \<lparr>epoch_id = 42, payload = [b, 2, 3], judge_signature = array_splat 0, record_type = 10\<rparr>"

end
