(* ===== verification/Pure_Store.thy ===== *)
theory Pure_Store
  imports State_Store Cddb
begin

text \<open>
  \<open>PureCacheStore\<close> (src/src/storage.rs), the memory-only store, with the file system stub
  \<open>MemFs\<close> it hands to cdDB, and the \<open>MockStore\<close> that src/src/main.rs falls back to when neither
  storage feature is compiled in. Both interpret \<open>total_store\<close>; the pure cache also interprets
  \<open>cached_store\<close>.
\<close>

section \<open>MemFs\<close>

text \<open>\<open>cdDB::platform::FileSystem\<close>; a \<open>Result<_, String>\<close> is a sum with the error on the left.\<close>

record file_system =
  fs_write :: "string \<Rightarrow> bytes \<Rightarrow> string + unit"
  fs_read :: "string \<Rightarrow> string + bytes"
  fs_append :: "string \<Rightarrow> bytes \<Rightarrow> string + unit"
  fs_exists :: "string \<Rightarrow> bool"
  fs_create_dir_all :: "string \<Rightarrow> string + unit"
  fs_read_dir :: "string \<Rightarrow> string + string list"

definition mem_fs :: file_system where
  "mem_fs =
     \<lparr>fs_write = (\<lambda>path data. Inr ()), fs_read = (\<lambda>path. Inr []),
      fs_append = (\<lambda>path data. Inr ()), fs_exists = (\<lambda>path. True),
      fs_create_dir_all = (\<lambda>path. Inr ()), fs_read_dir = (\<lambda>path. Inr [])\<rparr>"

section \<open>PureCacheStore\<close>

text \<open>\<open>_db\<close>, \<open>db_writer\<close> and \<open>route\<close> are handles to one database; its state is \<open>pc_db\<close>.\<close>

record ('db, 'w) pure_cache_store =
  pc_db :: 'db
  pc_writer :: arc
  pc_route :: arc
  pc_hot_index :: "'w cached_record global_hot_index"

text \<open>\<open>cd_new\<close> is \<open>CdDBDispatcher::new\<close>, given the data path and the file system.\<close>

definition pure_cache_new ::
  "('db, 'qs) cddb \<Rightarrow> (string option \<Rightarrow> file_system \<Rightarrow> 'db) \<Rightarrow> hash32 \<Rightarrow> usize \<Rightarrow>
   ('db, 'e::len word) pure_cache_store res" where
  "pure_cache_new cd cd_new namespace ram_mb =
     (case cd_register_partition cd (cd_new (Some ''/dev/null/pure_cache'') mem_fs) ''pure_cache'' of
        (writer, db) \<Rightarrow>
          bind_res (unwrap (cd_get_route cd db ''pure_cache'')) (\<lambda>route.
          bind_res (hot_index_new 262144) (\<lambda>idx.
            Inr \<lparr>pc_db = db, pc_writer = writer, pc_route = route, pc_hot_index = idx\<rparr>)))"

definition pure_apply_signed_record ::
  "('db, 'qs) cddb \<Rightarrow> (bytes \<Rightarrow> hash32) \<Rightarrow> (bytes \<Rightarrow> u64) \<Rightarrow>
   ('db, 'e::len word) pure_cache_store \<Rightarrow> 'e word signed_record \<Rightarrow> ('db, 'e word) pure_cache_store res" where
  "pure_apply_signed_record cd sha256 ahash st r =
     bind_res (content_hash sha256 (payload r)) (\<lambda>h.
     let i = entity_id ahash h in
     bind_res (hot_index_set (pc_hot_index st) i (cache_of r)) (\<lambda>idx.
     let (sent, db) = cd_try_send cd (pc_db st) (pc_writer st)
                        (InsertFast i (of_nat (length (payload r))) 0 (payload r))
     in Inr (st\<lparr>pc_hot_index := idx, pc_db := db\<rparr>)))"

definition pure_get_by_epoch ::
  "('db, 'e::len word) pure_cache_store \<Rightarrow> 'e word \<Rightarrow> 'e word signed_record list \<times> ('db, 'e word) pure_cache_store" where
  "pure_get_by_epoch st e = ([], st)"

definition pure_prune ::
  "('db, 'e::len word) pure_cache_store \<Rightarrow> 'e word \<Rightarrow> u64 \<Rightarrow> ('db, 'e word) pure_cache_store" where
  "pure_prune st e k = st"

definition pure_flush :: "('db, 'e::len word) pure_cache_store \<Rightarrow> ('db, 'e word) pure_cache_store" where
  "pure_flush st = st"

definition pure_get_record ::
  "(bytes \<Rightarrow> u64) \<Rightarrow> ('db, 'e::len word) pure_cache_store \<Rightarrow> hash32 \<Rightarrow> db_metrics \<Rightarrow>
   ('e word signed_record option \<times> ('db, 'e word) pure_cache_store \<times> db_metrics) res" where
  "pure_get_record ahash st h m =
     bind_res (hot_index_get (pc_hot_index st) (entity_id ahash h))
       (\<lambda>cached. Inr (map_option record_of cached, st, m))"

definition pure_store ::
  "('db, 'qs) cddb \<Rightarrow> (bytes \<Rightarrow> hash32) \<Rightarrow> (bytes \<Rightarrow> u64) \<Rightarrow>
   (('db, 'e::len word) pure_cache_store, 'e word) state_store" where
  "pure_store cd sha256 ahash =
     \<lparr>ss_get_record = pure_get_record ahash,
      ss_apply_signed_record = pure_apply_signed_record cd sha256 ahash,
      ss_get_by_epoch = pure_get_by_epoch, ss_prune = pure_prune, ss_flush = pure_flush\<rparr>"

section \<open>Correctness\<close>

definition pure_wf :: "('db, 'e::len word) pure_cache_store \<Rightarrow> bool" where
  "pure_wf st \<longleftrightarrow> index_wf (pc_hot_index st)"

definition pure_peek :: "('db, 'e::len word) pure_cache_store \<Rightarrow> nat \<Rightarrow> 'e word signed_record option" where
  "pure_peek st = peek_index (pc_hot_index st)"

lemmas pure_simps = pure_store_def pure_get_by_epoch_def pure_prune_def pure_flush_def
  pure_wf_def pure_peek_def

lemma pure_get_record_eq:
  "pure_wf st \<Longrightarrow>
   pure_get_record ahash st h m = Inr (pure_peek st (key_slot ahash h), st, m)"
  by (simp add: pure_get_record_def pure_wf_def pure_peek_def hot_get_store peek_index_slot)

lemma pure_apply_eq:
  assumes "pure_wf st"
  shows "\<exists>st'. pure_apply_signed_record cd sha256 ahash st r = Inr st' \<and> pure_wf st' \<and>
    pure_peek st' = (pure_peek st)(key_slot ahash (key_of sha256 (payload r)) \<mapsto> r)"
  using assms
  by (simp add: pure_apply_signed_record_def pure_wf_def pure_peek_def hot_set_store
      peek_index_set Let_def split: prod.splits)

interpretation pure: cached_store "pure_store cd sha256 ahash" pure_wf sha256 "key_slot ahash" pure_peek
  for cd :: "('db, 'qs) cddb" and sha256 ahash
proof
  fix st :: "('db, 'e::len word) pure_cache_store" and h m r x st' m' e k
  assume wf: "pure_wf st"
  show "\<exists>x st' m'. ss_get_record (pure_store cd sha256 ahash) st h m = Inr (x, st', m') \<and> pure_wf st'"
    using wf by (simp add: pure_store_def pure_get_record_eq)
  show "\<exists>st'. ss_apply_signed_record (pure_store cd sha256 ahash) st r = Inr st' \<and> pure_wf st'"
    using pure_apply_eq [OF wf, of cd sha256 ahash r] by (auto simp: pure_store_def)
  show "pure_wf (snd (ss_get_by_epoch (pure_store cd sha256 ahash) st e))"
    and "pure_wf (ss_prune (pure_store cd sha256 ahash) st e k)"
    and "pure_wf (ss_flush (pure_store cd sha256 ahash) st)"
    and "pure_peek (snd (ss_get_by_epoch (pure_store cd sha256 ahash) st e)) = pure_peek st"
    and "pure_peek (ss_prune (pure_store cd sha256 ahash) st e k) = pure_peek st"
    and "pure_peek (ss_flush (pure_store cd sha256 ahash) st) = pure_peek st"
    using wf by (simp_all add: pure_simps)
  show "pure_peek st' = (pure_peek st)(key_slot ahash (key_of sha256 (payload r)) \<mapsto> r)"
    if "ss_apply_signed_record (pure_store cd sha256 ahash) st r = Inr st'"
    using pure_apply_eq [OF wf, of cd sha256 ahash r] that by (auto simp: pure_store_def)
  assume get: "ss_get_record (pure_store cd sha256 ahash) st h m = Inr (x, st', m')"
  then show "pure_peek st' = pure_peek st"
    using wf by (simp add: pure_store_def pure_get_record_eq)
  show "x = Some r" if "pure_peek st (key_slot ahash h) = Some r"
    using get wf that by (simp add: pure_store_def pure_get_record_eq)
qed

lemma pure_cache_new_wf: "pure_cache_new cd cd_new ns mb = Inr st \<Longrightarrow> pure_wf st"
  by (auto simp: pure_cache_new_def res_simps hot_index_new_store pure_wf_def index_wf_def
      split: prod.splits)

lemma pure_cache_new_empty: "pure_cache_new cd cd_new ns mb = Inr st \<Longrightarrow> pure_peek st s = None"
  by (auto simp: pure_cache_new_def res_simps hot_index_new_store pure_peek_def peek_index_def
      split: prod.splits)

section \<open>MockStore\<close>

text \<open>
  The mock store has no state. It does not define \<open>flush\<close>, which is the trait's default; on the
  unit state there is only one function it can be.
\<close>

definition mock_store :: "(unit, 'e::len word) state_store" where
  "mock_store =
     \<lparr>ss_get_record = (\<lambda>st h m. Inr (None, st, m)),
      ss_apply_signed_record = (\<lambda>st r. Inr st),
      ss_get_by_epoch = (\<lambda>st e. ([], st)),
      ss_prune = (\<lambda>st e k. st),
      ss_flush = (\<lambda>st. st)\<rparr>"

interpretation mock: total_store "mock_store :: (unit, 'e::len word) state_store" "\<lambda>_. True"
  by unfold_locales (simp_all add: mock_store_def)

section \<open>Properties\<close>

text \<open>
  Once a \<open>PureCacheStore\<close> is built, no sequence of trait calls panics, and after any sequence
  of applied records \<open>get_record(hash)\<close> returns the last one whose content hash falls into the
  same of the 262144 slots as \<open>hash\<close>, or nothing when there is none.
\<close>

lemma pure_last_apply_wins:
  assumes "pure_cache_new cd cd_new ns mb = Inr (st :: ('db, 'e::len word) pure_cache_store)"
    and "(store_step (pure_store cd sha256 ahash))\<^sup>*\<^sup>* st st1"
  shows "\<exists>st2. apply_signed_records (pure_store cd sha256 ahash) st1 rs = Inr st2 \<and>
    pure_get_record ahash st2 h m =
      Inr (case last_option (filter (\<lambda>r. key_slot ahash (key_of sha256 (payload r)) = key_slot ahash h) rs) of
             None \<Rightarrow> pure_peek st1 (key_slot ahash h) | Some r \<Rightarrow> Some r, st2, m)"
proof -
  have "pure_wf st1"
    using pure.steps_wf [OF assms(2)] pure_cache_new_wf [OF assms(1)] by blast
  from pure.apply_all_peek [OF this, of cd sha256 ahash rs] obtain st2 where
    "apply_signed_records (pure_store cd sha256 ahash) st1 rs = Inr st2" "pure_wf st2"
    "\<And>s. pure_peek st2 s =
      (case last_option (filter (\<lambda>r. key_slot ahash (key_of sha256 (payload r)) = s) rs) of
         None \<Rightarrow> pure_peek st1 s | Some r \<Rightarrow> Some r)"
    by blast
  then show ?thesis by (simp add: pure_get_record_eq)
qed

definition sample_pure :: "(mem_db, 64 word) pure_cache_store" where
  "sample_pure = \<lparr>pc_db = mem_empty, pc_writer = 1, pc_route = 2,
     pc_hot_index = \<lparr>table = replicate 262144 None, idx_mask = 262143\<rparr>\<rparr>"

lemma sample_pure_new: "pure_cache_new (mem_cddb 4) (\<lambda>p fs. mem_empty) (array_splat 0) 512 = Inr sample_pure"
  by (simp add: pure_cache_new_def mem_cddb_def hot_index_new_store sample_pure_def)

end
