(* ===== verification/Worker_Cache.thy ===== *)
theory Worker_Cache
  imports Cddb
begin

text \<open>
  The thread-local \<open>WORKER_CACHE\<close> of \<open>cddb_helper\<close> (src/src/storage.rs): \<open>get_worker\<close>, which
  registers the calling thread with a partition route on first use, and
  \<open>get_record_from_route\<close>, the read path that also caches the column pointers. The state of
  one thread is its cache, the database, and the log of the pin calls (\<open>w.enter()\<close> and
  \<open>w.leave()\<close>) it has made on workers. Shown: the cache never lets an \<open>unwrap\<close> panic, a worker is
  registered once for as long as the thread stays with one route, and which paths through
  \<open>get_record_from_route\<close> give back the pin they took.
\<close>

section \<open>State\<close>

text \<open>The raw column interface of cdDB, beside the session interface.\<close>

record ('db, 'qs) cddb_columns = "('db, 'qs) cddb" +
  cd_get_column_blob :: "'db \<Rightarrow> arc \<Rightarrow> string \<Rightarrow> arc \<Rightarrow> arc option"
  cd_get_column_int :: "'db \<Rightarrow> arc \<Rightarrow> string \<Rightarrow> arc \<Rightarrow> arc option"
  cd_shared_pointer :: "'db \<Rightarrow> arc \<Rightarrow> usize \<Rightarrow> (string \<rightharpoonup> usize) option"
  cd_track_hit :: "'db \<Rightarrow> arc \<Rightarrow> usize \<Rightarrow> 'db"
  cd_blob_element :: "'db \<Rightarrow> arc \<Rightarrow> usize \<Rightarrow> bytes option"
  cd_int_element :: "'db \<Rightarrow> arc \<Rightarrow> usize \<Rightarrow> u32 option"

record tls_worker_cache =
  tls_key :: usize
  tls_worker :: "arc option"
  col_payload :: "arc option"
  col_epoch :: "arc option"
  col_type :: "arc option"

definition tls_init :: tls_worker_cache where
  "tls_init = \<lparr>tls_key = 0, tls_worker = None, col_payload = None, col_epoch = None, col_type = None\<rparr>"

text \<open>What both functions do when the cached key is not the route's: register and reset.\<close>

definition tls_switch :: "arc \<Rightarrow> arc \<Rightarrow> tls_worker_cache" where
  "tls_switch route w =
     \<lparr>tls_key = route, tls_worker = Some w, col_payload = None, col_epoch = None, col_type = None\<rparr>"

section \<open>get_worker\<close>

text \<open>\<open>Arc::as_ptr(route) as usize\<close> is the route's address, which is how a route is named here.\<close>

definition get_worker ::
  "('db, 'qs, 'm) cddb_scheme \<Rightarrow> arc \<Rightarrow> tls_worker_cache \<Rightarrow> 'db \<Rightarrow> arc \<times> tls_worker_cache \<times> 'db" where
  "get_worker cd route tls db =
     (case (if tls_key tls = route then tls_worker tls else None) of
        Some w \<Rightarrow> (w, tls, db)
      | None \<Rightarrow> (case cd_register_worker cd db route of (w, db') \<Rightarrow> (w, tls_switch route w, db')))"

section \<open>get_record_from_route\<close>

datatype pin = Enter arc | Leave arc

record 'db thread_state =
  th_tls :: tls_worker_cache
  th_db :: 'db
  th_pins :: "pin list"

definition pin_call :: "pin \<Rightarrow> 'db thread_state \<Rightarrow> 'db thread_state" where
  "pin_call p th = th\<lparr>th_pins := th_pins th @ [p]\<rparr>"

definition ensure_route ::
  "('db, 'qs, 'm) cddb_scheme \<Rightarrow> arc \<Rightarrow> 'db thread_state \<Rightarrow> 'db thread_state" where
  "ensure_route cd route th =
     (if tls_key (th_tls th) \<noteq> route
      then case cd_register_worker cd (th_db th) route of
             (w, db) \<Rightarrow> th\<lparr>th_tls := tls_switch route w, th_db := db\<rparr>
      else th)"

text \<open>Resolve one column pointer under a pin on the cached worker.\<close>

definition fetch_column ::
  "('db \<Rightarrow> arc \<Rightarrow> arc option) \<Rightarrow> 'db thread_state \<Rightarrow> (arc option \<times> 'db thread_state) res" where
  "fetch_column look th =
     bind_res (unwrap (tls_worker (th_tls th)))
       (\<lambda>w. let th1 = pin_call (Enter w) th
            in Inr (look (th_db th1) w, pin_call (Leave w) th1))"

definition ensure_payload ::
  "('db, 'qs, 'm) cddb_columns_scheme \<Rightarrow> arc \<Rightarrow> 'db thread_state \<Rightarrow> 'db thread_state res" where
  "ensure_payload cd route th =
     (if col_payload (th_tls th) = None
      then bind_res (fetch_column (\<lambda>db w. cd_get_column_blob cd db route ''payload'' w) th)
             (\<lambda>(c, th'). Inr (th'\<lparr>th_tls := (th_tls th')\<lparr>col_payload := c\<rparr>\<rparr>))
      else Inr th)"

definition ensure_epoch ::
  "('db, 'qs, 'm) cddb_columns_scheme \<Rightarrow> arc \<Rightarrow> 'db thread_state \<Rightarrow> 'db thread_state res" where
  "ensure_epoch cd route th =
     (if col_epoch (th_tls th) = None
      then bind_res (fetch_column (\<lambda>db w. cd_get_column_int cd db route ''epoch'' w) th)
             (\<lambda>(c, th'). Inr (th'\<lparr>th_tls := (th_tls th')\<lparr>col_epoch := c\<rparr>\<rparr>))
      else Inr th)"

definition ensure_type ::
  "('db, 'qs, 'm) cddb_columns_scheme \<Rightarrow> arc \<Rightarrow> 'db thread_state \<Rightarrow> 'db thread_state res" where
  "ensure_type cd route th =
     (if col_type (th_tls th) = None
      then bind_res (fetch_column (\<lambda>db w. cd_get_column_int cd db route ''type'' w) th)
             (\<lambda>(c, th'). Inr (th'\<lparr>th_tls := (th_tls th')\<lparr>col_type := c\<rparr>\<rparr>))
      else Inr th)"

text \<open>
  The six look-ups between \<open>w.enter()\<close> and \<open>w.leave()\<close>, in the source's order, each a \<open>?\<close>:
  \<open>None\<close> here is a return from the whole closure.
\<close>

definition read_columns ::
  "('db, 'qs, 'm) cddb_columns_scheme \<Rightarrow> 'db \<Rightarrow> arc \<Rightarrow> arc \<Rightarrow> arc \<Rightarrow> (string \<rightharpoonup> usize) \<Rightarrow>
   ('e::len) word signed_record option" where
  "read_columns cd db cp ce ct p =
     Option.bind (p ''payload'') (\<lambda>payload_idx.
     Option.bind (p ''epoch'') (\<lambda>epoch_idx.
     Option.bind (p ''type'') (\<lambda>type_idx.
     Option.bind (cd_blob_element cd db cp payload_idx) (\<lambda>pl.
     Option.bind (cd_int_element cd db ce epoch_idx) (\<lambda>epoch.
     Option.bind (cd_int_element cd db ct type_idx) (\<lambda>ty.
       Some \<lparr>epoch_id = ucast epoch, payload = pl, judge_signature = array_splat 0,
             record_type = ty\<rparr>))))))"

definition pinned_read ::
  "('db, 'qs, 'm) cddb_columns_scheme \<Rightarrow> arc \<Rightarrow> usize \<Rightarrow> arc \<Rightarrow> arc \<Rightarrow> arc \<Rightarrow> arc \<Rightarrow>
   'db thread_state \<Rightarrow> ('e::len) word signed_record option \<times> 'db thread_state" where
  "pinned_read cd route i w cp ce ct th =
     (let th1 = pin_call (Enter w) th
      in case cd_shared_pointer cd (th_db th1) route i of
           None \<Rightarrow> (None, pin_call (Leave w) th1)
         | Some p \<Rightarrow>
             (let th2 = th1\<lparr>th_db := cd_track_hit cd (th_db th1) route i\<rparr>
              in case read_columns cd (th_db th2) cp ce ct p of
                   None \<Rightarrow> (None, th2)
                 | Some r \<Rightarrow> (Some r, pin_call (Leave w) th2)))"

definition read_resolved ::
  "('db, 'qs, 'm) cddb_columns_scheme \<Rightarrow> arc \<Rightarrow> usize \<Rightarrow> 'db thread_state \<Rightarrow>
   (('e::len) word signed_record option \<times> 'db thread_state) res" where
  "read_resolved cd route i th =
     (case (col_payload (th_tls th), col_epoch (th_tls th), col_type (th_tls th)) of
        (Some cp, Some ce, Some ct) \<Rightarrow>
          bind_res (unwrap (tls_worker (th_tls th))) (\<lambda>w.
            Inr (pinned_read cd route i w cp ce ct th))
      | _ \<Rightarrow> Inr (None, th))"

definition get_record_from_route ::
  "('db, 'qs, 'm) cddb_columns_scheme \<Rightarrow> arc \<Rightarrow> usize \<Rightarrow> 'db thread_state \<Rightarrow>
   (('e::len) word signed_record option \<times> 'db thread_state) res" where
  "get_record_from_route cd route i th =
     bind_res (ensure_payload cd route (ensure_route cd route th)) (\<lambda>th.
     bind_res (ensure_epoch cd route th) (\<lambda>th.
     bind_res (ensure_type cd route th) (\<lambda>th.
       read_resolved cd route i th)))"

section \<open>Invariant: a cache with a key has a worker\<close>

definition tls_wf :: "tls_worker_cache \<Rightarrow> bool" where
  "tls_wf tls \<longleftrightarrow> (tls_key tls \<noteq> 0 \<longrightarrow> tls_worker tls \<noteq> None)"

lemma tls_wf_init [simp]: "tls_wf tls_init"
  by (simp add: tls_wf_def tls_init_def)

lemma tls_wf_switch [simp]: "tls_wf (tls_switch route w)"
  by (simp add: tls_wf_def tls_switch_def)

lemma tls_switch_sel [simp]:
  "tls_key (tls_switch route w) = route"
  "tls_worker (tls_switch route w) = Some w"
  "col_payload (tls_switch route w) = None"
  "col_epoch (tls_switch route w) = None"
  "col_type (tls_switch route w) = None"
  by (simp_all add: tls_switch_def)

lemma get_worker_wf: "tls_wf tls \<Longrightarrow> get_worker cd route tls db = (w, tls', db') \<Longrightarrow> tls_wf tls'"
  by (auto simp: get_worker_def split: option.splits prod.splits if_splits)

lemma get_worker_cached:
  "get_worker cd route tls db = (w, tls', db') \<Longrightarrow>
   tls_key tls' = route \<and> tls_worker tls' = Some w"
  by (auto simp: get_worker_def split: option.splits prod.splits if_splits)

lemma get_worker_hit:
  "tls_key tls = route \<Longrightarrow> tls_worker tls = Some w \<Longrightarrow> get_worker cd route tls db = (w, tls, db)"
  by (simp add: get_worker_def)

lemma get_worker_miss:
  "tls_key tls \<noteq> route \<Longrightarrow>
   get_worker cd route tls db =
     (fst (cd_register_worker cd db route), tls_switch route (fst (cd_register_worker cd db route)),
      snd (cd_register_worker cd db route))"
  by (simp add: get_worker_def split: prod.splits)

lemma get_worker_db:
  "get_worker cd route tls db = (w, tls', db') \<Longrightarrow>
   db' = db \<or> db' = snd (cd_register_worker cd db route)"
  by (auto simp: get_worker_def split: option.splits prod.splits if_splits)

section \<open>Panic freedom and pin balance\<close>

lemma th_pins_pin_call [simp]: "th_pins (pin_call p th) = th_pins th @ [p]"
  by (simp add: pin_call_def)

lemma th_tls_pin_call [simp]: "th_tls (pin_call p th) = th_tls th"
  by (simp add: pin_call_def)

lemma th_db_pin_call [simp]: "th_db (pin_call p th) = th_db th"
  by (simp add: pin_call_def)

text \<open>Depth of the pins a log leaves open on a worker.\<close>

definition pin_depth :: "arc \<Rightarrow> pin list \<Rightarrow> int" where
  "pin_depth w ps = int (count_list ps (Enter w)) - int (count_list ps (Leave w))"

lemma pin_depth_simps [simp]:
  "pin_depth w (ps @ [Enter v]) = pin_depth w ps + (if v = w then 1 else 0)"
  "pin_depth w (ps @ [Leave v]) = pin_depth w ps - (if v = w then 1 else 0)"
  "pin_depth w (ps @ [Enter v, Leave v]) = pin_depth w ps"
  by (simp_all add: pin_depth_def)

text \<open>What the steps before the pinned read keep: a worker is cached and no pin is left open.\<close>

definition resolved :: "arc \<Rightarrow> 'db thread_state \<Rightarrow> 'db thread_state \<Rightarrow> bool" where
  "resolved w th th' \<longleftrightarrow>
     tls_worker (th_tls th') = Some w \<and> (\<forall>v. pin_depth v (th_pins th') = pin_depth v (th_pins th))"

lemma ensure_route_resolved:
  assumes "tls_wf (th_tls th)" and "route \<noteq> 0"
  shows "\<exists>w. resolved w th (ensure_route cd route th)"
  using assms
  by (auto simp: ensure_route_def resolved_def tls_wf_def split: prod.splits)

lemma fetch_column_resolved:
  assumes "resolved w th\<^sub>0 th"
  shows "\<exists>c th'. fetch_column look th = Inr (c, th') \<and> resolved w th\<^sub>0 th'"
  using assms by (auto simp: fetch_column_def resolved_def Let_def)

lemma resolved_tls_update:
  "resolved w th\<^sub>0 th \<Longrightarrow> tls_worker (f (th_tls th)) = tls_worker (th_tls th) \<Longrightarrow>
   resolved w th\<^sub>0 (th\<lparr>th_tls := f (th_tls th)\<rparr>)"
  by (simp add: resolved_def)

lemma ensure_resolved:
  assumes "resolved w th\<^sub>0 th"
  shows "\<exists>th'. ensure_payload cd route th = Inr th' \<and> resolved w th\<^sub>0 th'"
    and "\<exists>th'. ensure_epoch cd route th = Inr th' \<and> resolved w th\<^sub>0 th'"
    and "\<exists>th'. ensure_type cd route th = Inr th' \<and> resolved w th\<^sub>0 th'"
  using fetch_column_resolved [OF assms, of "\<lambda>db w. cd_get_column_blob cd db route ''payload'' w"]
    fetch_column_resolved [OF assms, of "\<lambda>db w. cd_get_column_int cd db route ''epoch'' w"]
    fetch_column_resolved [OF assms, of "\<lambda>db w. cd_get_column_int cd db route ''type'' w"] assms
  by (auto simp: ensure_payload_def ensure_epoch_def ensure_type_def resolved_tls_update)

text \<open>The state in which the pinned read starts, if it starts.\<close>

lemma get_record_from_route_cases:
  fixes th :: "'db thread_state"
  assumes "tls_wf (th_tls th)" and "route \<noteq> 0"
  obtains (unresolved) th' where
      "get_record_from_route cd route i th = Inr (None :: ('e::len) word signed_record option, th')"
      "\<And>v. pin_depth v (th_pins th') = pin_depth v (th_pins th)"
  | (pinned) w cp ce ct th' where
      "get_record_from_route cd route i th =
         Inr (pinned_read cd route i w cp ce ct th' :: 'e word signed_record option \<times> 'db thread_state)"
      "\<And>v. pin_depth v (th_pins th') = pin_depth v (th_pins th)"
proof -
  obtain w where 0: "resolved w th (ensure_route cd route th)"
    using ensure_route_resolved [OF assms] by blast
  obtain th1 where 1: "ensure_payload cd route (ensure_route cd route th) = Inr th1" "resolved w th th1"
    using ensure_resolved(1) [OF 0] by blast
  obtain th2 where 2: "ensure_epoch cd route th1 = Inr th2" "resolved w th th2"
    using ensure_resolved(2) [OF 1(2)] by blast
  obtain th3 where 3: "ensure_type cd route th2 = Inr th3" "resolved w th th3"
    using ensure_resolved(3) [OF 2(2)] by blast
  have depth: "\<And>v. pin_depth v (th_pins th3) = pin_depth v (th_pins th)"
    and worker: "tls_worker (th_tls th3) = Some w"
    using 3(2) by (auto simp: resolved_def)
  show ?thesis
  proof (cases "col_payload (th_tls th3) = None \<or> col_epoch (th_tls th3) = None
      \<or> col_type (th_tls th3) = None")
    case True
    then have "get_record_from_route cd route i th = Inr (None :: 'e word signed_record option, th3)"
      using 1 2 3 by (auto simp: get_record_from_route_def read_resolved_def split: option.splits)
    then show ?thesis using depth by (rule unresolved)
  next
    case False
    then obtain cp ce ct where "col_payload (th_tls th3) = Some cp"
      "col_epoch (th_tls th3) = Some ce" "col_type (th_tls th3) = Some ct"
      by auto
    then have "get_record_from_route cd route i th =
        Inr (pinned_read cd route i w cp ce ct th3 :: 'e word signed_record option \<times> 'db thread_state)"
      using 1 2 3 worker by (simp add: get_record_from_route_def read_resolved_def)
    then show ?thesis using depth by (rule pinned)
  qed
qed

lemma pinned_read_pins:
  "pinned_read cd route i w cp ce ct th = (x, th') \<Longrightarrow>
   pin_depth v (th_pins th') = pin_depth v (th_pins th) +
     (if x = None \<and> cd_shared_pointer cd (th_db th) route i \<noteq> None \<and> v = w then 1 else 0)"
  by (auto simp: pinned_read_def Let_def split: option.splits)

text \<open>The invariant is kept by the whole function.\<close>

lemma ensure_tls_wf:
  "ensure_payload cd route th = Inr th' \<Longrightarrow> tls_wf (th_tls th) \<Longrightarrow> tls_wf (th_tls th')"
  "ensure_epoch cd route th = Inr th' \<Longrightarrow> tls_wf (th_tls th) \<Longrightarrow> tls_wf (th_tls th')"
  "ensure_type cd route th = Inr th' \<Longrightarrow> tls_wf (th_tls th) \<Longrightarrow> tls_wf (th_tls th')"
  by (auto simp: ensure_payload_def ensure_epoch_def ensure_type_def fetch_column_def res_simps
      tls_wf_def Let_def split: if_splits)

lemma ensure_route_wf: "tls_wf (th_tls th) \<Longrightarrow> tls_wf (th_tls (ensure_route cd route th))"
  by (auto simp: ensure_route_def split: prod.splits)

lemma pinned_read_tls: "pinned_read cd route i w cp ce ct th = (x, th') \<Longrightarrow> th_tls th' = th_tls th"
  by (auto simp: pinned_read_def Let_def split: option.splits)

lemma read_resolved_tls: "read_resolved cd route i th = Inr (x, th') \<Longrightarrow> th_tls th' = th_tls th"
  by (auto simp: read_resolved_def res_simps split: option.splits dest: pinned_read_tls)

lemma get_record_from_route_wf:
  assumes "get_record_from_route cd route i th = Inr (x, th')" and "tls_wf (th_tls th)"
  shows "tls_wf (th_tls th')"
proof -
  obtain th1 th2 th3 where "ensure_payload cd route (ensure_route cd route th) = Inr th1"
    "ensure_epoch cd route th1 = Inr th2" "ensure_type cd route th2 = Inr th3"
    "read_resolved cd route i th3 = Inr (x, th')"
    using assms(1) by (auto simp: get_record_from_route_def res_simps)
  from this(1-3) ensure_route_wf [OF assms(2)] have "tls_wf (th_tls th3)"
    by (blast intro: ensure_tls_wf)
  with read_resolved_tls [OF \<open>read_resolved cd route i th3 = Inr (x, th')\<close>] show ?thesis by simp
qed

section \<open>A concrete column store\<close>

text \<open>The in-memory database with its columns at fixed addresses, for evaluation; no source code.\<close>

definition mem_columns :: "nat \<Rightarrow> (mem_db, (usize \<times> row) list) cddb_columns" where
  "mem_columns cap = cddb.extend (mem_cddb cap)
     \<lparr>cd_get_column_blob = (\<lambda>db rt a w. if a = ''payload'' then Some 10 else None),
      cd_get_column_int = (\<lambda>db rt a w. if a = ''epoch'' then Some 11 else if a = ''type'' then Some 12 else None),
      cd_shared_pointer = (\<lambda>db rt i. map_option (\<lambda>_. [''payload'' \<mapsto> i, ''epoch'' \<mapsto> i, ''type'' \<mapsto> i]) (map_of (mem_rows db) i)),
      cd_track_hit = (\<lambda>db rt i. db),
      cd_blob_element = (\<lambda>db c i. if c = 10 then map_option (\<lambda>(e, t, p). p) (map_of (mem_rows db) i) else None),
      cd_int_element = (\<lambda>db c i. if c = 11 then map_option (\<lambda>(e, t, p). e) (map_of (mem_rows db) i)
                               else if c = 12 then map_option (\<lambda>(e, t, p). t) (map_of (mem_rows db) i) else None)\<rparr>"

lemmas mem_columns_simps = mem_columns_def mem_cddb_def cddb.defs

definition mem_thread :: "mem_db thread_state" where
  "mem_thread = \<lparr>th_tls = tls_init, th_db = mem_empty\<lparr>mem_rows := [(7, (1, 2, [3]))]\<rparr>, th_pins = []\<rparr>"

section \<open>Properties\<close>

text \<open>
  A thread registers with a route once: after \<open>get_worker\<close> on a route, every further call on
  that route, at whatever state of the database, returns the same worker and changes neither
  the cache nor the database.
\<close>

lemma get_worker_registers_once:
  assumes "get_worker cd route tls db = (w, tls', db')"
  shows "get_worker cd route tls' db'' = (w, tls', db'')"
  using get_worker_cached [OF assms] by (simp add: get_worker_hit)

text \<open>
  The cache remembers one route only, so a thread that goes back and forth between two routes
  registers again at every switch: three calls on the routes a, b, a make three registrations,
  where SPEC.md promises exactly one per thread and route.
\<close>

lemma get_worker_alternation_registers_again:
  assumes "a \<noteq> b" and "tls_key tls \<noteq> a"
    and "get_worker cd a tls db = (w1, tls1, db1)"
    and "get_worker cd b tls1 db1 = (w2, tls2, db2)"
    and "get_worker cd a tls2 db2 = (w3, tls3, db3)"
  shows "(w1, db1) = cd_register_worker cd db a \<and> (w2, db2) = cd_register_worker cd db1 b \<and>
    (w3, db3) = cd_register_worker cd db2 a"
proof -
  have "tls_key tls1 = a" and "tls_key tls2 = b"
    using get_worker_cached [OF assms(3)] get_worker_cached [OF assms(4)] by simp_all
  then show ?thesis using assms by (auto simp: get_worker_miss)
qed

text \<open>
  \<open>get_record_from_route\<close> never panics: started with a cache that has a worker whenever it has
  a key, on a real (non-null) route, none of its \<open>unwrap\<close> calls fails, and it leaves the cache in
  that condition.
\<close>

lemma get_record_from_route_no_panic:
  assumes "tls_wf (th_tls th)" and "route \<noteq> 0"
  shows "\<exists>x th'. get_record_from_route cd route i th = Inr (x :: ('e::len) word signed_record option, th') \<and>
    tls_wf (th_tls th')"
  using assms
proof (cases rule: get_record_from_route_cases [where cd = cd and i = i and ?'e = 'e])
  case (unresolved th')
  with get_record_from_route_wf [OF _ assms(1)] show ?thesis by blast
next
  case (pinned w cp ce ct th')
  then show ?thesis
    using get_record_from_route_wf [OF _ assms(1)] by (metis surj_pair)
qed

text \<open>
  C36: When \<open>get_record_from_route\<close> returns a record, every pin it took on a worker has been given
  back: for each worker the number of open pins is what it was before the call.
\<close>

theorem get_record_from_route_found_unpins:
  assumes "tls_wf (th_tls th)" and "route \<noteq> 0"
    and "get_record_from_route cd route i th = Inr (Some (r :: ('e::len) word signed_record), th')"
  shows "pin_depth w (th_pins th') = pin_depth w (th_pins th)"
  using assms(1,2)
proof (cases rule: get_record_from_route_cases [where cd = cd and i = i and ?'e = 'e])
  case (unresolved th'')
  with assms(3) show ?thesis by simp
next
  case (pinned w' cp ce ct th'')
  then have "pinned_read cd route i w' cp ce ct th'' = (Some r, th')" using assms(3) by simp
  with pinned_read_pins [OF this, of w] pinned(2) show ?thesis by simp
qed

theorem get_record_from_route_found_unpins_witness:
  "\<exists>(r :: 64 word signed_record) th'. get_record_from_route (mem_columns 4) 2 7 mem_thread = Inr (Some r, th') \<and>
     payload r = [3] \<and> pin_depth 0 (th_pins th') = pin_depth 0 (th_pins mem_thread)"
proof -
  have wf: "tls_wf (th_tls mem_thread)" by (simp add: mem_thread_def)
  obtain r :: "64 word signed_record" and th' where
    get: "get_record_from_route (mem_columns 4) 2 7 mem_thread = Inr (Some r, th')" and "payload r = [3]"
    by (simp add: get_record_from_route_def read_resolved_def ensure_route_def ensure_payload_def ensure_epoch_def ensure_type_def
        fetch_column_def pinned_read_def read_columns_def pin_call_def mem_thread_def mem_columns_simps
        mem_empty_def tls_init_def tls_switch_def Let_def)
  from get_record_from_route_found_unpins [OF wf _ get, of 0] get \<open>payload r = [3]\<close> show ?thesis by auto
qed

text \<open>
  C37: The \<open>?\<close> operators inside the pinned section return without \<open>w.leave()\<close>: when the entity is
  known to the route but one of its attributes or column elements is missing, the call answers
  \<open>None\<close> and leaves one more open pin on the thread's worker than it found.
\<close>

theorem get_record_from_route_missing_attribute_leaks_pin:
  assumes "tls_key (th_tls th) = route" and "tls_worker (th_tls th) = Some w"
    and "col_payload (th_tls th) = Some cp" and "col_epoch (th_tls th) = Some ce"
    and "col_type (th_tls th) = Some ct"
    and "cd_shared_pointer cd (th_db th) route i = Some p"
    and "read_columns cd (cd_track_hit cd (th_db th) route i) cp ce ct p = (None :: ('e::len) word signed_record option)"
  shows "\<exists>th'. get_record_from_route cd route i th = Inr (None :: 'e word signed_record option, th') \<and>
    pin_depth w (th_pins th') = pin_depth w (th_pins th) + 1"
  using assms
  by (simp add: get_record_from_route_def ensure_route_def ensure_payload_def ensure_epoch_def
      ensure_type_def read_resolved_def pinned_read_def Let_def)

definition bare_entity_columns :: "(mem_db, (usize \<times> row) list) cddb_columns" where
  "bare_entity_columns = (mem_columns 4)\<lparr>cd_shared_pointer := (\<lambda>db rt i. Some [''epoch'' \<mapsto> i])\<rparr>"

definition warm_thread :: "mem_db thread_state" where
  "warm_thread = mem_thread\<lparr>th_tls :=
     \<lparr>tls_key = 2, tls_worker = Some 5, col_payload = Some 10, col_epoch = Some 11, col_type = Some 12\<rparr>\<rparr>"

theorem get_record_from_route_missing_attribute_leaks_pin_witness:
  "\<exists>th'. get_record_from_route bare_entity_columns 2 7 warm_thread = Inr (None :: 64 word signed_record option, th') \<and>
     pin_depth 5 (th_pins th') = 1"
proof -
  have "read_columns bare_entity_columns (cd_track_hit bare_entity_columns (th_db warm_thread) 2 7) 10 11 12
      [''epoch'' \<mapsto> 7] = (None :: 64 word signed_record option)"
    by (simp add: read_columns_def)
  moreover have "cd_shared_pointer bare_entity_columns (th_db warm_thread) 2 7 = Some [''epoch'' \<mapsto> 7]"
    by (simp add: bare_entity_columns_def)
  ultimately show ?thesis
    using get_record_from_route_missing_attribute_leaks_pin [where th = warm_thread and route = 2 and w = 5
        and cp = 10 and ce = 11 and ct = 12 and cd = bare_entity_columns and i = 7 and ?'e = 64]
    by (simp add: warm_thread_def mem_thread_def pin_depth_def)
qed

end
