(* ===== verification/Tiered_Store.thy ===== *)
theory Tiered_Store
  imports State_Store Worker_Cache
begin

text \<open>
  \<open>TieredStore\<close> (src/src/storage.rs): the hot index in front of a persistent cdDB partition. A
  write updates the index and hands an \<open>InsertFast\<close> to the database queue; a read that misses the
  index goes through the thread's worker and a query session. The store's state also carries
  the database and the calling thread's worker cache. It interprets \<open>cached_store\<close>, whatever
  the database does; the theorems about cold reads and \<open>get_by_epoch\<close> assume \<open>cddb_laws\<close>.
\<close>

section \<open>The store\<close>

record ('db, 'w) tiered_store =
  ts_writer :: arc
  ts_route :: arc
  ts_hot_index :: "'w cached_record global_hot_index"
  ts_db :: 'db
  ts_tls :: tls_worker_cache

definition tiered_new ::
  "('db, 'qs) cddb \<Rightarrow> hash32 \<Rightarrow> usize \<Rightarrow> 'db \<Rightarrow> tls_worker_cache \<Rightarrow> string \<Rightarrow> string option \<Rightarrow>
   ('db, 'e::len word) tiered_store res" where
  "tiered_new cd namespace ram_mb db tls part wal_path =
     (case cd_register_partition_with_wal cd db part wal_path of
        (writer, db') \<Rightarrow>
          bind_res (unwrap (cd_get_route cd db' part)) (\<lambda>route.
          bind_res (hot_index_new 262144) (\<lambda>idx.
            Inr \<lparr>ts_writer = writer, ts_route = route, ts_hot_index = idx, ts_db = db', ts_tls = tls\<rparr>)))"

text \<open>The part of \<open>get_record\<close> below the hot index: a session read, defaulting missing columns.\<close>

definition cold_read ::
  "('db, 'qs) cddb \<Rightarrow> 'qs \<Rightarrow> usize \<Rightarrow> ('e::len) word signed_record option" where
  "cold_read cd s i =
     (case cd_get_blob cd s i ''payload'' of
        None \<Rightarrow> None
      | Some p \<Rightarrow>
          Some \<lparr>epoch_id = ucast (case cd_get_int cd s i ''epoch'' of None \<Rightarrow> 0 | Some e \<Rightarrow> e),
                payload = p, judge_signature = array_splat 0,
                record_type = (case cd_get_int cd s i ''type'' of None \<Rightarrow> 0 | Some t \<Rightarrow> t)\<rparr>)"

definition tiered_get_record ::
  "('db, 'qs) cddb \<Rightarrow> (bytes \<Rightarrow> u64) \<Rightarrow> ('db, 'e::len word) tiered_store \<Rightarrow> hash32 \<Rightarrow> db_metrics \<Rightarrow>
   ('e word signed_record option \<times> ('db, 'e word) tiered_store \<times> db_metrics) res" where
  "tiered_get_record cd ahash st h m =
     (let i = entity_id ahash h in
      bind_res (hot_index_get (ts_hot_index st) i) (\<lambda>cached.
      case cached of
        Some c \<Rightarrow> Inr (Some (record_of c), st, inc_cache_hits m)
      | None \<Rightarrow>
          (let m' = inc_cache_misses m;
               (w, tls, db) = get_worker cd (ts_route st) (ts_tls st) (ts_db st);
               s = cd_query_session cd db (ts_route st) w
           in Inr (cold_read cd s i, st\<lparr>ts_tls := tls, ts_db := db\<rparr>, m'))))"

definition tiered_apply_signed_record ::
  "('db, 'qs) cddb \<Rightarrow> (bytes \<Rightarrow> hash32) \<Rightarrow> (bytes \<Rightarrow> u64) \<Rightarrow>
   ('db, 'e::len word) tiered_store \<Rightarrow> 'e word signed_record \<Rightarrow> ('db, 'e word) tiered_store res" where
  "tiered_apply_signed_record cd sha256 ahash st r =
     bind_res (content_hash sha256 (payload r)) (\<lambda>h.
     let i = entity_id ahash h in
     bind_res (hot_index_set (ts_hot_index st) i (cache_of r)) (\<lambda>idx.
     let (sent, db) = cd_try_send cd (ts_db st) (ts_writer st)
                        (InsertFast i (ucast (epoch_id r)) (record_type r) (payload r))
     in Inr (st\<lparr>ts_hot_index := idx, ts_db := db\<rparr>)))"

text \<open>The loop of \<open>get_by_epoch\<close> over \<open>entities_iter()\<close>, pushing onto \<open>records\<close>.\<close>

fun by_epoch_loop ::
  "('db, 'qs) cddb \<Rightarrow> 'qs \<Rightarrow> ('e::len) word \<Rightarrow> usize list \<Rightarrow> 'e word signed_record list \<Rightarrow> 'e word signed_record list"
  where
  "by_epoch_loop cd s eid [] records = records"
| "by_epoch_loop cd s eid (i # ids) records =
     by_epoch_loop cd s eid ids
       (case cd_get_int cd s i ''epoch'' of
          None \<Rightarrow> records
        | Some e \<Rightarrow>
            if ucast e = eid
            then (case cd_get_blob cd s i ''payload'' of
                    None \<Rightarrow> records
                  | Some p \<Rightarrow> records @
                      [\<lparr>epoch_id = eid, payload = p, judge_signature = array_splat 0,
                        record_type = (case cd_get_int cd s i ''type'' of None \<Rightarrow> 0 | Some t \<Rightarrow> t)\<rparr>])
            else records)"

definition tiered_get_by_epoch ::
  "('db, 'qs) cddb \<Rightarrow> ('db, 'e::len word) tiered_store \<Rightarrow> 'e word \<Rightarrow>
   'e word signed_record list \<times> ('db, 'e word) tiered_store" where
  "tiered_get_by_epoch cd st eid =
     (let (w, tls, db) = get_worker cd (ts_route st) (ts_tls st) (ts_db st);
          s = cd_query_session cd db (ts_route st) w
      in (by_epoch_loop cd s eid (cd_entities_iter cd s) [], st\<lparr>ts_tls := tls, ts_db := db\<rparr>))"

definition tiered_prune ::
  "('db, 'e::len word) tiered_store \<Rightarrow> 'e word \<Rightarrow> u64 \<Rightarrow> ('db, 'e word) tiered_store" where
  "tiered_prune st e k = st"

text \<open>
  \<open>flush\<close> only sleeps, to let the database's own background work run: \<open>background\<close> is what the
  database does meanwhile.
\<close>

definition tiered_flush ::
  "('db \<Rightarrow> 'db) \<Rightarrow> ('db, 'e::len word) tiered_store \<Rightarrow> ('db, 'e word) tiered_store" where
  "tiered_flush background st = st\<lparr>ts_db := background (ts_db st)\<rparr>"

definition tiered_ops ::
  "('db, 'qs) cddb \<Rightarrow> (bytes \<Rightarrow> hash32) \<Rightarrow> (bytes \<Rightarrow> u64) \<Rightarrow> ('db \<Rightarrow> 'db) \<Rightarrow>
   (('db, 'e::len word) tiered_store, 'e word) state_store" where
  "tiered_ops cd sha256 ahash background =
     \<lparr>ss_get_record = tiered_get_record cd ahash,
      ss_apply_signed_record = tiered_apply_signed_record cd sha256 ahash,
      ss_get_by_epoch = tiered_get_by_epoch cd, ss_prune = tiered_prune,
      ss_flush = tiered_flush background\<rparr>"

section \<open>The cache contract\<close>

definition tiered_wf :: "('db, 'e::len word) tiered_store \<Rightarrow> bool" where
  "tiered_wf st \<longleftrightarrow> index_wf (ts_hot_index st) \<and> tls_wf (ts_tls st)"

definition tiered_peek :: "('db, 'e::len word) tiered_store \<Rightarrow> nat \<Rightarrow> 'e word signed_record option" where
  "tiered_peek st = peek_index (ts_hot_index st)"

lemma tiered_get_hit:
  assumes "tiered_wf st" and "tiered_peek st (key_slot ahash h) = Some r"
  shows "tiered_get_record cd ahash st h m = Inr (Some r, st, inc_cache_hits m)"
  using assms
  by (auto simp: tiered_get_record_def tiered_wf_def tiered_peek_def hot_get_store peek_index_slot)

lemma tiered_get_miss:
  assumes "tiered_wf st" and "tiered_peek st (key_slot ahash h) = None"
    and "get_worker cd (ts_route st) (ts_tls st) (ts_db st) = (w, tls, db)"
  shows "tiered_get_record cd ahash st h m =
    Inr (cold_read cd (cd_query_session cd db (ts_route st) w) (entity_id ahash h),
         st\<lparr>ts_tls := tls, ts_db := db\<rparr>, inc_cache_misses m)"
  using assms
  by (auto simp: tiered_get_record_def tiered_wf_def tiered_peek_def hot_get_store peek_index_slot)

lemma tiered_get_frame:
  assumes "tiered_wf st"
  shows "\<exists>x st' m'. tiered_get_record cd ahash st h m = Inr (x, st', m') \<and> tiered_wf st' \<and>
    ts_hot_index st' = ts_hot_index st"
proof (cases "tiered_peek st (key_slot ahash h)")
  case None
  obtain w tls db where g: "get_worker cd (ts_route st) (ts_tls st) (ts_db st) = (w, tls, db)"
    by (cases "get_worker cd (ts_route st) (ts_tls st) (ts_db st)")
  then have "tls_wf tls" using assms get_worker_wf by (auto simp: tiered_wf_def)
  then show ?thesis
    using tiered_get_miss [OF assms None g] assms by (simp add: tiered_wf_def)
next
  case (Some r)
  then show ?thesis using tiered_get_hit [OF assms Some, of cd m] assms by simp
qed

lemma tiered_apply_eq:
  assumes "tiered_wf st"
    and "cd_try_send cd (ts_db st) (ts_writer st)
      (InsertFast (entity_id ahash (key_of sha256 (payload r))) (ucast (epoch_id r)) (record_type r)
        (payload r)) = (sent, db)"
  shows "\<exists>st'. tiered_apply_signed_record cd sha256 ahash st r = Inr st' \<and> tiered_wf st' \<and>
    tiered_peek st' = (tiered_peek st)(key_slot ahash (key_of sha256 (payload r)) \<mapsto> r) \<and>
    ts_db st' = db \<and> ts_tls st' = ts_tls st \<and> ts_route st' = ts_route st \<and> ts_writer st' = ts_writer st"
  using assms
  by (simp add: tiered_apply_signed_record_def tiered_wf_def tiered_peek_def hot_set_store
      peek_index_set Let_def)

lemma tiered_apply_total:
  assumes "tiered_wf st"
  shows "\<exists>st'. tiered_apply_signed_record cd sha256 ahash st r = Inr st' \<and> tiered_wf st' \<and>
    tiered_peek st' = (tiered_peek st)(key_slot ahash (key_of sha256 (payload r)) \<mapsto> r)"
  using tiered_apply_eq [OF assms surjective_pairing] by blast

lemma tiered_by_epoch_frame:
  "tiered_wf st \<Longrightarrow> tiered_wf (snd (tiered_get_by_epoch cd st e)) \<and>
   ts_hot_index (snd (tiered_get_by_epoch cd st e)) = ts_hot_index st"
  by (auto simp: tiered_get_by_epoch_def tiered_wf_def Let_def split: prod.splits
      intro: get_worker_wf)

interpretation tiered: cached_store "tiered_ops cd sha256 ahash background" tiered_wf sha256
    "key_slot ahash" tiered_peek
  for cd :: "('db, 'qs) cddb" and sha256 ahash background
proof
  let ?ops = "tiered_ops cd sha256 ahash background"
  fix st :: "('db, 'e::len word) tiered_store" and h m r x st' m' e k
  assume wf: "tiered_wf st"
  show "\<exists>x st' m'. ss_get_record ?ops st h m = Inr (x, st', m') \<and> tiered_wf st'"
    using tiered_get_frame [OF wf, of cd ahash h m] by (auto simp: tiered_ops_def)
  show "\<exists>st'. ss_apply_signed_record ?ops st r = Inr st' \<and> tiered_wf st'"
    using tiered_apply_total [OF wf, of cd sha256 ahash r] by (auto simp: tiered_ops_def)
  show "tiered_wf (snd (ss_get_by_epoch ?ops st e))"
    and "tiered_peek (snd (ss_get_by_epoch ?ops st e)) = tiered_peek st"
    using tiered_by_epoch_frame [OF wf, of cd e] by (simp_all add: tiered_ops_def tiered_peek_def)
  show "tiered_wf (ss_prune ?ops st e k)" and "tiered_wf (ss_flush ?ops st)"
    and "tiered_peek (ss_prune ?ops st e k) = tiered_peek st"
    and "tiered_peek (ss_flush ?ops st) = tiered_peek st"
    using wf by (simp_all add: tiered_ops_def tiered_prune_def tiered_flush_def tiered_wf_def tiered_peek_def)
  show "tiered_peek st' = (tiered_peek st)(key_slot ahash (key_of sha256 (payload r)) \<mapsto> r)"
    if "ss_apply_signed_record ?ops st r = Inr st'"
    using tiered_apply_total [OF wf, of cd sha256 ahash r] that by (auto simp: tiered_ops_def)
  assume get: "ss_get_record ?ops st h m = Inr (x, st', m')"
  then show "tiered_peek st' = tiered_peek st"
    using tiered_get_frame [OF wf, of cd ahash h m] by (auto simp: tiered_ops_def tiered_peek_def)
  show "x = Some r" if "tiered_peek st (key_slot ahash h) = Some r"
    using get tiered_get_hit [OF wf that, of cd m] by (simp add: tiered_ops_def)
qed

lemma tiered_new_wf:
  assumes "tiered_new cd ns mb db tls part wal = Inr st" and "tls_wf tls"
  shows "tiered_wf st" and "tiered_peek st = (\<lambda>_. None)"
  using assms
  by (auto simp: tiered_new_def res_simps hot_index_new_store tiered_wf_def index_wf_def
      tiered_peek_def peek_index_def fun_eq_iff split: prod.splits)

section \<open>Cold reads under the laws of the database\<close>

lemma get_worker_rows:
  assumes "cddb_laws cd rows pending drain" and "get_worker cd rt tls db = (w, tls', db')"
  shows "rows db' = rows db" and "pending db' = pending db"
  using get_worker_db [OF assms(2)] register_worker_rows [OF assms(1)] register_worker_pending [OF assms(1)]
  by auto

definition row_record :: "row \<Rightarrow> ('e::len) word signed_record" where
  "row_record rw = (case rw of (e, t, p) \<Rightarrow>
     \<lparr>epoch_id = ucast e, payload = p, judge_signature = array_splat 0, record_type = t\<rparr>)"

lemma cold_read_rows:
  assumes "cddb_laws cd rows pending drain"
  shows "cold_read cd (cd_query_session cd db rt w) i = map_option row_record (rows db i)"
  by (auto simp: cold_read_def session_reads [OF assms] row_record_def split: option.splits)

lemma tiered_get_cold:
  assumes "cddb_laws cd rows pending drain" and "tiered_wf st" and "tiered_peek st (key_slot ahash h) = None"
  shows "\<exists>st'. tiered_get_record cd ahash st h m =
    Inr (map_option row_record (rows (ts_db st) (entity_id ahash h)), st', inc_cache_misses m)"
proof -
  obtain w tls db where g: "get_worker cd (ts_route st) (ts_tls st) (ts_db st) = (w, tls, db)"
    by (cases "get_worker cd (ts_route st) (ts_tls st) (ts_db st)")
  show ?thesis
    using tiered_get_miss [OF assms(2,3) g] get_worker_rows [OF assms(1) g]
    by (simp add: cold_read_rows [OF assms(1)])
qed

text \<open>What the command that \<open>apply_signed_record\<close> sends becomes once it is committed.\<close>

definition insert_command :: "(bytes \<Rightarrow> hash32) \<Rightarrow> (bytes \<Rightarrow> u64) \<Rightarrow> ('e::len) word signed_record \<Rightarrow> write_command" where
  "insert_command sha256 ahash r =
     InsertFast (entity_id ahash (key_of sha256 (payload r))) (ucast (epoch_id r)) (record_type r) (payload r)"

lemma tiered_apply_db:
  assumes "tiered_wf st" and "tiered_apply_signed_record cd sha256 ahash st r = Inr st'"
  shows "ts_db st' = snd (cd_try_send cd (ts_db st) (ts_writer st) (insert_command sha256 ahash r))"
  using tiered_apply_eq [OF assms(1), of cd ahash sha256 r] assms(2)
  by (auto simp: insert_command_def split: prod.splits) (metis prod.collapse snd_conv sum.inject(2))

section \<open>get_by_epoch\<close>

lemma by_epoch_loop_rows:
  assumes "cddb_laws cd rows pending drain"
  shows "by_epoch_loop cd (cd_query_session cd db rt w) eid ids records = records @
    map (\<lambda>i. row_record (the (rows db i)))
      (filter (\<lambda>i. case rows db i of None \<Rightarrow> False | Some (e, t, p) \<Rightarrow> ucast e = eid) ids)"
proof (induction ids arbitrary: records)
  case Nil
  then show ?case by simp
next
  case (Cons i ids)
  then show ?case
    by (auto simp: session_reads [OF assms] row_record_def split: option.splits)
qed

lemma by_epoch_exact:
  assumes "cddb_laws cd rows pending drain"
  shows "\<exists>ids. distinct ids \<and>
    set ids = {i. \<exists>e t p. rows (ts_db st) i = Some (e, t, p) \<and> ucast e = eid} \<and>
    fst (tiered_get_by_epoch cd (st :: ('db, 'e::len word) tiered_store) eid) =
      map (\<lambda>i. row_record (the (rows (ts_db st) i))) ids"
proof -
  obtain w tls db where g: "get_worker cd (ts_route st) (ts_tls st) (ts_db st) = (w, tls, db)"
    by (cases "get_worker cd (ts_route st) (ts_tls st) (ts_db st)")
  let ?s = "cd_query_session cd db (ts_route st) w"
  let ?p = "\<lambda>i. case rows db i of None \<Rightarrow> False | Some (e, t, p) \<Rightarrow> ucast e = eid"
  have rows: "rows (ts_db st) = rows db" using get_worker_rows(1) [OF assms g] by simp
  have "fst (tiered_get_by_epoch cd st eid) =
      map (\<lambda>i. row_record (the (rows db i))) (filter ?p (cd_entities_iter cd ?s))"
    by (simp add: tiered_get_by_epoch_def g by_epoch_loop_rows [OF assms])
  moreover have "distinct (filter ?p (cd_entities_iter cd ?s))"
    using session_reads(5) [OF assms] by simp
  moreover have "set (filter ?p (cd_entities_iter cd ?s)) = {i. \<exists>e t p. rows db i = Some (e, t, p) \<and> ucast e = eid}"
    using session_reads(4) [OF assms, of db "ts_route st" w] by (auto split: option.splits)
  ultimately show ?thesis unfolding rows by blast
qed

section \<open>Properties\<close>

definition sample_tiered :: "mem_db \<Rightarrow> (mem_db, 64 word) tiered_store" where
  "sample_tiered db = \<lparr>ts_writer = 1, ts_route = 2,
     ts_hot_index = \<lparr>table = replicate 262144 None, idx_mask = 262143\<rparr>, ts_db = db, ts_tls = tls_init\<rparr>"

lemma sample_tiered_wf [simp]: "tiered_wf (sample_tiered db)"
  and sample_tiered_peek [simp]: "tiered_peek (sample_tiered db) s = None"
  and sample_tiered_db [simp]: "ts_db (sample_tiered db) = db"
  and sample_tiered_writer [simp]: "ts_writer (sample_tiered db) = 1"
  by (simp_all add: sample_tiered_def tiered_wf_def index_wf_def tiered_peek_def peek_index_def)

text \<open>
  C21: Read your writes on the tiered store, whatever the database does: from any state that trait
  calls can reach after \<open>TieredStore::new\<close>, applying records succeeds, and a read whose slot was
  hit returns the last record applied to that slot, counts one cache hit and no miss, and does
  not touch the database.
\<close>

theorem tiered_last_apply_wins:
  assumes "tiered_new cd ns mb db tls part wal = Inr (st :: ('db, 'e::len word) tiered_store)" and "tls_wf tls"
    and "(store_step (tiered_ops cd sha256 ahash background))\<^sup>*\<^sup>* st st1"
    and "last_option (filter (\<lambda>r. key_slot ahash (key_of sha256 (payload r)) = key_slot ahash h) rs) = Some r"
  shows "\<exists>st2. apply_signed_records (tiered_ops cd sha256 ahash background) st1 rs = Inr st2 \<and>
    tiered_get_record cd ahash st2 h m = Inr (Some r, st2, m\<lparr>cache_hits := cache_hits m + 1\<rparr>)"
proof -
  have "tiered_wf st1"
    using tiered.steps_wf [OF assms(3)] tiered_new_wf [OF assms(1,2)] by blast
  from tiered.apply_all_peek [OF this, of cd sha256 ahash background rs] obtain st2 where st2:
    "apply_signed_records (tiered_ops cd sha256 ahash background) st1 rs = Inr st2" "tiered_wf st2"
    "tiered_peek st2 (key_slot ahash h) = Some r"
    using assms(4) by fastforce
  with tiered_get_hit [OF st2(2,3)] show ?thesis by (simp add: inc_cache_hits_def)
qed

theorem tiered_last_apply_wins_witness:
  "\<exists>st2. apply_signed_records (tiered_ops (mem_cddb 4) sample_sha sample_ahash mem_drain)
       (sample_tiered mem_empty) [sample_record 9, sample_record 1] = Inr st2 \<and>
     tiered_get_record (mem_cddb 4) sample_ahash st2 (sample_sha [1, 2, 3]) no_metrics =
       Inr (Some (sample_record 1), st2, no_metrics\<lparr>cache_hits := 1\<rparr>)"
proof -
  have new: "tiered_new (mem_cddb 4) (array_splat 0) 512 mem_empty tls_init ''node'' None = Inr (sample_tiered mem_empty)"
    by (simp add: tiered_new_def mem_cddb_def hot_index_new_store sample_tiered_def)
  have "key_of sample_sha (payload (sample_record 1)) = sample_sha [1, 2, 3]"
    by (simp add: sample_record_def key_of_def)
  then have "last_option (filter (\<lambda>r. key_slot sample_ahash (key_of sample_sha (payload r)) =
      key_slot sample_ahash (sample_sha [1, 2, 3])) [sample_record 9, sample_record 1]) = Some (sample_record 1)"
    by (simp add: last_option_def)
  from tiered_last_apply_wins [OF new tls_wf_init rtranclp.rtrancl_refl this, of mem_drain no_metrics]
  show ?thesis by (simp add: no_metrics_def)
qed

text \<open>
  The store seen past its index: a thread of the same process, with nothing in the index and no worker yet, once the database
  has committed its queue. A read of it shows what the database has for a key. It is not a restart: the next process draws new
  keys for \<open>AHasher\<close>, see \<open>Durability\<close>.
\<close>

definition cold_view :: "('db \<Rightarrow> 'db) \<Rightarrow> ('db, 'e::len word) tiered_store \<Rightarrow> ('db, 'e word) tiered_store" where
  "cold_view drain st = st\<lparr>ts_hot_index := \<lparr>table = replicate 262144 None, idx_mask = 262143\<rparr>,
     ts_db := drain (ts_db st), ts_tls := tls_init\<rparr>"

lemma cold_view_simps [simp]:
  "tiered_wf (cold_view drain st)" "tiered_peek (cold_view drain st) s = None"
  "ts_db (cold_view drain st) = drain (ts_db st)"
  by (simp_all add: cold_view_def tiered_wf_def index_wf_def tiered_peek_def peek_index_def)

lemma tiered_get_cold_view:
  assumes "cddb_laws cd rows pending drain"
  shows "\<exists>st'. tiered_get_record cd ahash (cold_view drain st) h m =
    Inr (map_option row_record (rows (drain (ts_db st)) (entity_id ahash h)), st', inc_cache_misses m)"
  using tiered_get_cold [OF assms, of "cold_view drain st"] by simp

text \<open>
  What the database keeps: when it accepted the write of a record and has committed
  its queue, a read past the index returns the record for its content hash, with the same payload and type, but with the epoch cut to 32 bits and the
  judge signature zeroed; the read counts one cache miss.
\<close>

lemma tiered_cold_read_after_commit:
  assumes "cddb_laws cd rows pending drain"
    and "tiered_wf (st :: ('db, 'e::len word) tiered_store)"
    and "tiered_apply_signed_record cd sha256 ahash st r = Inr st1"
    and "fst (cd_try_send cd (ts_db st) (ts_writer st) (insert_command sha256 ahash r))"
  shows "\<exists>st3. tiered_get_record cd ahash (cold_view drain st1) (key_of sha256 (payload r)) m =
    Inr (Some (r\<lparr>epoch_id := ucast (ucast (epoch_id r) :: u32), judge_signature := array_splat 0\<rparr>),
         st3, m\<lparr>cache_misses := cache_misses m + 1\<rparr>)"
proof -
  let ?c = "insert_command sha256 ahash r"
  have "pending (ts_db st1) = pending (ts_db st) @ [?c]"
    using try_send_rows(2) [OF assms(1) prod.collapse [symmetric], of "ts_db st" "ts_writer st" ?c]
      tiered_apply_db [OF assms(2,3)] assms(4) by simp
  then have "rows (drain (ts_db st1)) (cmd_entity_id ?c) = Some (cmd_epoch ?c, cmd_record_type ?c, cmd_payload ?c)"
    using drain_rows [OF assms(1), of "ts_db st1"] fold_commit_snoc [of "pending (ts_db st)" ?c]
    by simp
  then have "rows (drain (ts_db st1)) (entity_id ahash (key_of sha256 (payload r))) =
      Some (ucast (epoch_id r), record_type r, payload r)"
    by (simp add: insert_command_def)
  moreover have "row_record (ucast (epoch_id r), record_type r, payload r) =
      r\<lparr>epoch_id := ucast (ucast (epoch_id r) :: u32), judge_signature := array_splat 0\<rparr>"
    by (cases r) (simp add: row_record_def)
  ultimately show ?thesis
    using tiered_get_cold_view [OF assms(1), of ahash st1 "key_of sha256 (payload r)" m] by (simp add: inc_cache_misses_def)
qed

text \<open>
  C27: \<open>apply_signed_record\<close> ignores what \<open>try_send\<close> returns. When the database refuses the write
  (its queue is full), the call still succeeds and reads through the index still show the
  record, but the database never gets it: once its queue is committed, a read that does not find
  the record in the index finds nothing. A write that was reported as done is lost.
\<close>

theorem tiered_refused_write_is_lost:
  assumes "cddb_laws cd rows pending drain"
    and "tiered_wf (st :: ('db, 'e::len word) tiered_store)"
    and "\<not> fst (cd_try_send cd (ts_db st) (ts_writer st) (insert_command sha256 ahash r))"
    and "rows (ts_db st) (entity_id ahash (key_of sha256 (payload r))) = None"
    and "entity_id ahash (key_of sha256 (payload r)) \<notin> cmd_entity_id ` set (pending (ts_db st))"
  shows "\<exists>st1. tiered_apply_signed_record cd sha256 ahash st r = Inr st1 \<and>
    (\<exists>st1'. tiered_get_record cd ahash st1 (key_of sha256 (payload r)) m = Inr (Some r, st1', inc_cache_hits m)) \<and>
    (\<exists>st3. tiered_get_record cd ahash (cold_view drain st1) (key_of sha256 (payload r)) m =
       Inr (None, st3, inc_cache_misses m))"
proof -
  let ?c = "insert_command sha256 ahash r" and ?h = "key_of sha256 (payload r)"
  obtain st1 where st1: "tiered_apply_signed_record cd sha256 ahash st r = Inr st1" "tiered_wf st1"
    "tiered_peek st1 = (tiered_peek st)(key_slot ahash ?h \<mapsto> r)"
    using tiered_apply_total [OF assms(2)] by blast
  have "rows (ts_db st1) = rows (ts_db st)" and "pending (ts_db st1) = pending (ts_db st)"
    using try_send_rows [OF assms(1) prod.collapse [symmetric], of "ts_db st" "ts_writer st" ?c]
      tiered_apply_db [OF assms(2) st1(1)] assms(3) by simp_all
  then have "rows (drain (ts_db st1)) (entity_id ahash ?h) =
      fold commit (pending (ts_db st)) (rows (ts_db st)) (entity_id ahash ?h)"
    using drain_rows [OF assms(1), of "ts_db st1"] by simp
  also have "\<dots> = None"
  proof -
    have "filter (\<lambda>c. cmd_entity_id c = entity_id ahash ?h) (pending (ts_db st)) = []"
      using assms(5) by (force simp: filter_empty_conv)
    then show ?thesis using assms(4) fold_commit [of "pending (ts_db st)"] by simp
  qed
  finally have lost: "rows (drain (ts_db st1)) (entity_id ahash ?h) = None" .
  have "tiered_peek st1 (key_slot ahash ?h) = Some r" by (simp add: st1(3))
  then have "tiered_get_record cd ahash st1 ?h m = Inr (Some r, st1, inc_cache_hits m)"
    by (rule tiered_get_hit [OF st1(2)])
  moreover have "\<exists>st3. tiered_get_record cd ahash (cold_view drain st1) ?h m = Inr (None, st3, inc_cache_misses m)"
    using tiered_get_cold_view [OF assms(1), of ahash st1 ?h m] lost by simp
  ultimately show ?thesis using st1(1) by blast
qed

theorem tiered_refused_write_is_lost_witness:
  "\<exists>st1 st3. tiered_apply_signed_record (mem_cddb 0) sample_sha sample_ahash (sample_tiered mem_empty) (sample_record 1) = Inr st1 \<and>
     tiered_get_record (mem_cddb 0) sample_ahash (cold_view mem_drain st1)
       (key_of sample_sha (payload (sample_record 1))) no_metrics = Inr (None, st3, inc_cache_misses no_metrics)"
proof -
  have refused: "\<not> fst (cd_try_send (mem_cddb 0) (ts_db (sample_tiered mem_empty)) (ts_writer (sample_tiered mem_empty))
      (insert_command sample_sha sample_ahash (sample_record 1)))"
    by (simp add: mem_cddb_def)
  have none: "mem_rows_of (ts_db (sample_tiered mem_empty)) (entity_id sample_ahash (key_of sample_sha (payload (sample_record 1)))) = None"
    and fresh: "entity_id sample_ahash (key_of sample_sha (payload (sample_record 1))) \<notin>
      cmd_entity_id ` set (mem_queue (ts_db (sample_tiered mem_empty)))"
    by (simp_all add: mem_empty_def)
  from tiered_refused_write_is_lost [OF mem_cddb_laws sample_tiered_wf refused none fresh, of no_metrics]
  show ?thesis by blast
qed

text \<open>
  C28: \<open>get_by_epoch\<close> returns one record for every committed entity of that epoch and nothing else:
  its result lists, in some order and without repetition, the committed rows whose 32-bit epoch
  equals the requested one.
\<close>

theorem tiered_get_by_epoch_exact:
  assumes "cddb_laws cd rows pending drain"
  shows "\<exists>ids. distinct ids \<and>
    set ids = {i. \<exists>e t p. rows (ts_db st) i = Some (e, t, p) \<and> ucast e = eid} \<and>
    fst (tiered_get_by_epoch cd (st :: ('db, 'e::len word) tiered_store) eid) =
      map (\<lambda>i. row_record (the (rows (ts_db st) i))) ids"
  using assms by (rule by_epoch_exact)

theorem tiered_get_by_epoch_exact_witness:
  "\<exists>ids. distinct ids \<and> set ids = {7 :: usize} \<and>
     fst (tiered_get_by_epoch (mem_cddb 4) (sample_tiered (mem_empty\<lparr>mem_rows := [(7, (42, 10, [1])), (8, (43, 10, [2]))]\<rparr>)) 42) =
       map (\<lambda>i. \<lparr>epoch_id = 42, payload = [1], judge_signature = array_splat 0, record_type = 10\<rparr>) ids"
proof -
  let ?db = "mem_empty\<lparr>mem_rows := [(7, (42, 10, [1])), (8, (43, 10, [2]))]\<rparr>"
  have "{i. \<exists>e t p. mem_rows_of ?db i = Some (e, t, p) \<and> ucast e = (42 :: 64 word)} = {7}"
    by (auto split: if_splits)
  with tiered_get_by_epoch_exact [OF mem_cddb_laws, of "sample_tiered ?db" 42 4] show ?thesis
    by (fastforce simp: row_record_def cong: map_cong)
qed

text \<open>
  C29: The database column holds only 32 bits of the epoch, so an epoch id of \<open>2 ^ 32\<close> or more is
  never found: \<open>get_by_epoch\<close> returns nothing for it, whatever was applied before.
\<close>

theorem tiered_get_by_epoch_misses_large_epochs:
  assumes "2 ^ 32 \<le> unat (eid :: ('e::len) word)"
  shows "fst (tiered_get_by_epoch cd st eid) = []"
proof -
  have "ucast (e :: u32) \<noteq> eid" for e
  proof
    assume "ucast e = eid"
    then have "unat eid \<le> unat e" by (auto simp: unsigned_ucast_eq take_bit_nat_less_eq_self)
    moreover have "unat e < 2 ^ 32" by (rule order_less_le_trans [OF unsigned_less]) simp
    ultimately show False using assms by simp
  qed
  then have "by_epoch_loop cd s eid ids records = records" for s ids records
    by (induction ids arbitrary: records) (auto split: option.splits)
  then show ?thesis by (simp add: tiered_get_by_epoch_def split: prod.splits)
qed

theorem tiered_get_by_epoch_misses_large_epochs_witness:
  "fst (tiered_get_by_epoch (mem_cddb 4)
     (sample_tiered (mem_empty\<lparr>mem_rows := [(7, (42, 10, [1]))]\<rparr>)) (2 ^ 32 + 42)) = []"
  by (rule tiered_get_by_epoch_misses_large_epochs) simp

end
