(* ===== verification/Rust_Std.thy ===== *)
theory Rust_Std
  imports Prelude
begin

text \<open>
  The parts of the Rust standard library that the server calls on strings and socket
  addresses. A Rust \<open>String\<close> is its UTF-8 byte sequence, so it is a \<open>string\<close> here
  (Isabelle's \<open>char\<close> is a byte). The server only ever compares with ASCII text and tests
  for ASCII hex digits; no byte of a multi-byte UTF-8 character is ASCII, so working byte by
  byte selects the same text as Rust's working character by character.
\<close>

section \<open>Strings\<close>

definition as_bytes :: "string \<Rightarrow> bytes" where
  "as_bytes s = map (\<lambda>c. of_nat (of_char c)) s"

definition starts_with :: "'a list \<Rightarrow> 'a list \<Rightarrow> bool" where
  "starts_with s p \<longleftrightarrow> take (length p) s = p"

definition strip_prefix :: "'a list \<Rightarrow> 'a list \<Rightarrow> 'a list option" where
  "strip_prefix s p = (if starts_with s p then Some (drop (length p) s) else None)"

definition to_ascii_lowercase :: "char \<Rightarrow> char" where
  "to_ascii_lowercase c =
     (let n = of_char c :: nat in if 65 \<le> n \<and> n \<le> 90 then char_of (n + 32) else c)"

definition eq_ignore_ascii_case :: "string \<Rightarrow> string \<Rightarrow> bool" where
  "eq_ignore_ascii_case a b \<longleftrightarrow> map to_ascii_lowercase a = map to_ascii_lowercase b"

lemma starts_with_append [simp]: "starts_with (p @ s) p"
  by (simp add: starts_with_def)

lemma strip_prefix_append [simp]: "strip_prefix (p @ s) p = Some s"
  by (simp add: strip_prefix_def)

lemma starts_withE:
  assumes "starts_with s p" obtains t where "s = p @ t"
  using assms by (metis append_take_drop_id starts_with_def)

lemma starts_with_iff: "starts_with s p \<longleftrightarrow> (\<exists>t. s = p @ t)"
  by (auto elim: starts_withE)

lemma length_as_bytes [simp]: "length (as_bytes s) = length s"
  by (simp add: as_bytes_def)

lemma of_char_u8: "unat (of_nat (of_char c) :: u8) = of_char c"
  by (simp add: unat_of_nat)

lemma as_bytes_inj: "as_bytes a = as_bytes b \<longleftrightarrow> a = b"
proof -
  have "inj (\<lambda>c. of_nat (of_char c) :: u8)"
  proof (rule injI)
    fix c d assume "(of_nat (of_char c) :: u8) = of_nat (of_char d)"
    then have "(of_char c :: nat) = of_char d"
      by (metis of_char_u8)
    then show "c = d" by simp
  qed
  then show ?thesis
    by (simp add: as_bytes_def inj_map_eq_map)
qed

section \<open>Hexadecimal digits\<close>

definition is_ascii_hexdigit :: "char \<Rightarrow> bool" where
  "is_ascii_hexdigit c \<longleftrightarrow>
     (let n = of_char c :: nat
      in (48 \<le> n \<and> n \<le> 57) \<or> (97 \<le> n \<and> n \<le> 102) \<or> (65 \<le> n \<and> n \<le> 70))"

text \<open>\<open>char::to_digit(16)\<close>.\<close>

definition to_digit_16 :: "char \<Rightarrow> nat option" where
  "to_digit_16 c =
     (let n = of_char c :: nat
      in if 48 \<le> n \<and> n \<le> 57 then Some (n - 48)
         else if 97 \<le> n \<and> n \<le> 102 then Some (n - 87)
         else if 65 \<le> n \<and> n \<le> 70 then Some (n - 55)
         else None)"

text \<open>
  \<open>u8::from_str_radix(s, 16)\<close>; \<open>None\<close> stands for its \<open>Err\<close>. The loop uses checked
  arithmetic, so a value above 255 is an error.
\<close>

fun radix_16_loop :: "nat \<Rightarrow> string \<Rightarrow> nat option" where
  "radix_16_loop acc [] = Some acc"
| "radix_16_loop acc (c # cs) =
     (if acc * 16 > 255 then None
      else case to_digit_16 c of
             None \<Rightarrow> None
           | Some d \<Rightarrow> if acc * 16 + d > 255 then None else radix_16_loop (acc * 16 + d) cs)"

definition u8_from_str_radix_16 :: "string \<Rightarrow> u8 option" where
  "u8_from_str_radix_16 s =
     (case s of
        [] \<Rightarrow> None
      | c # cs \<Rightarrow>
          if (c = CHR ''+'' \<or> c = CHR ''-'') \<and> cs = [] then None
          else map_option of_nat (radix_16_loop 0 (if c = CHR ''+'' then cs else s)))"

lemma to_digit_16_hexdigit:
  "is_ascii_hexdigit c \<Longrightarrow> \<exists>d < 16. to_digit_16 c = Some d"
  by (auto simp: is_ascii_hexdigit_def to_digit_16_def Let_def)

lemma hexdigit_not_sign: "is_ascii_hexdigit c \<Longrightarrow> c \<noteq> CHR ''+'' \<and> c \<noteq> CHR ''-''"
  by (auto simp: is_ascii_hexdigit_def)

text \<open>Two hex digits always parse, to the value they denote.\<close>

lemma u8_from_two_hexdigits:
  assumes "to_digit_16 a = Some x" and "to_digit_16 b = Some y"
    and "is_ascii_hexdigit a" and "is_ascii_hexdigit b"
  shows "u8_from_str_radix_16 [a, b] = Some (of_nat (16 * x + y))"
proof -
  have "x < 16" and "y < 16"
    using assms to_digit_16_hexdigit by fastforce+
  then show ?thesis
    using assms hexdigit_not_sign [of a]
    by (simp add: u8_from_str_radix_16_def mult.commute)
qed

section \<open>Decimal formatting\<close>

text \<open>\<open>format!("{}", n)\<close> of an unsigned integer.\<close>

fun decimal :: "nat \<Rightarrow> string" where
  "decimal n = (if n < 10 then [char_of (48 + n)] else decimal (n div 10) @ [char_of (48 + n mod 10)])"

declare decimal.simps [simp del]

definition undecimal :: "string \<Rightarrow> nat" where
  "undecimal s = foldl (\<lambda>acc c. acc * 10 + (of_char c - 48)) 0 s"

lemma undecimal_decimal: "undecimal (decimal n) = n"
proof (induction n rule: decimal.induct)
  case (1 n)
  show ?case
  proof (cases "n < 10")
    case True
    then show ?thesis
      by (simp add: undecimal_def decimal.simps [of n] of_char_of)
  next
    case False
    with 1 have "undecimal (decimal (n div 10)) = n div 10" by simp
    with False show ?thesis
      by (simp add: undecimal_def decimal.simps [of n] of_char_of)
  qed
qed

lemma decimal_inject [simp]: "decimal m = decimal n \<longleftrightarrow> m = n"
  by (metis undecimal_decimal)

section \<open>Socket addresses\<close>

datatype ip_addr = V4 u8 u8 u8 u8 | V6 "(u16, 8) array"

record socket_addr =
  ip :: ip_addr
  port :: u16

text \<open>\<open>IpAddr::is_loopback\<close>: the block 127.0.0.0/8, or the address ::1.\<close>

fun is_loopback :: "ip_addr \<Rightarrow> bool" where
  "is_loopback (V4 a b c d) \<longleftrightarrow> a = 127"
| "is_loopback (V6 s) \<longleftrightarrow> array_to_list s = [0, 0, 0, 0, 0, 0, 0, 1]"

end
