(* ===== verification/L2_Executor.thy ===== *)
theory L2_Executor
  imports Pure_Store Tiered_Store Rust_Std
begin

text \<open>
  \<open>L2Executor\<close> (src/src/storage.rs): the key-value layer on top of any \<open>StateStore\<close>. A \<open>put\<close>
  stores \<open>sha256(key) ++ value\<close> as a record of type 100 and, unless the key starts with
  \<open>stress:\<close>, spawns a broadcast task; a \<open>get\<close> looks the key's hash up and strips the 32-byte
  header. The node (of the crate \<open>io_oi_node\<close>) is its store, the metrics and the list of the
  broadcast tasks that were spawned. The lemmas are proved in the store contracts and reach
  both stores through their interpretations: read your writes, last write to a slot wins, and
  (for stores that invent nothing) refinement of a plain map.
\<close>

section \<open>Node and operations\<close>

record ('st, 'w) node =
  node_storage :: 'st
  node_metrics :: db_metrics
  node_broadcasts :: "'w signed_record list"

text \<open>The value \<open>get\<close> extracts from a record: the payload without its header, or all of it.\<close>

definition record_value :: "('e::len) word signed_record \<Rightarrow> bytes res" where
  "record_value r =
     (if record_type r = 100 \<and> length (payload r) \<ge> 32
      then slice_range (payload r) 32 (length (payload r))
      else Inr (payload r))"

definition l2_get ::
  "(bytes \<Rightarrow> hash32) \<Rightarrow> ('st, 'e::len word) state_store \<Rightarrow> ('st, 'e word) node \<Rightarrow> bytes \<Rightarrow>
   (bytes option \<times> ('st, 'e word) node) res" where
  "l2_get sha256 ops n key =
     (let m = inc_db_gets (node_metrics n);
          key_hash = sha256 key
      in bind_res (ss_get_record ops (node_storage n) key_hash m) (\<lambda>(x, st, m').
         let n' = n\<lparr>node_storage := st, node_metrics := m'\<rparr>
         in case x of
              None \<Rightarrow> Inr (None, n')
            | Some r \<Rightarrow> bind_res (record_value r) (\<lambda>v. Inr (Some v, n'))))"

definition kv_record :: "(bytes \<Rightarrow> hash32) \<Rightarrow> bytes \<Rightarrow> bytes \<Rightarrow> ('e::len) word signed_record" where
  "kv_record sha256 key val =
     \<lparr>epoch_id = 0, payload = array_to_list (sha256 key) @ val,
      judge_signature = array_splat 0, record_type = 100\<rparr>"

definition l2_put ::
  "(bytes \<Rightarrow> hash32) \<Rightarrow> ('st, 'e::len word) state_store \<Rightarrow> ('st, 'e word) node \<Rightarrow> bytes \<Rightarrow> bytes \<Rightarrow>
   ('st, 'e word) node res" where
  "l2_put sha256 ops n key val =
     (let n1 = n\<lparr>node_metrics := inc_db_puts (node_metrics n)\<rparr>;
          r = kv_record sha256 key val
      in bind_res (ss_apply_signed_record ops (node_storage n1) r) (\<lambda>st.
         let n2 = n1\<lparr>node_storage := st\<rparr>
         in Inr (if starts_with key (as_bytes ''stress:'') then n2
                 else n2\<lparr>node_broadcasts := node_broadcasts n2 @ [r]\<rparr>)))"

lemma kv_record_sel [simp]:
  "payload (kv_record sha256 key val) = array_to_list (sha256 key) @ val"
  "record_type (kv_record sha256 key val) = 100"
  "epoch_id (kv_record sha256 key val) = 0"
  "judge_signature (kv_record sha256 key val) = array_splat 0"
  by (simp_all add: kv_record_def)

lemma record_value_kv [simp]: "record_value (kv_record sha256 key val) = Inr val"
proof -
  have "slice_range (array_to_list (sha256 key) @ val) 32 (32 + length val) = Inr val"
    using range_suffix [of 32 "array_to_list (sha256 key) @ val"] by simp
  then show ?thesis by (simp add: record_value_def)
qed

lemma record_value_total: "\<exists>v. record_value r = Inr v"
  by (simp add: record_value_def)

section \<open>Sequences of operations\<close>

datatype kv_op = Get_Op bytes | Put_Op bytes bytes

fun op_key :: "kv_op \<Rightarrow> bytes" where
  "op_key (Get_Op k) = k"
| "op_key (Put_Op k v) = k"

fun put_keys :: "kv_op list \<Rightarrow> bytes list" where
  "put_keys [] = []"
| "put_keys (Get_Op k # os) = put_keys os"
| "put_keys (Put_Op k v # os) = k # put_keys os"

text \<open>Running operations one after the other collects the answers of the reads.\<close>

fun l2_run ::
  "(bytes \<Rightarrow> hash32) \<Rightarrow> ('st, 'e::len word) state_store \<Rightarrow> ('st, 'e word) node \<Rightarrow> kv_op list \<Rightarrow>
   (bytes option list \<times> ('st, 'e word) node) res" where
  "l2_run sha256 ops n [] = Inr ([], n)"
| "l2_run sha256 ops n (Get_Op k # os) =
     bind_res (l2_get sha256 ops n k) (\<lambda>(x, n').
     bind_res (l2_run sha256 ops n' os) (\<lambda>(xs, n''). Inr (x # xs, n'')))"
| "l2_run sha256 ops n (Put_Op k v # os) =
     bind_res (l2_put sha256 ops n k v) (\<lambda>n'. l2_run sha256 ops n' os)"

text \<open>The abstract specification: a map from keys to values.\<close>

fun kv_spec :: "(bytes \<rightharpoonup> bytes) \<Rightarrow> kv_op list \<Rightarrow> bytes option list" where
  "kv_spec kv [] = []"
| "kv_spec kv (Get_Op k # os) = kv k # kv_spec kv os"
| "kv_spec kv (Put_Op k v # os) = kv_spec (kv(k \<mapsto> v)) os"

section \<open>The executor over a cached store\<close>

context cached_store
begin

lemma l2_put_ok:
  assumes "wf (node_storage n)"
  shows "\<exists>n'. l2_put sha256 ops n k v = Inr n' \<and> wf (node_storage n') \<and>
    peek (node_storage n') = (peek (node_storage n))(slot (sha256 k) \<mapsto> kv_record sha256 k v) \<and>
    node_metrics n' = inc_db_puts (node_metrics n) \<and>
    node_broadcasts n' = node_broadcasts n @
      (if starts_with k (as_bytes ''stress:'') then [] else [kv_record sha256 k v])"
proof -
  obtain st where st: "ss_apply_signed_record ops (node_storage n) (kv_record sha256 k v) = Inr st" "wf st"
    using apply_total [OF assms] by blast
  then have "peek st = (peek (node_storage n))(slot (sha256 k) \<mapsto> kv_record sha256 k v)"
    using peek_apply [OF assms st(1)] by simp
  with st show ?thesis by (simp add: l2_put_def Let_def)
qed

lemma l2_get_ok:
  assumes "wf (node_storage n)"
  shows "\<exists>x n'. l2_get sha256 ops n k = Inr (x, n') \<and> wf (node_storage n') \<and>
    peek (node_storage n') = peek (node_storage n) \<and>
    node_broadcasts n' = node_broadcasts n \<and>
    (\<forall>r. peek (node_storage n) (slot (sha256 k)) = Some r \<longrightarrow> record_value r = Inr (the x) \<and> x \<noteq> None)"
proof -
  obtain x st m where get: "ss_get_record ops (node_storage n) (sha256 k) (inc_db_gets (node_metrics n))
      = Inr (x, st, m)" "wf st"
    using get_total [OF assms] by blast
  have frame: "peek st = peek (node_storage n)"
    using peek_get [OF assms get(1)] .
  have cached: "x = Some r" if "peek (node_storage n) (slot (sha256 k)) = Some r" for r
    using get_cached [OF assms get(1) that] .
  show ?thesis
  proof (cases x)
    case None
    then have "peek (node_storage n) (slot (sha256 k)) = None"
      using cached by (cases "peek (node_storage n) (slot (sha256 k))") auto
    with None get frame show ?thesis by (simp add: l2_get_def Let_def)
  next
    case (Some r)
    obtain v where "record_value r = Inr v" using record_value_total by blast
    with Some get frame cached show ?thesis by (auto simp: l2_get_def Let_def)
  qed
qed

text \<open>The executor's steps as facts about what a slot holds.\<close>

lemma l2_get_slot:
  assumes "wf (node_storage n)" and "peek (node_storage n) (slot (sha256 k)) = Some (kv_record sha256 k' v)"
  shows "\<exists>n'. l2_get sha256 ops n k = Inr (Some v, n') \<and> wf (node_storage n')"
proof -
  from l2_get_ok [OF assms(1), of k] assms(2) obtain x n' where
    "l2_get sha256 ops n k = Inr (x, n')" "wf (node_storage n')" "Inr v = (Inr (the x) :: bytes res)" "x \<noteq> None"
    by fastforce
  then show ?thesis by auto
qed

lemma l2_put_get:
  assumes "wf (node_storage n)" and "slot (sha256 k') = slot (sha256 k)"
  shows "\<exists>n1 n2. l2_put sha256 ops n k v = Inr n1 \<and> l2_get sha256 ops n1 k' = Inr (Some v, n2) \<and>
    wf (node_storage n2)"
proof -
  obtain n1 where n1: "l2_put sha256 ops n k v = Inr n1" "wf (node_storage n1)"
    "peek (node_storage n1) = (peek (node_storage n))(slot (sha256 k) \<mapsto> kv_record sha256 k v)"
    using l2_put_ok [OF assms(1)] by blast
  then have "peek (node_storage n1) (slot (sha256 k')) = Some (kv_record sha256 k v)"
    using assms(2) by simp
  from l2_get_slot [OF n1(2) this] n1(1) show ?thesis by blast
qed

text \<open>What every operation sequence keeps: no panic, and one broadcast per put that is not a stress key.\<close>

lemma l2_run_ok:
  assumes "wf (node_storage n)"
  shows "\<exists>xs n'. l2_run sha256 ops n os = Inr (xs, n') \<and> wf (node_storage n') \<and>
    node_broadcasts n' = node_broadcasts n @
      concat (map (\<lambda>oper. case oper of Get_Op k \<Rightarrow> []
        | Put_Op k v \<Rightarrow> if starts_with k (as_bytes ''stress:'') then [] else [kv_record sha256 k v]) os)"
  using assms
proof (induction os arbitrary: n)
  case Nil
  then show ?case by simp
next
  case (Cons oper os)
  show ?case
  proof (cases oper)
    case (Get_Op k)
    obtain x n1 where n1: "l2_get sha256 ops n k = Inr (x, n1)" "wf (node_storage n1)"
      "node_broadcasts n1 = node_broadcasts n"
      using l2_get_ok [OF Cons.prems, of k] by auto
    from Cons.IH [OF n1(2)] n1(1,3) show ?thesis by (auto simp: Get_Op)
  next
    case (Put_Op k v)
    obtain n1 where n1: "l2_put sha256 ops n k v = Inr n1" "wf (node_storage n1)"
      "node_broadcasts n1 = node_broadcasts n @
        (if starts_with k (as_bytes ''stress:'') then [] else [kv_record sha256 k v])"
      using l2_put_ok [OF Cons.prems] by blast
    from Cons.IH [OF n1(2)] n1(1,3) show ?thesis by (auto simp: Put_Op)
  qed
qed

text \<open>A slot keeps its record while no put goes to it.\<close>

lemma l2_run_keeps_slot:
  assumes "wf (node_storage n)"
    and "s \<notin> (\<lambda>k. slot (sha256 k)) ` set (put_keys os)"
  shows "\<exists>xs n'. l2_run sha256 ops n os = Inr (xs, n') \<and> wf (node_storage n') \<and>
    peek (node_storage n') s = peek (node_storage n) s"
  using assms
proof (induction os arbitrary: n)
  case Nil
  then show ?case by simp
next
  case (Cons oper os)
  have rest: "s \<notin> (\<lambda>k. slot (sha256 k)) ` set (put_keys os)"
    using Cons.prems(2) by (cases oper) simp_all
  show ?case
  proof (cases oper)
    case (Get_Op k)
    obtain x n1 where n1: "l2_get sha256 ops n k = Inr (x, n1)" "wf (node_storage n1)"
      "peek (node_storage n1) = peek (node_storage n)"
      using l2_get_ok [OF Cons.prems(1), of k] by auto
    obtain xs n' where "l2_run sha256 ops n1 os = Inr (xs, n')" "wf (node_storage n')"
      "peek (node_storage n') s = peek (node_storage n1) s"
      using Cons.IH [OF n1(2) rest] by blast
    with n1(1,3) show ?thesis by (simp add: Get_Op)
  next
    case (Put_Op k v)
    obtain n1 where n1: "l2_put sha256 ops n k v = Inr n1" "wf (node_storage n1)"
      "peek (node_storage n1) = (peek (node_storage n))(slot (sha256 k) \<mapsto> kv_record sha256 k v)"
      using l2_put_ok [OF Cons.prems(1)] by blast
    moreover have "slot (sha256 k) \<noteq> s" using Cons.prems(2) Put_Op by simp
    moreover obtain xs n' where "l2_run sha256 ops n1 os = Inr (xs, n')" "wf (node_storage n')"
      "peek (node_storage n') s = peek (node_storage n1) s"
      using Cons.IH [OF n1(2) rest] by blast
    ultimately show ?thesis by (simp add: Put_Op)
  qed
qed

lemma l2_put_run_get:
  assumes "wf (node_storage n)"
    and "slot (sha256 k) \<notin> (\<lambda>k. slot (sha256 k)) ` set (put_keys os)"
  shows "\<exists>n1 xs n2 n3. l2_put sha256 ops n k v = Inr n1 \<and> l2_run sha256 ops n1 os = Inr (xs, n2) \<and>
    l2_get sha256 ops n2 k = Inr (Some v, n3)"
proof -
  obtain n1 where n1: "l2_put sha256 ops n k v = Inr n1" "wf (node_storage n1)"
    "peek (node_storage n1) = (peek (node_storage n))(slot (sha256 k) \<mapsto> kv_record sha256 k v)"
    using l2_put_ok [OF assms(1)] by blast
  obtain xs n2 where n2: "l2_run sha256 ops n1 os = Inr (xs, n2)" "wf (node_storage n2)"
    "peek (node_storage n2) (slot (sha256 k)) = Some (kv_record sha256 k v)"
    using l2_run_keeps_slot [OF n1(2) assms(2)] n1(3) by auto
  from l2_get_slot [OF n2(2,3)] n1(1) n2(1) show ?thesis by blast
qed

end

section \<open>Stores that only return what was applied\<close>

locale exact_store = cached_store ops wf sha256 slot peek
  for ops :: "('st, 'e::len word) state_store" and wf sha256 slot peek +
  assumes get_uncached: "wf st \<Longrightarrow> ss_get_record ops st h m = Inr (x, st', m') \<Longrightarrow>
      peek st (slot h) = None \<Longrightarrow> x = None"
begin

lemma l2_get_none:
  assumes "wf (node_storage n)" and "peek (node_storage n) (slot (sha256 k)) = None"
  shows "\<exists>n'. l2_get sha256 ops n k = Inr (None, n') \<and> wf (node_storage n') \<and>
    peek (node_storage n') = peek (node_storage n)"
proof -
  obtain x st m where get: "ss_get_record ops (node_storage n) (sha256 k) (inc_db_gets (node_metrics n))
      = Inr (x, st, m)" "wf st"
    using get_total [OF assms(1)] by blast
  moreover have "x = None" by (rule get_uncached [OF assms(1) get(1) assms(2)])
  ultimately show ?thesis
    using peek_get [OF assms(1) get(1)] by (simp add: l2_get_def Let_def)
qed

text \<open>
  Refinement of the map: while the keys in use have slots of their own, the slots hold exactly
  the map's contents, and every read answers as the map does.
\<close>

definition holds_map :: "bytes set \<Rightarrow> 'st \<Rightarrow> (bytes \<rightharpoonup> bytes) \<Rightarrow> bool" where
  "holds_map K st kv \<longleftrightarrow>
     (\<forall>k \<in> K. peek st (slot (sha256 k)) = map_option (kv_record sha256 k) (kv k))"

lemma l2_run_refines:
  assumes "inj_on (\<lambda>k. slot (sha256 k)) K" and "op_key ` set os \<subseteq> K"
    and "wf (node_storage n)" and "holds_map K (node_storage n) kv"
  shows "\<exists>n'. l2_run sha256 ops n os = Inr (kv_spec kv os, n')"
  using assms(2-)
proof (induction os arbitrary: n kv)
  case Nil
  then show ?case by simp
next
  case (Cons oper os)
  show ?case
  proof (cases oper)
    case (Get_Op k)
    then have "k \<in> K" using Cons.prems(1) by simp
    then have slot_k: "peek (node_storage n) (slot (sha256 k)) = map_option (kv_record sha256 k) (kv k)"
      using Cons.prems(3) by (simp add: holds_map_def)
    have "\<exists>n1. l2_get sha256 ops n k = Inr (kv k, n1) \<and> wf (node_storage n1) \<and>
      peek (node_storage n1) = peek (node_storage n)"
    proof (cases "kv k")
      case None
      with slot_k l2_get_none [OF Cons.prems(2), of k] show ?thesis by simp
    next
      case (Some v)
      with slot_k l2_get_ok [OF Cons.prems(2), of k] show ?thesis by fastforce
    qed
    then obtain n1 where n1: "l2_get sha256 ops n k = Inr (kv k, n1)" "wf (node_storage n1)"
      "peek (node_storage n1) = peek (node_storage n)" by blast
    then have "holds_map K (node_storage n1) kv" using Cons.prems(3) by (simp add: holds_map_def)
    from Cons.IH [OF _ n1(2) this] Cons.prems(1) n1(1) show ?thesis by (auto simp: Get_Op)
  next
    case (Put_Op k v)
    then have "k \<in> K" using Cons.prems(1) by simp
    obtain n1 where n1: "l2_put sha256 ops n k v = Inr n1" "wf (node_storage n1)"
      "peek (node_storage n1) = (peek (node_storage n))(slot (sha256 k) \<mapsto> kv_record sha256 k v)"
      using l2_put_ok [OF Cons.prems(2)] by blast
    have "k' = k" if "k' \<in> K" "slot (sha256 k') = slot (sha256 k)" for k'
      using inj_onD [OF assms(1) that(2)] that(1) \<open>k \<in> K\<close> by simp
    then have "holds_map K (node_storage n1) (kv(k \<mapsto> v))"
      using Cons.prems(3) by (fastforce simp: holds_map_def n1(3))
    moreover have "op_key ` set os \<subseteq> K" using Cons.prems(1) by simp
    ultimately obtain n' where "l2_run sha256 ops n1 os = Inr (kv_spec (kv(k \<mapsto> v)) os, n')"
      using Cons.IH n1(2) by blast
    with n1(1) show ?thesis by (simp only: Put_Op l2_run.simps kv_spec.simps bind_res_Inr) blast
  qed
qed

end

interpretation pure_exact: exact_store "pure_store cd sha256 ahash" pure_wf sha256 "key_slot ahash" pure_peek
  for cd :: "('db, 'qs) cddb" and sha256 ahash
  by unfold_locales (auto simp: pure_store_def pure_get_record_eq)

section \<open>The tiered store under the laws of the database\<close>

text \<open>
  A tiered store that started empty: whatever the database holds or has queued also occupies its
  index slot, so a read that misses the index finds nothing below it either.
\<close>

definition tiered_exact_wf ::
  "('db \<Rightarrow> usize \<rightharpoonup> row) \<Rightarrow> ('db \<Rightarrow> write_command list) \<Rightarrow> ('db, 'e::len word) tiered_store \<Rightarrow> bool" where
  "tiered_exact_wf rows pending st \<longleftrightarrow> tiered_wf st \<and>
     (\<forall>i \<in> dom (rows (ts_db st)) \<union> cmd_entity_id ` set (pending (ts_db st)).
        tiered_peek st (unat i mod 262144) \<noteq> None)"

lemma tiered_exact_wf_mono:
  assumes "tiered_exact_wf rows pending st" and "tiered_wf st'" and "tiered_peek st' = tiered_peek st"
    and "dom (rows (ts_db st')) \<union> cmd_entity_id ` set (pending (ts_db st')) \<subseteq>
      dom (rows (ts_db st)) \<union> cmd_entity_id ` set (pending (ts_db st))"
  shows "tiered_exact_wf rows pending st'"
proof -
  have "tiered_peek st' (unat i mod 262144) \<noteq> None"
    if "i \<in> dom (rows (ts_db st')) \<union> cmd_entity_id ` set (pending (ts_db st'))" for i
    using subsetD [OF assms(4) that] assms(1,3) unfolding tiered_exact_wf_def by simp
  with assms(2) show ?thesis unfolding tiered_exact_wf_def by blast
qed

lemma tiered_get_exact:
  assumes laws: "cddb_laws cd rows pending drain" and exact: "tiered_exact_wf rows pending st"
    and get: "tiered_get_record cd ahash st h m = Inr (x, st', m')"
  shows "tiered_exact_wf rows pending st'" and "x = tiered_peek st (key_slot ahash h)"
proof -
  have wf: "tiered_wf st" using exact by (simp add: tiered_exact_wf_def)
  have frame: "tiered_wf st'" "tiered_peek st' = tiered_peek st"
    using tiered_get_frame [OF wf, of cd ahash h m] get by (auto simp: tiered_peek_def)
  have "rows (ts_db st') = rows (ts_db st) \<and> pending (ts_db st') = pending (ts_db st) \<and>
      x = tiered_peek st (key_slot ahash h)"
  proof (cases "tiered_peek st (key_slot ahash h)")
    case None
    obtain w tls db where g: "get_worker cd (ts_route st) (ts_tls st) (ts_db st) = (w, tls, db)"
      by (cases "get_worker cd (ts_route st) (ts_tls st) (ts_db st)")
    have "rows (ts_db st) (entity_id ahash h) = None"
      using exact None unfolding tiered_exact_wf_def key_slot_def by blast
    then show ?thesis
      using tiered_get_miss [OF wf None g, of m] get None get_worker_rows [OF laws g]
      by (auto simp: cold_read_rows [OF laws])
  next
    case (Some r)
    then show ?thesis using tiered_get_hit [OF wf Some, of cd m] get by simp
  qed
  then show "tiered_exact_wf rows pending st'" and "x = tiered_peek st (key_slot ahash h)"
    using tiered_exact_wf_mono [OF exact frame] by auto
qed

lemma tiered_apply_exact:
  assumes laws: "cddb_laws cd rows pending drain" and exact: "tiered_exact_wf rows pending st"
    and app: "tiered_apply_signed_record cd sha256 ahash st r = Inr st'"
  shows "tiered_exact_wf rows pending st'"
proof -
  let ?c = "insert_command sha256 ahash r"
  have wf: "tiered_wf st" using exact by (simp add: tiered_exact_wf_def)
  have peek: "tiered_wf st'" "tiered_peek st' = (tiered_peek st)(key_slot ahash (key_of sha256 (payload r)) \<mapsto> r)"
    using tiered_apply_total [OF wf, of cd sha256 ahash r] app by auto
  have "rows (ts_db st') = rows (ts_db st)"
    and "pending (ts_db st') = pending (ts_db st) \<or> pending (ts_db st') = pending (ts_db st) @ [?c]"
    using try_send_rows [OF laws prod.collapse [symmetric], of "ts_db st" "ts_writer st" ?c]
      tiered_apply_db [OF wf app] by simp_all
  with exact peek show ?thesis
    by (auto simp: tiered_exact_wf_def insert_command_def key_slot_def)
qed

lemma tiered_flush_exact:
  assumes laws: "cddb_laws cd rows pending drain" and exact: "tiered_exact_wf rows pending st"
  shows "tiered_exact_wf rows pending (tiered_flush drain st)"
proof (rule tiered_exact_wf_mono [OF exact])
  show "tiered_wf (tiered_flush drain st)" "tiered_peek (tiered_flush drain st) = tiered_peek st"
    using exact by (simp_all add: tiered_exact_wf_def tiered_wf_def tiered_flush_def tiered_peek_def)
  show "dom (rows (ts_db (tiered_flush drain st))) \<union> cmd_entity_id ` set (pending (ts_db (tiered_flush drain st)))
      \<subseteq> dom (rows (ts_db st)) \<union> cmd_entity_id ` set (pending (ts_db st))"
    using laws by (simp add: tiered_flush_def cddb_laws_def drain_commits_def dom_fold_commit)
qed

lemma tiered_by_epoch_exact:
  assumes laws: "cddb_laws cd rows pending drain" and exact: "tiered_exact_wf rows pending st"
  shows "tiered_exact_wf rows pending (snd (tiered_get_by_epoch cd st e))"
proof (rule tiered_exact_wf_mono [OF exact])
  show "tiered_wf (snd (tiered_get_by_epoch cd st e))"
    "tiered_peek (snd (tiered_get_by_epoch cd st e)) = tiered_peek st"
    using exact tiered_by_epoch_frame [of st cd e] by (simp_all add: tiered_exact_wf_def tiered_peek_def)
  show "dom (rows (ts_db (snd (tiered_get_by_epoch cd st e)))) \<union>
      cmd_entity_id ` set (pending (ts_db (snd (tiered_get_by_epoch cd st e))))
      \<subseteq> dom (rows (ts_db st)) \<union> cmd_entity_id ` set (pending (ts_db st))"
    by (auto simp: tiered_get_by_epoch_def Let_def get_worker_rows [OF laws] split: prod.splits)
qed

lemma tiered_exact_store:
  assumes laws: "cddb_laws cd rows pending drain"
  shows "exact_store (tiered_ops cd sha256 ahash drain) (tiered_exact_wf rows pending)
    sha256 (key_slot ahash) (tiered_peek :: ('db, 'e::len word) tiered_store \<Rightarrow> nat \<Rightarrow> 'e word signed_record option)"
proof
  let ?ops = "tiered_ops cd sha256 ahash drain"
  fix st :: "('db, 'e word) tiered_store" and h m r x st' m' e k
  assume exact: "tiered_exact_wf rows pending st"
  then have wf: "tiered_wf st" by (simp add: tiered_exact_wf_def)
  show "\<exists>x st' m'. ss_get_record ?ops st h m = Inr (x, st', m') \<and> tiered_exact_wf rows pending st'"
    using tiered_get_frame [OF wf, of cd ahash h m] tiered_get_exact [OF laws exact] by (fastforce simp: tiered_ops_def)
  show "\<exists>st'. ss_apply_signed_record ?ops st r = Inr st' \<and> tiered_exact_wf rows pending st'"
    using tiered_apply_total [OF wf, of cd sha256 ahash r] tiered_apply_exact [OF laws exact]
    by (fastforce simp: tiered_ops_def)
  show "tiered_exact_wf rows pending (snd (ss_get_by_epoch ?ops st e))"
    and "tiered_exact_wf rows pending (ss_flush ?ops st)" and "tiered_exact_wf rows pending (ss_prune ?ops st e k)"
    using tiered_by_epoch_exact [OF laws exact] tiered_flush_exact [OF laws exact] exact
    by (simp_all add: tiered_ops_def tiered_prune_def)
  show "tiered_peek (snd (ss_get_by_epoch ?ops st e)) = tiered_peek st"
    "tiered_peek (ss_prune ?ops st e k) = tiered_peek st" "tiered_peek (ss_flush ?ops st) = tiered_peek st"
    using wf by (rule tiered.peek_epoch tiered.peek_prune tiered.peek_flush)+
  show "tiered_peek st' = (tiered_peek st)(key_slot ahash (key_of sha256 (payload r)) \<mapsto> r)"
    if "ss_apply_signed_record ?ops st r = Inr st'"
    using tiered.peek_apply [OF wf that] .
  assume get: "ss_get_record ?ops st h m = Inr (x, st', m')"
  then show "tiered_peek st' = tiered_peek st" by (rule tiered.peek_get [OF wf])
  have "x = tiered_peek st (key_slot ahash h)"
    using get tiered_get_exact(2) [OF laws exact] by (simp add: tiered_ops_def)
  then show "x = Some r" if "tiered_peek st (key_slot ahash h) = Some r" using that by simp
  show "x = None" if "tiered_peek st (key_slot ahash h) = None"
    using that \<open>x = tiered_peek st (key_slot ahash h)\<close> by simp
qed

section \<open>Properties\<close>

definition sample_node :: "'st \<Rightarrow> ('st, 64 word) node" where
  "sample_node st = \<lparr>node_storage = st, node_metrics = no_metrics, node_broadcasts = []\<rparr>"

lemma sample_node_sel [simp]:
  "node_storage (sample_node st) = st" "node_metrics (sample_node st) = no_metrics"
  "node_broadcasts (sample_node st) = []"
  by (simp_all add: sample_node_def)

lemma sample_slot: "length k \<le> 32 \<Longrightarrow> k \<noteq> [] \<Longrightarrow> key_slot sample_ahash (sample_sha k) = unat (hd k)"
  using unat_u8_bound [of "hd k"]
  by (cases k) (simp_all add: key_slot_def entity_id_def sample_sha_def sample_ahash_def take_Cons'
      unsigned_ucast_eq take_bit_nat_eq_self)

text \<open>
  Read your writes through the executor: after \<open>L2Executor::put(key, val)\<close> on a node with a
  tiered store, and any further operations of which no put goes to the cache slot of the key,
  \<open>L2Executor::get(key)\<close> returns exactly the value. This holds whatever the database, SHA-256 and
  AHash do, and none of the operations panics.
\<close>

lemma l2_put_then_get_tiered:
  assumes "tiered_wf (node_storage n)"
    and "key_slot ahash (sha256 k) \<notin> (\<lambda>k. key_slot ahash (sha256 k)) ` set (put_keys os)"
  shows "\<exists>n1 xs n2 n3. l2_put sha256 (tiered_ops cd sha256 ahash background) n k v = Inr n1 \<and>
    l2_run sha256 (tiered_ops cd sha256 ahash background) n1 os = Inr (xs, n2) \<and>
    l2_get sha256 (tiered_ops cd sha256 ahash background) n2 k = Inr (Some v, n3)"
  using assms by (rule tiered.l2_put_run_get)

text \<open>
  C23: Functional correctness as a map, memory-only mode: on a node with a fresh pure cache, any
  sequence of puts and gets whose keys have cache slots of their own answers every get exactly
  as a map from keys to values does, and never panics.
\<close>

theorem l2_pure_refines_map:
  assumes "pure_cache_new cd cd_new ns mb = Inr (node_storage n)"
    and "inj_on (\<lambda>k. key_slot ahash (sha256 k)) (op_key ` set os)"
  shows "\<exists>n'. l2_run sha256 (pure_store cd sha256 ahash) (n :: (('db, 'e::len word) pure_cache_store, 'e word) node) os =
    Inr (kv_spec Map.empty os, n')"
proof -
  have wf: "pure_wf (node_storage n)" using pure_cache_new_wf [OF assms(1)] .
  have "pure_peek (node_storage n) s = None" for s
    by (rule pure_cache_new_empty [OF assms(1)])
  then have "pure_exact.holds_map sha256 ahash (op_key ` set os) (node_storage n) Map.empty"
    by (simp add: pure_exact.holds_map_def)
  from pure_exact.l2_run_refines [OF assms(2) subset_refl wf this] show ?thesis by blast
qed

theorem l2_pure_refines_map_witness:
  "\<exists>n'. l2_run sample_sha (pure_store (mem_cddb 4) sample_sha sample_ahash) (sample_node sample_pure)
     [Get_Op [1], Put_Op [1] [7], Put_Op [2] [8], Get_Op [1], Put_Op [1] [9], Get_Op [1], Get_Op [2]] =
     Inr ([None, Some [7], Some [9], Some [8]], n')"
proof -
  let ?os = "[Get_Op [1], Put_Op [1] [7], Put_Op [2] [8], Get_Op [1], Put_Op [1] [9], Get_Op [1], Get_Op [2]]"
  have "inj_on (\<lambda>k. key_slot sample_ahash (sample_sha k)) (op_key ` set ?os)"
    by (auto simp: inj_on_def sample_slot)
  from l2_pure_refines_map [OF _ this, of "mem_cddb 4" "\<lambda>p fs. mem_empty" "array_splat 0" 512
      "sample_node sample_pure"] sample_pure_new
  show ?thesis by simp
qed

text \<open>
  C9: Functional correctness as a map, tiered mode: on a node whose tiered store starts empty over
  an empty database that keeps the laws, any sequence of puts and gets whose keys have cache
  slots of their own answers every get exactly as a map from keys to values does.
\<close>

theorem l2_tiered_refines_map:
  assumes "cddb_laws cd rows pending drain"
    and "tiered_wf (node_storage n)" and "\<And>s. tiered_peek (node_storage n) s = None"
    and "rows (ts_db (node_storage n)) = Map.empty" and "pending (ts_db (node_storage n)) = []"
    and "inj_on (\<lambda>k. key_slot ahash (sha256 k)) (op_key ` set os)"
  shows "\<exists>n'. l2_run sha256 (tiered_ops cd sha256 ahash drain) (n :: (('db, 'e::len word) tiered_store, 'e word) node) os =
    Inr (kv_spec Map.empty os, n')"
proof -
  have store: "exact_store (tiered_ops cd sha256 ahash drain) (tiered_exact_wf rows pending) sha256
      (key_slot ahash) (tiered_peek :: ('db, 'e word) tiered_store \<Rightarrow> nat \<Rightarrow> 'e word signed_record option)"
    using assms(1) by (rule tiered_exact_store)
  have wf: "tiered_exact_wf rows pending (node_storage n)"
    using assms(2,4,5) by (simp add: tiered_exact_wf_def)
  have "exact_store.holds_map sha256 (key_slot ahash) tiered_peek (op_key ` set os) (node_storage n) Map.empty"
    using assms(3) by (simp add: exact_store.holds_map_def [OF store])
  from exact_store.l2_run_refines [OF store assms(6) subset_refl wf this] show ?thesis by blast
qed

theorem l2_tiered_refines_map_witness:
  "\<exists>n'. l2_run sample_sha (tiered_ops (mem_cddb 4) sample_sha sample_ahash mem_drain)
     (sample_node (sample_tiered mem_empty)) [Get_Op [1], Put_Op [1] [7], Get_Op [2], Get_Op [1]] =
     Inr ([None, None, Some [7]], n')"
proof -
  let ?os = "[Get_Op [1], Put_Op [1] [7], Get_Op [2], Get_Op [1]]"
  have "inj_on (\<lambda>k. key_slot sample_ahash (sample_sha k)) (op_key ` set ?os)"
    by (auto simp: inj_on_def sample_slot)
  from l2_tiered_refines_map [OF mem_cddb_laws _ _ _ _ this, of "sample_node (sample_tiered mem_empty)" 4]
  show ?thesis by (simp add: mem_empty_def)
qed

text \<open>
  C26: A read can return another key's value: the index stores no key, so after \<open>put(k, v)\<close> a
  \<open>get(k')\<close> of any other key with the same slot (the low 18 bits of its entity id) answers \<open>v\<close>,
  even though \<open>k'\<close> was never written or holds something else.
\<close>

theorem l2_get_serves_colliding_key:
  assumes "tiered_wf (node_storage n)" and "k' \<noteq> k" and "key_slot ahash (sha256 k') = key_slot ahash (sha256 k)"
  shows "\<exists>n1 n2. l2_put sha256 (tiered_ops cd sha256 ahash background) n k v = Inr n1 \<and>
    l2_get sha256 (tiered_ops cd sha256 ahash background) n1 k' = Inr (Some v, n2)"
  using tiered.l2_put_get [OF assms(1,3)] by blast

theorem l2_get_serves_colliding_key_witness:
  "\<exists>n1 n2. l2_put sample_sha (tiered_ops (mem_cddb 4) sample_sha sample_ahash mem_drain)
       (sample_node (sample_tiered mem_empty)) [1] [7] = Inr n1 \<and>
     l2_get sample_sha (tiered_ops (mem_cddb 4) sample_sha sample_ahash mem_drain) n1 [1, 5] = Inr (Some [7], n2)"
  by (rule l2_get_serves_colliding_key) (simp_all add: sample_slot)

text \<open>
  C31: Every put spawns one broadcast of exactly the record it stored, in the order of the puts,
  except that keys starting with \<open>stress:\<close> are never broadcast; gets broadcast nothing.
\<close>

theorem l2_broadcasts_puts_in_order:
  assumes "tiered_wf (node_storage n)"
  shows "\<exists>xs n'. l2_run sha256 (tiered_ops cd sha256 ahash background) n os = Inr (xs, n') \<and>
    node_broadcasts n' = node_broadcasts n @
      concat (map (\<lambda>oper. case oper of Get_Op k \<Rightarrow> []
        | Put_Op k v \<Rightarrow> if starts_with k (as_bytes ''stress:'') then [] else [kv_record sha256 k v]) os)"
  using tiered.l2_run_ok [OF assms] by blast

theorem l2_broadcasts_puts_in_order_witness:
  "\<exists>xs n'. l2_run sample_sha (tiered_ops (mem_cddb 4) sample_sha sample_ahash mem_drain)
       (sample_node (sample_tiered mem_empty)) [Put_Op (as_bytes ''stress:1'') [1], Put_Op [2] [3], Get_Op [2]] = Inr (xs, n') \<and>
     node_broadcasts n' = [kv_record sample_sha [2] [3]]"
proof -
  have "tiered_wf (node_storage (sample_node (sample_tiered mem_empty)))" by simp
  from l2_broadcasts_puts_in_order [OF this, of sample_sha "mem_cddb 4" sample_ahash mem_drain
      "[Put_Op (as_bytes ''stress:1'') [1], Put_Op [2] [3], Get_Op [2]]"]
  show ?thesis by (simp add: starts_with_def as_bytes_def)
qed

section \<open>Metrics\<close>

lemma tiered_get_metrics:
  assumes "tiered_wf st" and "tiered_get_record cd ahash st h m = Inr (x, st', m')"
  shows "m' = (if tiered_peek st (key_slot ahash h) = None then inc_cache_misses m else inc_cache_hits m)"
proof (cases "tiered_peek st (key_slot ahash h)")
  case None
  obtain w tls db where g: "get_worker cd (ts_route st) (ts_tls st) (ts_db st) = (w, tls, db)"
    by (cases "get_worker cd (ts_route st) (ts_tls st) (ts_db st)")
  show ?thesis using tiered_get_miss [OF assms(1) None g, of m] assms(2) None by simp
next
  case (Some r)
  then show ?thesis using tiered_get_hit [OF assms(1) Some, of cd m] assms(2) by simp
qed

lemma l2_get_metrics:
  assumes "tiered_wf (node_storage n)" and "l2_get sha256 (tiered_ops cd sha256 ahash background) n k = Inr (x, n')"
  shows "node_metrics n' = (if tiered_peek (node_storage n) (key_slot ahash (sha256 k)) = None
    then inc_cache_misses (inc_db_gets (node_metrics n)) else inc_cache_hits (inc_db_gets (node_metrics n)))"
  using assms(2)
  by (auto simp: l2_get_def Let_def res_simps tiered_ops_def split: option.splits
      dest!: tiered_get_metrics [OF assms(1)])

text \<open>
  The counters add up: over any sequence of executor operations on a tiered store
  \<open>db_gets\<close> counts the gets, \<open>db_puts\<close> the puts, and every get is either a cache hit or a cache miss.
\<close>

lemma l2_metrics_add_up:
  assumes "tiered_wf (node_storage n)"
  shows "\<exists>xs n'. l2_run sha256 (tiered_ops cd sha256 ahash background) n os = Inr (xs, n') \<and>
    db_gets (node_metrics n') = db_gets (node_metrics n) + length xs \<and>
    db_puts (node_metrics n') = db_puts (node_metrics n) + length (put_keys os) \<and>
    cache_hits (node_metrics n') + cache_misses (node_metrics n') =
      cache_hits (node_metrics n) + cache_misses (node_metrics n) + length xs"
  using assms
proof (induction os arbitrary: n)
  case Nil
  then show ?case by simp
next
  case (Cons oper os)
  let ?ops = "tiered_ops cd sha256 ahash background"
  show ?case
  proof (cases oper)
    case (Get_Op k)
    obtain x n1 where n1: "l2_get sha256 ?ops n k = Inr (x, n1)" "tiered_wf (node_storage n1)"
      using tiered.l2_get_ok [OF Cons.prems, of sha256 cd ahash background k] by auto
    from Cons.IH [OF n1(2)] n1(1) l2_get_metrics [OF Cons.prems n1(1)] show ?thesis
      by (auto simp: Get_Op metric_incs)
  next
    case (Put_Op k v)
    obtain n1 where n1: "l2_put sha256 ?ops n k v = Inr n1" "tiered_wf (node_storage n1)"
      "node_metrics n1 = inc_db_puts (node_metrics n)"
      using tiered.l2_put_ok [OF Cons.prems] by blast
    from Cons.IH [OF n1(2)] n1(1,3) show ?thesis by (auto simp: Put_Op metric_incs)
  qed
qed

end
