(* ===== verification/Gateway.thy ===== *)
theory Gateway
  imports L2_Executor
begin

text \<open>
  The request handlers of src/src/main.rs: what a worker does with each \<open>GatewayRequest\<close>, from the
  key-value commands to the guarded forwarding of VM scripts to the serial gateways. The two
  copies of the handler (macOS and the thread-per-core build) differ only in the worker id
  that \<open>INFO\<close> reports. Sending on a serial channel belongs to another crate: \<open>tx_send\<close> is a
  parameter that says whether the send succeeded and what the channel became. Shown: every
  request is answered exactly once and without a panic, the guard is the only way to a serial
  port, a rejected request changes nothing, and MAC addresses parse back from any notation.
\<close>

section \<open>Requests and responses\<close>

datatype frame = SimpleString string | ErrorFrame string | BulkString "bytes option"

text \<open>\<open>OtherCommand\<close> stands for the commands that the handler's catch-all arm answers.\<close>

datatype gateway_command = Get string | Put string bytes | Info | Ping | OtherCommand

record gateway_request =
  req_cmd :: gateway_command
  req_peer_addr :: "socket_addr option"

record gateway_frame =
  mac_addr :: "(u8, 6) array"
  frame_payload :: bytes

text \<open>
  What the handlers act on: the node, the serial channels, the responses sent so far (oldest
  first) and the number of serial sends that were reported as failed.
\<close>

record ('st, 'w, 'tx) server =
  sv_node :: "('st, 'w) node"
  sv_serial_txs :: "'tx list"
  sv_responses :: "frame list"
  sv_send_errors :: nat

definition respond :: "frame \<Rightarrow> ('st, 'e::len word, 'tx) server \<Rightarrow> ('st, 'e word, 'tx) server" where
  "respond f sv = sv\<lparr>sv_responses := sv_responses sv @ [f]\<rparr>"

section \<open>The target of a VM script\<close>

text \<open>\<open>for idx in 0..6 { if let Ok(b) = u8::from_str_radix(&clean[idx*2..idx*2+2], 16) { m[idx] = b } }\<close>\<close>

fun mac_loop :: "string \<Rightarrow> nat list \<Rightarrow> (u8, 6) array \<Rightarrow> (u8, 6) array res" where
  "mac_loop clean [] m = Inr m"
| "mac_loop clean (idx # is) m =
     bind_res (slice_range clean (idx * 2) (idx * 2 + 2)) (\<lambda>digits.
       mac_loop clean is
         (case u8_from_str_radix_16 digits of Some b \<Rightarrow> array_set m idx b | None \<Rightarrow> m))"

definition mac_of_key :: "string \<Rightarrow> (u8, 6) array res" where
  "mac_of_key key =
     (let part = (case strip_prefix key ''vm:'' of Some p \<Rightarrow> p | None \<Rightarrow> key)
      in if eq_ignore_ascii_case part ''broadcast'' \<or> eq_ignore_ascii_case part ''all''
         then Inr (array_splat 0xFF)
         else (let clean = filter is_ascii_hexdigit part
               in if length clean = 12 then mac_loop clean [0..<6] (array_splat 0)
                  else Inr (array_splat 0xFF)))"

section \<open>The guard\<close>

text \<open>The early returns before a VM script is forwarded, in order; \<open>None\<close> lets it through.\<close>

definition vm_guard :: "bool \<Rightarrow> socket_addr option \<Rightarrow> bytes \<Rightarrow> string option" where
  "vm_guard enable_vm_scripts peer val =
     (if \<not> enable_vm_scripts
      then Some ''VM scripts are strictly disabled in this production environment''
      else case peer of
             None \<Rightarrow> Some ''VM scripts require a verifiable origin''
           | Some addr \<Rightarrow>
               if \<not> is_loopback (ip addr) then Some ''VM scripts are only allowed from localhost''
               else if length val > 4096 then Some ''VM script payload exceeds 4096 bytes limit''
               else None)"

definition vm_frame :: "(u8, 6) array \<Rightarrow> bytes \<Rightarrow> gateway_frame" where
  "vm_frame mac val = \<lparr>mac_addr = mac, frame_payload = 0x40 # val\<rparr>"

text \<open>\<open>for s_tx in &serial_txs { if let Err(e) = s_tx.send(frame.clone()).await { eprintln!(...) } }\<close>\<close>

fun forward_all ::
  "('tx \<Rightarrow> gateway_frame \<Rightarrow> bool \<times> 'tx) \<Rightarrow> gateway_frame \<Rightarrow> 'tx list \<Rightarrow> 'tx list \<times> nat" where
  "forward_all tx_send f [] = ([], 0)"
| "forward_all tx_send f (tx # txs) =
     (case tx_send tx f of (ok, tx') \<Rightarrow>
      case forward_all tx_send f txs of (txs', errs) \<Rightarrow>
        (tx' # txs', (if ok then 0 else 1) + errs))"

section \<open>The handler\<close>

definition info_text :: "nat \<Rightarrow> string" where
  "info_text worker =
     ''worker_id:'' @ decimal worker @ [CHR 0x0D, CHR 0x0A] @ ''version:0.1.0'' @ [CHR 0x0D, CHR 0x0A]"

definition handle_get ::
  "(bytes \<Rightarrow> hash32) \<Rightarrow> ('st, 'e::len word) state_store \<Rightarrow> string \<Rightarrow> ('st, 'e word, 'tx) server \<Rightarrow>
   ('st, 'e word, 'tx) server res" where
  "handle_get sha256 ops key sv =
     bind_res (l2_get sha256 ops (sv_node sv) (as_bytes key)) (\<lambda>(x, n).
       let sv' = sv\<lparr>sv_node := n\<rparr>
       in Inr (case x of Some val \<Rightarrow> respond (BulkString (Some val)) sv'
                       | None \<Rightarrow> respond (BulkString None) sv'))"

definition forward_vm ::
  "('tx \<Rightarrow> gateway_frame \<Rightarrow> bool \<times> 'tx) \<Rightarrow> string \<Rightarrow> bytes \<Rightarrow> ('st, 'e::len word, 'tx) server \<Rightarrow>
   ('st, 'e word, 'tx) server res" where
  "forward_vm tx_send key val sv =
     bind_res (mac_of_key key) (\<lambda>mac.
       case forward_all tx_send (vm_frame mac val) (sv_serial_txs sv) of
         (txs, errs) \<Rightarrow> Inr (sv\<lparr>sv_serial_txs := txs, sv_send_errors := sv_send_errors sv + errs\<rparr>))"

definition store_and_ack ::
  "(bytes \<Rightarrow> hash32) \<Rightarrow> ('st, 'e::len word) state_store \<Rightarrow> string \<Rightarrow> bytes \<Rightarrow> ('st, 'e word, 'tx) server \<Rightarrow>
   ('st, 'e word, 'tx) server res" where
  "store_and_ack sha256 ops key val sv =
     bind_res (l2_put sha256 ops (sv_node sv) (as_bytes key) val) (\<lambda>n.
       Inr (respond (SimpleString ''OK'') (sv\<lparr>sv_node := n\<rparr>)))"

definition handle_put ::
  "(bytes \<Rightarrow> hash32) \<Rightarrow> ('st, 'e::len word) state_store \<Rightarrow> ('tx \<Rightarrow> gateway_frame \<Rightarrow> bool \<times> 'tx) \<Rightarrow> bool \<Rightarrow>
   socket_addr option \<Rightarrow> string \<Rightarrow> bytes \<Rightarrow> ('st, 'e word, 'tx) server \<Rightarrow> ('st, 'e word, 'tx) server res" where
  "handle_put sha256 ops tx_send enable_vm_scripts peer key val sv =
     (if starts_with key ''vm:'' \<and> sv_serial_txs sv \<noteq> []
      then case vm_guard enable_vm_scripts peer val of
             Some e \<Rightarrow> Inr (respond (ErrorFrame e) sv)
           | None \<Rightarrow> bind_res (forward_vm tx_send key val sv) (store_and_ack sha256 ops key val)
      else store_and_ack sha256 ops key val sv)"

definition handle_request ::
  "(bytes \<Rightarrow> hash32) \<Rightarrow> ('st, 'e::len word) state_store \<Rightarrow> ('tx \<Rightarrow> gateway_frame \<Rightarrow> bool \<times> 'tx) \<Rightarrow> bool \<Rightarrow>
   nat \<Rightarrow> gateway_request \<Rightarrow> ('st, 'e word, 'tx) server \<Rightarrow> ('st, 'e word, 'tx) server res" where
  "handle_request sha256 ops tx_send enable_vm_scripts worker req sv =
     (case req_cmd req of
        Get key \<Rightarrow> handle_get sha256 ops key sv
      | Put key val \<Rightarrow> handle_put sha256 ops tx_send enable_vm_scripts (req_peer_addr req) key val sv
      | Info \<Rightarrow> Inr (respond (BulkString (Some (as_bytes (info_text worker)))) sv)
      | Ping \<Rightarrow> Inr (respond (SimpleString ''PONG'') sv)
      | OtherCommand \<Rightarrow> Inr (respond (ErrorFrame ''Unknown command'') sv))"

text \<open>The macOS build runs one worker on the main runtime, which reports id 0.\<close>

definition handle_request_macos ::
  "(bytes \<Rightarrow> hash32) \<Rightarrow> ('st, 'e::len word) state_store \<Rightarrow> ('tx \<Rightarrow> gateway_frame \<Rightarrow> bool \<times> 'tx) \<Rightarrow> bool \<Rightarrow>
   gateway_request \<Rightarrow> ('st, 'e word, 'tx) server \<Rightarrow> ('st, 'e word, 'tx) server res" where
  "handle_request_macos sha256 ops tx_send enable_vm_scripts req sv =
     handle_request sha256 ops tx_send enable_vm_scripts 0 req sv"

text \<open>
  \<open>while let Some(req) = rx.recv().await\<close>: the requests of one worker's channel, each in its own
  task, when the tasks run in the order they were spawned.
\<close>

fun serve ::
  "(bytes \<Rightarrow> hash32) \<Rightarrow> ('st, 'e::len word) state_store \<Rightarrow> ('tx \<Rightarrow> gateway_frame \<Rightarrow> bool \<times> 'tx) \<Rightarrow> bool \<Rightarrow>
   nat \<Rightarrow> gateway_request list \<Rightarrow> ('st, 'e word, 'tx) server \<Rightarrow> ('st, 'e word, 'tx) server res" where
  "serve sha256 ops tx_send en worker [] sv = Inr sv"
| "serve sha256 ops tx_send en worker (req # reqs) sv =
     bind_res (handle_request sha256 ops tx_send en worker req sv)
       (serve sha256 ops tx_send en worker reqs)"

fun serve_macos ::
  "(bytes \<Rightarrow> hash32) \<Rightarrow> ('st, 'e::len word) state_store \<Rightarrow> ('tx \<Rightarrow> gateway_frame \<Rightarrow> bool \<times> 'tx) \<Rightarrow> bool \<Rightarrow>
   gateway_request list \<Rightarrow> ('st, 'e word, 'tx) server \<Rightarrow> ('st, 'e word, 'tx) server res" where
  "serve_macos sha256 ops tx_send en [] sv = Inr sv"
| "serve_macos sha256 ops tx_send en (req # reqs) sv =
     bind_res (handle_request_macos sha256 ops tx_send en req sv) (serve_macos sha256 ops tx_send en reqs)"

text \<open>The macOS build serves as worker 0 of the other one does.\<close>

lemma serve_macos_worker_0: "serve_macos sha256 ops tx_send en reqs sv = serve sha256 ops tx_send en 0 reqs sv"
proof (induction reqs arbitrary: sv)
  case (Cons req reqs)
  then show ?case
    by (cases "handle_request sha256 ops tx_send en 0 req sv") (simp_all add: handle_request_macos_def)
qed simp

section \<open>MAC addresses\<close>

definition hex_char :: "nat \<Rightarrow> char" where
  "hex_char d = (if d < 10 then char_of (48 + d) else char_of (87 + d))"

definition hex_byte :: "u8 \<Rightarrow> string" where
  "hex_byte b = [hex_char (unat b div 16), hex_char (unat b mod 16)]"

text \<open>A MAC address in text, six bytes of two hex digits with a separator between them.\<close>

fun mac_text :: "string \<Rightarrow> u8 list \<Rightarrow> string" where
  "mac_text sep [] = []"
| "mac_text sep [b] = hex_byte b"
| "mac_text sep (b # bs) = hex_byte b @ sep @ mac_text sep bs"

lemma hex_char_digit:
  assumes "d < 16"
  shows "is_ascii_hexdigit (hex_char d)" and "to_digit_16 (hex_char d) = Some d"
  using assms by (auto simp: is_ascii_hexdigit_def to_digit_16_def hex_char_def of_char_of Let_def)

lemma hex_byte_digits [simp]: "filter is_ascii_hexdigit (hex_byte b) = hex_byte b"
  using unat_u8_bound [of b] by (simp add: hex_byte_def hex_char_digit)

lemma u8_from_hex_byte [simp]: "u8_from_str_radix_16 (hex_byte b) = Some b"
proof -
  have "unat b div 16 < 16" using unat_u8_bound [of b] by simp
  then have "u8_from_str_radix_16 (hex_byte b) = Some (of_nat (16 * (unat b div 16) + unat b mod 16))"
    unfolding hex_byte_def by (intro u8_from_two_hexdigits hex_char_digit) simp_all
  then show ?thesis by simp
qed

lemma length_hex_byte [simp]: "length (hex_byte b) = 2"
  by (simp add: hex_byte_def)

lemma filter_mac_text:
  assumes "filter is_ascii_hexdigit sep = []"
  shows "filter is_ascii_hexdigit (mac_text sep bs) = concat (map hex_byte bs)"
  using assms by (induction sep bs rule: mac_text.induct) simp_all

lemma length_mac_text: "2 * length bs \<le> length (mac_text sep bs)"
  by (induction sep bs rule: mac_text.induct) simp_all

lemma eq_ignore_ascii_case_length: "eq_ignore_ascii_case a b \<Longrightarrow> length a = length b"
  unfolding eq_ignore_ascii_case_def by (metis length_map)

lemma drop_concat_hex: "drop (2 * i) (concat (map hex_byte bs)) = concat (map hex_byte (drop i bs))"
proof (induction bs arbitrary: i)
  case Nil
  then show ?case by simp
next
  case (Cons b bs)
  then show ?case by (cases i) simp_all
qed

lemma length_concat_hex [simp]: "length (concat (map hex_byte bs)) = 2 * length bs"
  by (induction bs) simp_all

lemma slice_hex:
  assumes "i < length bs"
  shows "slice_range (concat (map hex_byte bs)) (i * 2) (i * 2 + 2) = Inr (hex_byte (bs ! i))"
proof -
  have "drop (i * 2) (concat (map hex_byte bs)) = hex_byte (bs ! i) @ concat (map hex_byte (drop (Suc i) bs))"
    using drop_concat_hex [of i bs] assms by (simp add: mult.commute flip: Cons_nth_drop_Suc)
  with assms show ?thesis by (simp add: slice_range_def)
qed

lemma mac_loop_hex:
  assumes "length bs = 6" and "set is \<subseteq> {..<6}"
  shows "mac_loop (concat (map hex_byte bs)) is m =
    Inr (fold (\<lambda>i m. array_set m i (bs ! i)) is m)"
  using assms by (induction "is" arbitrary: m) (simp_all add: slice_hex del: add_2_eq_Suc')

lemma mac_loop_total:
  assumes "length clean = 12" and "set is \<subseteq> {..<6}"
  shows "\<exists>m'. mac_loop clean is m = Inr m'"
  using assms(2)
proof (induction "is" arbitrary: m)
  case (Cons i "is")
  then have "slice_range clean (i * 2) (i * 2 + 2) = Inr (take 2 (drop (i * 2) clean))"
    using assms(1) by (simp add: slice_range_def)
  with Cons show ?case by simp
qed simp

lemma mac_loop_six: "length clean = 12 \<Longrightarrow> \<exists>m'. mac_loop clean [0..<6] m = Inr m'"
  by (rule mac_loop_total) auto

lemma mac_of_key_total: "\<exists>m. mac_of_key key = Inr m"
  by (simp add: mac_of_key_def Let_def mac_loop_six)

lemma six_elements: "length xs = 6 \<Longrightarrow> \<exists>a b c d e f. xs = [a, b, c, d, e, f]"
  by (auto simp: length_Suc_conv eval_nat_numeral)

lemma mac_of_text:
  assumes "filter is_ascii_hexdigit sep = []"
  shows "mac_of_key (''vm:'' @ mac_text sep (array_to_list m)) = Inr m"
proof -
  let ?bs = "array_to_list m" and ?part = "mac_text sep (array_to_list m)"
  have len: "length ?bs = 6" by simp
  have "12 \<le> length ?part" using length_mac_text [of ?bs sep] len by simp
  then have names: "\<not> eq_ignore_ascii_case ?part ''broadcast''" "\<not> eq_ignore_ascii_case ?part ''all''"
    by (auto dest: eq_ignore_ascii_case_length)
  have clean: "filter is_ascii_hexdigit ?part = concat (map hex_byte ?bs)"
    using assms by (rule filter_mac_text)
  have "length (concat (map hex_byte ?bs)) = 12"
    by simp
  moreover have "mac_loop (concat (map hex_byte ?bs)) [0..<6] (array_splat 0) = Inr m"
  proof -
    obtain a b c d e f where "?bs = [a, b, c, d, e, f]"
      using six_elements [OF len] by blast
    then have "array_to_list (fold (\<lambda>i m. array_set m i (?bs ! i)) [0..<6] (array_splat 0 :: (u8, 6) array)) = ?bs"
      by (simp add: upt_rec eval_nat_numeral)
    then have "fold (\<lambda>i m. array_set m i (?bs ! i)) [0..<6] (array_splat 0) = m"
      by (rule array_eqI)
    then show ?thesis using mac_loop_hex [OF len, of "[0..<6]"] by (simp add: atLeast0LessThan)
  qed
  ultimately show ?thesis
    using strip_prefix_append [of "''vm:''" ?part] names clean
    by (simp add: mac_of_key_def Let_def del: strip_prefix_append)
qed

section \<open>Handlers over any store\<close>

lemma respond_sel [simp]:
  "sv_node (respond f sv) = sv_node sv" "sv_serial_txs (respond f sv) = sv_serial_txs sv"
  "sv_responses (respond f sv) = sv_responses sv @ [f]" "sv_send_errors (respond f sv) = sv_send_errors sv"
  by (simp_all add: respond_def)

lemma forward_all_eq:
  "forward_all tx_send f txs =
     (map (\<lambda>tx. snd (tx_send tx f)) txs, length (filter (\<lambda>tx. \<not> fst (tx_send tx f)) txs))"
  by (induction txs) (auto split: prod.splits)

lemma forward_vm_eq:
  "mac_of_key key = Inr mac \<Longrightarrow>
   forward_vm tx_send key val sv =
     Inr (sv\<lparr>sv_serial_txs := map (\<lambda>tx. snd (tx_send tx (vm_frame mac val))) (sv_serial_txs sv),
            sv_send_errors := sv_send_errors sv +
              length (filter (\<lambda>tx. \<not> fst (tx_send tx (vm_frame mac val))) (sv_serial_txs sv))\<rparr>)"
  by (simp add: forward_vm_def forward_all_eq)

lemma vm_guard_None:
  "vm_guard en peer val = None \<longleftrightarrow>
     en \<and> (\<exists>addr. peer = Some addr \<and> is_loopback (ip addr)) \<and> length val \<le> 4096"
  by (auto simp: vm_guard_def split: option.splits)

context total_store
begin

lemma l2_get_total: "wf (node_storage n) \<Longrightarrow> \<exists>x n'. l2_get sha256 ops n k = Inr (x, n') \<and> wf (node_storage n')"
  using get_total [of "node_storage n" "sha256 k" "inc_db_gets (node_metrics n)"] record_value_total
  by (fastforce simp: l2_get_def Let_def res_simps split: option.splits)

lemma l2_put_total: "wf (node_storage n) \<Longrightarrow> \<exists>n'. l2_put sha256 ops n k v = Inr n' \<and> wf (node_storage n')"
  using apply_total [of "node_storage n" "kv_record sha256 k v"]
  by (auto simp: l2_put_def Let_def)

lemma store_and_ack_ok:
  assumes "wf (node_storage (sv_node sv))"
  shows "\<exists>sv'. store_and_ack sha256 ops key val sv = Inr sv' \<and> wf (node_storage (sv_node sv')) \<and>
    sv_responses sv' = sv_responses sv @ [SimpleString ''OK''] \<and> sv_serial_txs sv' = sv_serial_txs sv"
  using l2_put_total [OF assms, of sha256 "as_bytes key" val] by (auto simp: store_and_ack_def)

lemma handle_request_ok:
  assumes "wf (node_storage (sv_node sv))"
  shows "\<exists>sv' f. handle_request sha256 ops tx_send en worker req sv = Inr sv' \<and>
    wf (node_storage (sv_node sv')) \<and> sv_responses sv' = sv_responses sv @ [f]"
proof (cases "req_cmd req")
  case (Get key)
  with l2_get_total [OF assms, of sha256 "as_bytes key"] show ?thesis
    by (auto simp: handle_request_def handle_get_def Let_def split: option.splits)
next
  case (Put key val)
  obtain mac where mac: "mac_of_key key = Inr mac" using mac_of_key_total by blast
  obtain sv1 where sv1: "forward_vm tx_send key val sv = Inr sv1" "sv_node sv1 = sv_node sv"
    "sv_responses sv1 = sv_responses sv"
    by (simp add: forward_vm_eq [OF mac])
  have "\<exists>sv'. store_and_ack sha256 ops key val sv1 = Inr sv' \<and> wf (node_storage (sv_node sv')) \<and>
      sv_responses sv' = sv_responses sv @ [SimpleString ''OK'']"
    using store_and_ack_ok [of sv1 sha256 key val] assms sv1(2,3) by auto
  then show ?thesis
    using Put store_and_ack_ok [OF assms, of sha256 key val] assms sv1(1)
    by (auto simp: handle_request_def handle_put_def split: option.splits)
qed (auto simp: handle_request_def assms)

lemma serve_ok:
  assumes "wf (node_storage (sv_node sv))"
  shows "\<exists>sv' fs. serve sha256 ops tx_send en worker reqs sv = Inr sv' \<and>
    wf (node_storage (sv_node sv')) \<and> sv_responses sv' = sv_responses sv @ fs \<and> length fs = length reqs"
  using assms
proof (induction reqs arbitrary: sv)
  case Nil
  then show ?case by simp
next
  case (Cons req reqs)
  obtain sv1 f where sv1: "handle_request sha256 ops tx_send en worker req sv = Inr sv1"
    "wf (node_storage (sv_node sv1))" "sv_responses sv1 = sv_responses sv @ [f]"
    using handle_request_ok [OF Cons.prems] by blast
  obtain sv' fs where "serve sha256 ops tx_send en worker reqs sv1 = Inr sv'"
    "wf (node_storage (sv_node sv'))" "sv_responses sv' = sv_responses sv1 @ fs" "length fs = length reqs"
    using Cons.IH [OF sv1(2)] by blast
  with sv1(1,3) show ?case by (intro exI [of _ sv'] exI [of _ "f # fs"]) simp
qed

end

text \<open>A \<open>SET\<close> that is not forwarded and the \<open>GET\<close> that follows it.\<close>

lemma set_get_frames:
  assumes "\<not> starts_with key ''vm:'' \<or> sv_serial_txs sv = []"
    and "l2_put sha256 ops (sv_node sv) (as_bytes key) val = Inr n1" and "l2_get sha256 ops n1 (as_bytes key) = Inr (x, n2)"
  shows "\<exists>sv'. serve sha256 ops tx_send en worker
      [\<lparr>req_cmd = Put key val, req_peer_addr = p1\<rparr>, \<lparr>req_cmd = Get key, req_peer_addr = p2\<rparr>] sv = Inr sv' \<and>
    sv_responses sv' = sv_responses sv @ [SimpleString ''OK'', BulkString x]"
  using assms
  by (auto simp: handle_request_def handle_put_def handle_get_def store_and_ack_def Let_def split: option.splits)

lemma serve_append:
  "serve sha256 ops tx_send en worker (xs @ ys) sv =
     bind_res (serve sha256 ops tx_send en worker xs sv) (serve sha256 ops tx_send en worker ys)"
proof (induction xs arbitrary: sv)
  case (Cons x xs)
  then show ?case
    by (cases "handle_request sha256 ops tx_send en worker x sv") simp_all
qed simp

text \<open>Serial channels of a request: kept when scripts are disabled, and never added.\<close>

lemma store_and_ack_serial: "store_and_ack sha256 ops key val sv = Inr sv' \<Longrightarrow> sv_serial_txs sv' = sv_serial_txs sv"
  by (auto simp: store_and_ack_def res_simps)

lemma handle_request_serial:
  assumes "handle_request sha256 ops tx_send en worker req sv = Inr sv'"
    and "\<not> en \<or> sv_serial_txs sv = []"
  shows "sv_serial_txs sv' = sv_serial_txs sv"
proof (cases "req_cmd req")
  case (Put key val)
  with assms show ?thesis
    by (auto simp: handle_request_def handle_put_def vm_guard_def store_and_ack_serial
        split: if_splits option.splits)
qed (use assms(1) in \<open>auto simp: handle_request_def handle_get_def res_simps Let_def split: option.splits\<close>)

lemma serve_serial:
  "serve sha256 ops tx_send en worker reqs sv = Inr sv' \<Longrightarrow> \<not> en \<or> sv_serial_txs sv = [] \<Longrightarrow>
   sv_serial_txs sv' = sv_serial_txs sv"
proof (induction reqs arbitrary: sv)
  case (Cons req reqs)
  then obtain sv1 where sv1: "handle_request sha256 ops tx_send en worker req sv = Inr sv1"
    "serve sha256 ops tx_send en worker reqs sv1 = Inr sv'"
    by (auto simp: res_simps)
  with Cons.prems(2) Cons.IH [OF sv1(2)] handle_request_serial [OF sv1(1)] show ?case by simp
qed simp

context cached_store
begin

lemma set_then_get:
  assumes "wf (node_storage (sv_node sv))" and "\<not> starts_with key ''vm:'' \<or> sv_serial_txs sv = []"
  shows "\<exists>sv'. serve sha256 ops tx_send en worker
      [\<lparr>req_cmd = Put key val, req_peer_addr = p1\<rparr>, \<lparr>req_cmd = Get key, req_peer_addr = p2\<rparr>] sv = Inr sv' \<and>
    sv_responses sv' = sv_responses sv @ [SimpleString ''OK'', BulkString (Some val)]"
  using l2_put_get [OF assms(1), where k = "as_bytes key" and k' = "as_bytes key"] set_get_frames [OF assms(2)]
  by blast

text \<open>The same after any requests, each of which is answered.\<close>

lemma served_set_then_get:
  assumes wf: "wf (node_storage (sv_node sv))" and plain: "\<not> starts_with key ''vm:'' \<or> sv_serial_txs sv = []"
  shows "\<exists>sv' answers. serve sha256 ops tx_send en worker
      (reqs @ [\<lparr>req_cmd = Put key val, req_peer_addr = p1\<rparr>, \<lparr>req_cmd = Get key, req_peer_addr = p2\<rparr>]) sv = Inr sv' \<and>
    length answers = length reqs \<and>
    sv_responses sv' = sv_responses sv @ answers @ [SimpleString ''OK'', BulkString (Some val)]"
proof -
  obtain sv1 answers where sv1: "serve sha256 ops tx_send en worker reqs sv = Inr sv1" "wf (node_storage (sv_node sv1))"
    "sv_responses sv1 = sv_responses sv @ answers" "length answers = length reqs"
    using serve_ok [OF wf] by blast
  then have "\<not> starts_with key ''vm:'' \<or> sv_serial_txs sv1 = []"
    using plain serve_serial [OF sv1(1)] by auto
  from set_then_get [OF sv1(2) this] sv1(1,3,4) show ?thesis by (fastforce simp: serve_append)
qed

end

text \<open>On the mock store a \<open>SET\<close> is acknowledged and then not found.\<close>

lemma mock_set_then_get:
  assumes "\<not> starts_with key ''vm:'' \<or> sv_serial_txs sv = []"
  shows "\<exists>sv' answers. serve sha256 mock_store tx_send en worker
      (reqs @ [\<lparr>req_cmd = Put key val, req_peer_addr = p1\<rparr>, \<lparr>req_cmd = Get key, req_peer_addr = p2\<rparr>]) sv = Inr sv' \<and>
    length answers = length reqs \<and>
    sv_responses sv' = sv_responses sv @ answers @ [SimpleString ''OK'', BulkString None]"
proof -
  obtain sv1 answers where sv1: "serve sha256 mock_store tx_send en worker reqs sv = Inr sv1"
    "sv_responses sv1 = sv_responses sv @ answers" "length answers = length reqs"
    using mock.serve_ok [OF TrueI] by blast
  then have plain: "\<not> starts_with key ''vm:'' \<or> sv_serial_txs sv1 = []"
    using assms serve_serial [OF sv1(1)] by auto
  obtain n1 where "l2_put sha256 mock_store (sv_node sv1) (as_bytes key) val = Inr n1"
    using mock.l2_put_total [OF TrueI] by blast
  moreover have "\<exists>n2. l2_get sha256 mock_store n1 (as_bytes key) = Inr (None, n2)"
    by (simp add: l2_get_def mock_store_def Let_def)
  ultimately obtain n2 where "l2_put sha256 mock_store (sv_node sv1) (as_bytes key) val = Inr n1"
    "l2_get sha256 mock_store n1 (as_bytes key) = Inr (None, n2)" by blast
  from set_get_frames [OF plain this] sv1 show ?thesis by (fastforce simp: serve_append)
qed

section \<open>Properties\<close>

definition sample_server :: "('tx) list \<Rightarrow> ((mem_db, 64 word) tiered_store, 64 word, 'tx) server" where
  "sample_server txs = \<lparr>sv_node = sample_node (sample_tiered mem_empty), sv_serial_txs = txs,
     sv_responses = [], sv_send_errors = 0\<rparr>"

abbreviation sample_ops :: "((mem_db, 64 word) tiered_store, 64 word) state_store" where
  "sample_ops \<equiv> tiered_ops (mem_cddb 4) sample_sha sample_ahash mem_drain"

text \<open>A serial channel that records what was sent on it.\<close>

definition record_tx :: "gateway_frame list \<Rightarrow> gateway_frame \<Rightarrow> bool \<times> gateway_frame list" where
  "record_tx tx f = (True, tx @ [f])"

lemma sample_server_wf [simp]: "tiered_wf (node_storage (sv_node (sample_server txs)))"
  and sample_server_sel [simp]: "sv_serial_txs (sample_server txs) = txs" "sv_responses (sample_server txs) = []"
  by (simp_all add: sample_server_def)

text \<open>
  Every request that a worker takes from its channel is answered exactly once and no handler
  panics: serving a list of requests on a well-formed tiered store adds one response per
  request, in order, whatever the requests are and whatever the serial channels do.
\<close>

lemma serve_answers_each_request_once:
  assumes "tiered_wf (node_storage (sv_node sv))"
  shows "\<exists>sv' fs. serve sha256 (tiered_ops cd sha256 ahash background) tx_send en worker reqs sv = Inr sv' \<and>
    sv_responses sv' = sv_responses sv @ fs \<and> length fs = length reqs"
  using tiered.serve_ok [OF assms] by blast

text \<open>
  C2: The guard is the only way to a serial port: if a request changes any serial channel, then it
  was a \<open>SET\<close> of a \<open>vm:\<close> key, VM scripts are enabled, the peer address is known and is a
  loopback address, the script has at most 4096 bytes, and what each channel received is the
  one frame with opcode 0x40 followed by the script, addressed to the MAC of the key.
\<close>

theorem serial_traffic_only_from_guarded_scripts:
  assumes "handle_request sha256 ops tx_send en worker req sv = Inr sv'"
    and "sv_serial_txs sv' \<noteq> sv_serial_txs sv"
  shows "\<exists>key val addr mac. req_cmd req = Put key val \<and> starts_with key ''vm:'' \<and> en \<and>
    req_peer_addr req = Some addr \<and> is_loopback (ip addr) \<and> length val \<le> 4096 \<and>
    mac_of_key key = Inr mac \<and>
    sv_serial_txs sv' = map (\<lambda>tx. snd (tx_send tx \<lparr>mac_addr = mac, frame_payload = 0x40 # val\<rparr>)) (sv_serial_txs sv)"
proof -
  have keep: "sv_serial_txs s' = sv_serial_txs s" if "store_and_ack sha256 ops key val s = Inr s'" for key val s s'
    using that by (auto simp: store_and_ack_def res_simps)
  obtain key val where put: "req_cmd req = Put key val"
    using assms by (cases "req_cmd req")
      (auto simp: handle_request_def handle_get_def res_simps Let_def split: option.splits)
  then have h: "handle_put sha256 ops tx_send en (req_peer_addr req) key val sv = Inr sv'"
    using assms(1) by (simp add: handle_request_def)
  then have vm: "starts_with key ''vm:''" and guard: "vm_guard en (req_peer_addr req) val = None"
    using assms(2) keep by (auto simp: handle_put_def split: if_splits option.splits)
  moreover obtain mac where mac: "mac_of_key key = Inr mac" using mac_of_key_total by blast
  moreover have "sv_serial_txs sv' = map (\<lambda>tx. snd (tx_send tx (vm_frame mac val))) (sv_serial_txs sv)"
    using h vm guard forward_vm_eq [OF mac, of tx_send val sv] keep
    by (fastforce simp: handle_put_def split: if_splits)
  ultimately show ?thesis using put by (auto simp: vm_guard_None vm_frame_def)
qed

theorem serial_traffic_only_from_guarded_scripts_witness:
  "\<exists>sv'. handle_request sample_sha sample_ops record_tx True 0
       \<lparr>req_cmd = Put ''vm:all'' [9], req_peer_addr = Some \<lparr>ip = V4 127 0 0 1, port = 5000\<rparr>\<rparr> (sample_server [[]]) = Inr sv' \<and>
     sv_serial_txs sv' = [[\<lparr>mac_addr = array_splat 0xFF, frame_payload = [0x40, 9]\<rparr>]]"
proof -
  let ?req = "\<lparr>req_cmd = Put ''vm:all'' [9], req_peer_addr = Some \<lparr>ip = V4 127 0 0 1, port = 5000\<rparr>\<rparr>"
  obtain sv' where sv': "handle_request sample_sha sample_ops record_tx True 0 ?req (sample_server [[]]) = Inr sv'"
    using tiered.handle_request_ok [OF sample_server_wf] by blast
  have mac: "mac_of_key ''vm:all'' = Inr (array_splat 0xFF)"
    by (simp add: mac_of_key_def strip_prefix_def starts_with_def eq_ignore_ascii_case_def)
  have "vm_guard True (Some \<lparr>ip = V4 127 0 0 1, port = 5000\<rparr>) [9] = None" by (simp add: vm_guard_def)
  then have "sv_serial_txs sv' \<noteq> [[]]"
    using sv' forward_vm_eq [OF mac, of record_tx "[9]" "sample_server [[]]"]
    by (auto simp: handle_request_def handle_put_def starts_with_def store_and_ack_def res_simps record_tx_def)
  with serial_traffic_only_from_guarded_scripts [OF sv'] sv' mac show ?thesis by (auto simp: record_tx_def)
qed

text \<open>
  C24: A rejected VM script has no effect but its error: with serial ports configured, a \<open>SET\<close> of a
  \<open>vm:\<close> key is refused whenever scripts are disabled, the peer is unknown or not loopback, or
  the script is longer than 4096 bytes; then nothing is stored, broadcast, counted or
  forwarded, and the one response is an error.
\<close>

theorem rejected_script_changes_nothing:
  assumes "req_cmd req = Put key val" and "starts_with key ''vm:''" and "sv_serial_txs sv \<noteq> []"
    and "\<not> en \<or> req_peer_addr req = None \<or> \<not> is_loopback (ip (the (req_peer_addr req))) \<or> 4096 < length val"
  shows "\<exists>msg. handle_request sha256 ops tx_send en worker req sv =
    Inr (sv\<lparr>sv_responses := sv_responses sv @ [ErrorFrame msg]\<rparr>)"
proof -
  have "vm_guard en (req_peer_addr req) val \<noteq> None"
    using assms(4) by (auto simp: vm_guard_None)
  then show ?thesis
    using assms(1-3) by (auto simp: handle_request_def handle_put_def respond_def)
qed

theorem rejected_script_changes_nothing_witness:
  "\<exists>msg. handle_request sample_sha sample_ops record_tx True 0
     \<lparr>req_cmd = Put ''vm:all'' [9], req_peer_addr = Some \<lparr>ip = V4 10 0 0 1, port = 5000\<rparr>\<rparr> (sample_server [[]]) =
     Inr ((sample_server [[]])\<lparr>sv_responses := [ErrorFrame msg]\<rparr>)"
  using rejected_script_changes_nothing [of "\<lparr>req_cmd = Put ''vm:all'' [9], req_peer_addr = Some \<lparr>ip = V4 10 0 0 1, port = 5000\<rparr>\<rparr>"
      "''vm:all''" "[9]" "sample_server [[]]" True sample_sha sample_ops record_tx 0]
  by (simp add: starts_with_def)

text \<open>
  C33: MAC addresses round-trip: the key \<open>vm:\<close> followed by six bytes in hexadecimal, with any
  separator that contains no hex digit (or none) between them, addresses exactly those bytes.
\<close>

theorem mac_text_round_trip:
  assumes "filter is_ascii_hexdigit sep = []"
  shows "mac_of_key (''vm:'' @ mac_text sep (array_to_list m)) = Inr m"
  using assms by (rule mac_of_text)

theorem mac_text_round_trip_witness:
  "mac_of_key (''vm:'' @ mac_text '':'' (array_to_list (array_set (array_splat 0xAB) 2 0x07 :: (u8, 6) array))) =
     Inr (array_set (array_splat 0xAB) 2 0x07)"
  using mac_text_round_trip [of "'':''" "array_set (array_splat 0xAB) 2 0x07"]
  by (simp add: is_ascii_hexdigit_def del: append_Cons)

text \<open>
  A key whose text after \<open>vm:\<close> does not contain exactly twelve hex digits is not an error but
  a broadcast: the script goes to the address FF:FF:FF:FF:FF:FF, also when one digit of an intended
  address is missing. No key makes the parser panic.
\<close>

lemma malformed_mac_is_broadcast:
  "(\<exists>m. mac_of_key key = Inr m) \<and>
   (length (filter is_ascii_hexdigit target) \<noteq> 12 \<longrightarrow> mac_of_key (''vm:'' @ target) = Inr (array_splat 0xFF))"
  using mac_of_key_total strip_prefix_append [of "''vm:''" target]
  by (auto simp: mac_of_key_def Let_def simp del: strip_prefix_append)

end
