(* ===== verification/Snapshot.thy ===== *)
theory Snapshot
  imports Prelude "HOL-Library.AList"
begin

text \<open>
  The \<open>snapshot\<close> and \<open>restore\<close> subcommands at the start of \<open>main\<close> (src/src/main.rs), on a model of
  the parts of \<open>std::fs\<close> they use. A file system is an association list from resolved paths
  (lists of components) to nodes; its order is the order in which \<open>read_dir\<close> lists a directory,
  which the platform does not fix. How the operating system resolves the path strings that the
  program passes (working directory, \<open>.\<close> and links) is the parameter \<open>resolve\<close>. Shown: what each
  command copies and leaves alone, that a restore after a snapshot brings every file back, and
  what happens when the backup directory is the data directory itself.
\<close>

section \<open>The file system\<close>

type_synonym path = "string list"

datatype fs_node = File bytes | Dir

type_synonym fs = "(path \<times> fs_node) list"

definition is_dir :: "fs \<Rightarrow> path \<Rightarrow> bool" where
  "is_dir fs p \<longleftrightarrow> p = [] \<or> map_of fs p = Some Dir"

definition is_file :: "fs \<Rightarrow> path \<Rightarrow> bool" where
  "is_file fs p \<longleftrightarrow> (\<exists>c. map_of fs p = Some (File c))"

lemma is_file_code [code]:
  "is_file fs p = (case map_of fs p of Some (File c) \<Rightarrow> True | _ \<Rightarrow> False)"
  by (auto simp: is_file_def split: option.splits fs_node.splits)

definition path_exists :: "fs \<Rightarrow> path \<Rightarrow> bool" where
  "path_exists fs p \<longleftrightarrow> p = [] \<or> map_of fs p \<noteq> None"

text \<open>\<open>std::fs::create_dir_all\<close>: the second component says whether it succeeded.\<close>

fun mkdirs :: "path \<Rightarrow> path \<Rightarrow> fs \<Rightarrow> fs \<times> bool" where
  "mkdirs pre [] fs = (fs, True)"
| "mkdirs pre (c # cs) fs =
     (case map_of fs (pre @ [c]) of
        Some Dir \<Rightarrow> mkdirs (pre @ [c]) cs fs
      | Some (File _) \<Rightarrow> (fs, False)
      | None \<Rightarrow> mkdirs (pre @ [c]) cs (AList.update (pre @ [c]) Dir fs))"

definition create_dir_all :: "path \<Rightarrow> fs \<Rightarrow> fs \<times> bool" where
  "create_dir_all p fs = mkdirs [] p fs"

text \<open>\<open>std::fs::read_dir(p).unwrap()\<close>: the names of the entries.\<close>

definition read_dir :: "fs \<Rightarrow> path \<Rightarrow> string list res" where
  "read_dir fs p =
     (if is_dir fs p
      then Inr (map last (filter (\<lambda>q. q \<noteq> [] \<and> butlast q = p) (map fst fs)))
      else Inl Unwrap_On_Err)"

text \<open>
  \<open>std::fs::copy(src, dst).unwrap()\<close>. The destination is opened for writing and truncated before
  the first byte is read, so copying a file onto itself empties it (the documentation of
  \<open>std::fs::copy\<close> warns of this).
\<close>

definition copy_file :: "path \<Rightarrow> path \<Rightarrow> fs \<Rightarrow> fs res" where
  "copy_file src dst fs =
     (case map_of fs src of
        Some (File c) \<Rightarrow>
          if is_dir fs (butlast dst) \<and> map_of fs dst \<noteq> Some Dir
          then Inr (AList.update dst (File (if src = dst then [] else c)) fs)
          else Inl Unwrap_On_Err
      | _ \<Rightarrow> Inl Unwrap_On_Err)"

section \<open>The commands\<close>

text \<open>\<open>for i in 2..args.len() { if args[i] == flag && i + 1 < args.len() { dir = &args[i + 1] } }\<close>\<close>

fun option_loop :: "string \<Rightarrow> string list \<Rightarrow> nat list \<Rightarrow> string \<Rightarrow> string res" where
  "option_loop flag args [] dir = Inr dir"
| "option_loop flag args (i # is) dir =
     bind_res (index args i) (\<lambda>a.
       if a = flag \<and> i + 1 < length args
       then bind_res (index args (i + 1)) (\<lambda>d. option_loop flag args is d)
       else option_loop flag args is dir)"

text \<open>The copy loop over the entries of the source directory.\<close>

fun copy_entries :: "path \<Rightarrow> path \<Rightarrow> string list \<Rightarrow> fs \<Rightarrow> fs res" where
  "copy_entries src dst [] fs = Inr fs"
| "copy_entries src dst (n # ns) fs =
     (if is_file fs (src @ [n])
      then bind_res (copy_file (src @ [n]) (dst @ [n]) fs) (copy_entries src dst ns)
      else copy_entries src dst ns fs)"

definition snapshot_to :: "(string \<Rightarrow> path) \<Rightarrow> string \<Rightarrow> fs \<Rightarrow> fs res" where
  "snapshot_to resolve output_dir fs =
     (let fs1 = fst (create_dir_all (resolve output_dir) fs)
      in if path_exists fs1 (resolve ''data'')
         then bind_res (read_dir fs1 (resolve ''data''))
                (\<lambda>ns. copy_entries (resolve ''data'') (resolve output_dir) ns fs1)
         else Inr fs1)"

definition restore_from :: "(string \<Rightarrow> path) \<Rightarrow> string \<Rightarrow> fs \<Rightarrow> fs res" where
  "restore_from resolve input_dir fs =
     (let fs1 = fst (create_dir_all (resolve ''data'') fs)
      in if path_exists fs1 (resolve input_dir)
         then bind_res (read_dir fs1 (resolve input_dir))
                (\<lambda>ns. copy_entries (resolve input_dir) (resolve ''data'') ns fs1)
         else Inr fs1)"

text \<open>
  The dispatch at the start of \<open>main\<close>: \<open>Inr (Some fs)\<close> when a subcommand ran and \<open>main\<close> returned
  \<open>Ok(())\<close>, \<open>Inr None\<close> when the server starts.
\<close>

definition subcommand :: "(string \<Rightarrow> path) \<Rightarrow> string list \<Rightarrow> fs \<Rightarrow> fs option res" where
  "subcommand resolve args fs =
     (if length args \<ge> 2 \<and> args ! 1 = ''snapshot''
      then bind_res (option_loop ''--output'' args [2..<length args] ''data_backup'')
             (\<lambda>dir. bind_res (snapshot_to resolve dir fs) (\<lambda>fs'. Inr (Some fs')))
      else if length args \<ge> 2 \<and> args ! 1 = ''restore''
      then bind_res (option_loop ''--input'' args [2..<length args] ''data_backup'')
             (\<lambda>dir. bind_res (restore_from resolve dir fs) (\<lambda>fs'. Inr (Some fs')))
      else Inr None)"

section \<open>Lemmas\<close>

lemma mkdirs_keeps:
  "map_of fs q = Some x \<Longrightarrow> map_of (fst (mkdirs pre p fs)) q = Some x"
proof (induction pre p fs rule: mkdirs.induct)
  case (2 pre c cs fs)
  then have "map_of fs (pre @ [c]) = None \<Longrightarrow> q \<noteq> pre @ [c]" by auto
  with 2 show ?case by (simp add: update_conv' split: option.splits fs_node.splits)
qed simp

lemma mkdirs_new:
  "map_of (fst (mkdirs pre p fs)) q = Some (File c) \<Longrightarrow> map_of fs q = Some (File c)"
  by (induction pre p fs rule: mkdirs.induct)
    (auto simp: update_conv' split: option.splits fs_node.splits if_splits)

lemma mkdirs_dir:
  "snd (mkdirs pre p fs) \<Longrightarrow> p \<noteq> [] \<Longrightarrow> map_of (fst (mkdirs pre p fs)) (pre @ p) = Some Dir"
proof (induction pre p fs rule: mkdirs.induct)
  case (2 pre c cs fs)
  show ?case
  proof (cases "cs = []")
    case True
    with 2 show ?thesis
      by (auto simp: update_conv' split: option.splits fs_node.splits)
  next
    case False
    with 2 show ?thesis by (auto split: option.splits fs_node.splits)
  qed
qed simp

lemma create_dir_all_file:
  "map_of (fst (create_dir_all p fs)) q = Some (File c) \<longleftrightarrow> map_of fs q = Some (File c)"
  unfolding create_dir_all_def by (blast intro: mkdirs_keeps mkdirs_new)

lemma create_dir_all_is_file [simp]: "is_file (fst (create_dir_all p fs)) q \<longleftrightarrow> is_file fs q"
  by (simp add: is_file_def create_dir_all_file)

lemma create_dir_all_is_dir: "is_dir fs q \<Longrightarrow> is_dir (fst (create_dir_all p fs)) q"
  unfolding is_dir_def create_dir_all_def by (auto intro: mkdirs_keeps)

lemma create_dir_all_ok: "snd (create_dir_all p fs) \<Longrightarrow> is_dir (fst (create_dir_all p fs)) p"
  unfolding is_dir_def create_dir_all_def using mkdirs_dir [of "[]" p fs] by auto

lemma set_read_dir:
  assumes "read_dir fs p = Inr ns"
  shows "n \<in> set ns \<longleftrightarrow> map_of fs (p @ [n]) \<noteq> None"
proof -
  have snoc: "q \<noteq> [] \<and> butlast q = p \<and> last q = n \<longleftrightarrow> q = p @ [n]" for q :: path
    using snoc_eq_iff_butlast [of p n q] by metis
  have listed: "n \<in> set (map last (filter P qs)) \<longleftrightarrow> (\<exists>q \<in> set qs. P q \<and> last q = n)"
    for P :: "path \<Rightarrow> bool" and qs by auto
  have "ns = map last (filter (\<lambda>q. q \<noteq> [] \<and> butlast q = p) (map fst fs))"
    using assms by (simp add: read_dir_def split: if_splits)
  then have "n \<in> set ns \<longleftrightarrow> (\<exists>q \<in> set (map fst fs). q \<noteq> [] \<and> butlast q = p \<and> last q = n)"
    by (simp only: listed conj_assoc)
  also have "\<dots> \<longleftrightarrow> p @ [n] \<in> set (map fst fs)" unfolding snoc by blast
  finally show ?thesis by (simp add: map_of_eq_None_iff)
qed

text \<open>The copy loop between two different directories: exactly the files named are copied.\<close>

lemma copy_entries_ok:
  assumes "src \<noteq> dst" and "is_dir fs dst"
    and "\<And>n. n \<in> set ns \<Longrightarrow> is_file fs (src @ [n]) \<Longrightarrow> map_of fs (dst @ [n]) \<noteq> Some Dir"
  shows "\<exists>fs'. copy_entries src dst ns fs = Inr fs' \<and>
    (\<forall>p. map_of fs' p = (if \<exists>n \<in> set ns. p = dst @ [n] \<and> is_file fs (src @ [n])
                         then map_of fs (src @ [last p]) else map_of fs p))"
  using assms(2,3)
proof (induction ns arbitrary: fs)
  case Nil
  then show ?case by simp
next
  case (Cons n ns)
  show ?case
  proof (cases "is_file fs (src @ [n])")
    case False
    with Cons.IH [of fs] Cons.prems show ?thesis by auto
  next
    case True
    then obtain c where c: "map_of fs (src @ [n]) = Some (File c)" by (auto simp: is_file_def)
    let ?fs = "AList.update (dst @ [n]) (File c) fs"
    have other: "map_of ?fs p = (if p = dst @ [n] then Some (File c) else map_of fs p)" for p
      by (simp add: update_conv')
    have copied: "copy_file (src @ [n]) (dst @ [n]) fs = Inr ?fs"
      using c Cons.prems True assms(1) by (auto simp: copy_file_def)
    have src: "map_of ?fs (src @ [m]) = map_of fs (src @ [m])" for m
      using assms(1) by (simp add: other)
    then have files: "is_file ?fs (src @ [m]) \<longleftrightarrow> is_file fs (src @ [m])" for m
      by (simp add: is_file_def)
    have "is_dir ?fs dst" using Cons.prems(1) by (auto simp: is_dir_def other)
    moreover have "map_of ?fs (dst @ [m]) \<noteq> Some Dir" if "m \<in> set ns" "is_file ?fs (src @ [m])" for m
      using that Cons.prems(2) [of m] files by (auto simp: other)
    ultimately obtain fs' where fs': "copy_entries src dst ns ?fs = Inr fs'"
      "\<And>p. map_of fs' p = (if \<exists>n \<in> set ns. p = dst @ [n] \<and> is_file ?fs (src @ [n])
             then map_of ?fs (src @ [last p]) else map_of ?fs p)"
      using Cons.IH [of ?fs] by blast
    have "map_of fs' p = (if \<exists>m \<in> set (n # ns). p = dst @ [m] \<and> is_file fs (src @ [m])
        then map_of fs (src @ [last p]) else map_of fs p)" for p
      using True c by (auto simp: fs'(2) files src other)
    with True copied fs'(1) show ?thesis by simp
  qed
qed

lemma mkdirs_longer:
  "length (pre @ p) < length q \<Longrightarrow> map_of (fst (mkdirs pre p fs)) q = map_of fs q"
  by (induction pre p fs rule: mkdirs.induct)
    (auto simp: update_conv' split: option.splits fs_node.splits)

lemma create_dir_all_entry [simp]: "map_of (fst (create_dir_all p fs)) (p @ [n]) = map_of fs (p @ [n])"
  by (simp add: create_dir_all_def mkdirs_longer)

lemma is_dir_exists: "is_dir fs p \<Longrightarrow> path_exists fs p"
  by (auto simp: is_dir_def path_exists_def)

text \<open>
  What both commands do once the target directory could be created: \<open>no_clash\<close> says that no file to
  be copied meets a directory of its own name.
\<close>

definition no_clash :: "path \<Rightarrow> path \<Rightarrow> fs \<Rightarrow> bool" where
  "no_clash src dst fs \<longleftrightarrow> (\<forall>n. is_file fs (src @ [n]) \<longrightarrow> map_of fs (dst @ [n]) \<noteq> Some Dir)"

definition copied_over :: "path \<Rightarrow> path \<Rightarrow> fs \<Rightarrow> path \<Rightarrow> fs_node option" where
  "copied_over src dst fs p =
     (if p \<noteq> [] \<and> butlast p = dst \<and> is_file fs (src @ [last p])
      then map_of fs (src @ [last p]) else map_of (fst (create_dir_all dst fs)) p)"

lemma copy_directory:
  assumes "src \<noteq> dst" and "is_dir fs src" and "snd (create_dir_all dst fs)" and "no_clash src dst fs"
  defines "fs1 \<equiv> fst (create_dir_all dst fs)"
  shows "\<exists>fs'. bind_res (read_dir fs1 src) (\<lambda>ns. copy_entries src dst ns fs1) = Inr fs' \<and>
    map_of fs' = copied_over src dst fs"
proof -
  have "is_dir fs1 src" using assms(2) by (simp add: fs1_def create_dir_all_is_dir)
  then obtain ns where ns: "read_dir fs1 src = Inr ns" by (simp add: read_dir_def)
  have "is_dir fs1 dst" using assms(3) by (simp add: fs1_def create_dir_all_ok)
  moreover have "map_of fs1 (dst @ [n]) \<noteq> Some Dir" if "is_file fs1 (src @ [n])" for n
    using that assms(4) by (simp add: fs1_def no_clash_def)
  ultimately obtain fs' where fs': "copy_entries src dst ns fs1 = Inr fs'"
    "\<And>p. map_of fs' p = (if \<exists>n \<in> set ns. p = dst @ [n] \<and> is_file fs1 (src @ [n])
           then map_of fs1 (src @ [last p]) else map_of fs1 p)"
    using copy_entries_ok [OF assms(1), of fs1 ns] by blast
  have listed: "n \<in> set ns" if "is_file fs (src @ [n])" for n
    using that set_read_dir [OF ns, of n] create_dir_all_is_file [of dst fs "src @ [n]"]
    by (auto simp: fs1_def is_file_def)
  have same: "map_of fs1 (src @ [n]) = map_of fs (src @ [n])" if "is_file fs (src @ [n])" for n
    using that by (auto simp: fs1_def is_file_def create_dir_all_file)
  have snoc: "p = dst @ [n] \<longleftrightarrow> p \<noteq> [] \<and> butlast p = dst \<and> n = last p" for p n
    by (metis snoc_eq_iff_butlast)
  have "map_of fs' p = copied_over src dst fs p" for p
  proof (cases "p \<noteq> [] \<and> butlast p = dst \<and> is_file fs (src @ [last p])")
    case True
    then show ?thesis using listed [of "last p"] same [of "last p"]
      by (auto simp: fs'(2) snoc copied_over_def fs1_def)
  next
    case False
    then show ?thesis by (auto simp: fs'(2) snoc copied_over_def fs1_def)
  qed
  then show ?thesis using ns fs'(1) by auto
qed

lemma snapshot_to_ok:
  assumes "resolve ''data'' \<noteq> resolve out" and "is_dir fs (resolve ''data'')"
    and "snd (create_dir_all (resolve out) fs)" and "no_clash (resolve ''data'') (resolve out) fs"
  shows "\<exists>fs'. snapshot_to resolve out fs = Inr fs' \<and>
    map_of fs' = copied_over (resolve ''data'') (resolve out) fs"
  using copy_directory [OF assms] is_dir_exists [OF create_dir_all_is_dir [OF assms(2)]]
  by (simp add: snapshot_to_def Let_def)

lemma restore_from_ok:
  assumes "resolve inp \<noteq> resolve ''data''" and "is_dir fs (resolve inp)"
    and "snd (create_dir_all (resolve ''data'') fs)" and "no_clash (resolve inp) (resolve ''data'') fs"
  shows "\<exists>fs'. restore_from resolve inp fs = Inr fs' \<and>
    map_of fs' = copied_over (resolve inp) (resolve ''data'') fs"
  using copy_directory [OF assms] is_dir_exists [OF create_dir_all_is_dir [OF assms(2)]]
  by (simp add: restore_from_def Let_def)

lemma copied_over_file:
  "is_file fs (src @ [n]) \<Longrightarrow> copied_over src dst fs (dst @ [n]) = map_of fs (src @ [n])"
  by (simp add: copied_over_def)

lemma copied_over_other_file:
  "p \<noteq> [] \<Longrightarrow> butlast p \<noteq> dst \<or> \<not> is_file fs (src @ [last p]) \<Longrightarrow>
   copied_over src dst fs p = Some (File c) \<longleftrightarrow> map_of fs p = Some (File c)"
  by (auto simp: copied_over_def create_dir_all_file)

text \<open>The flag loop: every index is in range and the last flag with a value decides.\<close>

lemma option_loop_last:
  "\<forall>i \<in> set is. i < length args \<Longrightarrow>
   option_loop flag args is dir =
     Inr (last (dir # map (\<lambda>i. args ! (i + 1))
                        (filter (\<lambda>i. args ! i = flag \<and> i + 1 < length args) is)))"
  by (induction "is" arbitrary: dir) (auto simp: index_def)

text \<open>The copy loop on one and the same directory empties every file it meets.\<close>

lemma copy_entries_self:
  assumes "is_dir fs d"
  shows "\<exists>fs'. copy_entries d d ns fs = Inr fs' \<and>
    (\<forall>p. map_of fs' p = (if \<exists>n \<in> set ns. p = d @ [n] \<and> is_file fs p then Some (File []) else map_of fs p))"
  using assms
proof (induction ns arbitrary: fs)
  case Nil
  then show ?case by simp
next
  case (Cons n ns)
  show ?case
  proof (cases "is_file fs (d @ [n])")
    case False
    with Cons.IH [OF Cons.prems] show ?thesis by auto
  next
    case True
    let ?fs = "AList.update (d @ [n]) (File []) fs"
    have other: "map_of ?fs p = (if p = d @ [n] then Some (File []) else map_of fs p)" for p
      by (simp add: update_conv')
    have copied: "copy_file (d @ [n]) (d @ [n]) fs = Inr ?fs"
      using True Cons.prems by (auto simp: copy_file_def is_file_def)
    have dir: "is_dir ?fs d" using Cons.prems by (auto simp: is_dir_def other)
    have files: "is_file ?fs p \<longleftrightarrow> is_file fs p" for p
      using True by (simp add: is_file_def other)
    show ?thesis
      using Cons.IH [OF dir] True copied by (auto simp: other files)
  qed
qed

lemma copy_entries_no_target:
  assumes "\<not> is_dir fs dst" and "n \<in> set ns" and "is_file fs (src @ [n])"
  shows "copy_entries src dst ns fs = Inl Unwrap_On_Err"
  using assms(2)
  by (induction ns) (use assms in \<open>auto simp: copy_file_def is_file_def\<close>)

section \<open>Properties\<close>

text \<open>A resolver for the examples: every path string names one directory below the root.\<close>

definition sample_resolve :: "string \<Rightarrow> path" where
  "sample_resolve s = [s]"

definition sample_fs :: fs where
  "sample_fs = [([''data''], Dir), ([''data'', ''a.wal''], File [1, 2]), ([''data'', ''sub''], Dir),
     ([''data'', ''sub'', ''x''], File [9]), ([''data'', ''b''], File [3])]"

text \<open>
  \<open>server_go snapshot\<close> with an output directory that is not the data directory (and which can be
  created, and holds no subdirectory named like a data file) completes without a panic: every file
  directly in \<open>data\<close> is in the output directory with the same content, and no other file of the
  file system has changed, appeared or gone -- the data directory included.
\<close>

lemma snapshot_copies_every_file:
  assumes "args = [prog, ''snapshot'', ''--output'', out]"
    and "resolve ''data'' \<noteq> resolve out" and "is_dir fs (resolve ''data'')"
    and "snd (create_dir_all (resolve out) fs)" and "no_clash (resolve ''data'') (resolve out) fs"
  shows "\<exists>fs'. subcommand resolve args fs = Inr (Some fs') \<and>
    (\<forall>n c. map_of fs (resolve ''data'' @ [n]) = Some (File c) \<longrightarrow>
           map_of fs' (resolve out @ [n]) = Some (File c)) \<and>
    (\<forall>p c. p \<noteq> [] \<and> (butlast p \<noteq> resolve out \<or> \<not> is_file fs (resolve ''data'' @ [last p])) \<longrightarrow>
           (map_of fs' p = Some (File c) \<longleftrightarrow> map_of fs p = Some (File c)))"
proof -
  obtain fs' where fs': "snapshot_to resolve out fs = Inr fs'"
    "map_of fs' = copied_over (resolve ''data'') (resolve out) fs"
    using snapshot_to_ok [OF assms(2-5)] by blast
  have "option_loop ''--output'' args [2..<length args] ''data_backup'' = Inr out"
    by (simp add: assms(1) index_def upt_rec)
  then have "subcommand resolve args fs = Inr (Some fs')"
    using assms(1) fs'(1) by (simp add: subcommand_def)
  then show ?thesis
    using copied_over_file [of fs "resolve ''data''"] copied_over_other_file [of _ "resolve out" fs]
    by (auto simp: fs'(2) is_file_def)
qed

text \<open>
  C22: Restore undoes whatever happened to the data directory since the snapshot: let \<open>fs1\<close> be the
  file system after a snapshot of \<open>fs\<close>, and \<open>fs2\<close> any later one in which the backup directory still
  holds what it held in \<open>fs1\<close>. Then \<open>restore\<close> completes without a panic and every file that was
  directly in \<open>data\<close> when the snapshot was taken has its content back.
\<close>

theorem restore_after_snapshot:
  assumes "resolve ''data'' \<noteq> resolve dir" and "is_dir fs (resolve ''data'')"
    and "snd (create_dir_all (resolve dir) fs)" and "no_clash (resolve ''data'') (resolve dir) fs"
    and snap: "subcommand resolve [prog, ''snapshot'', ''--output'', dir] fs = Inr (Some fs1)"
    and backup: "is_dir fs2 (resolve dir)" "\<forall>n. map_of fs2 (resolve dir @ [n]) = map_of fs1 (resolve dir @ [n])"
    and data: "snd (create_dir_all (resolve ''data'') fs2)" "no_clash (resolve dir) (resolve ''data'') fs2"
  shows "\<exists>fs3. subcommand resolve [prog, ''restore'', ''--input'', dir] fs2 = Inr (Some fs3) \<and>
    (\<forall>n c. map_of fs (resolve ''data'' @ [n]) = Some (File c) \<longrightarrow>
           map_of fs3 (resolve ''data'' @ [n]) = Some (File c))"
proof -
  have flags: "option_loop f [prog, cmd, f, dir] [2..<length [prog, cmd, f, dir]] d = Inr dir" for f cmd d
    by (simp add: index_def upt_rec)
  obtain fs' where fs': "snapshot_to resolve dir fs = Inr fs'"
    "map_of fs' = copied_over (resolve ''data'') (resolve dir) fs"
    using snapshot_to_ok [OF assms(1-4)] by blast
  then have fs1: "map_of fs1 = copied_over (resolve ''data'') (resolve dir) fs"
    using snap flags [of _ "''--output''"] by (simp add: subcommand_def)
  obtain fs3 where fs3: "restore_from resolve dir fs2 = Inr fs3"
    "map_of fs3 = copied_over (resolve dir) (resolve ''data'') fs2"
    using restore_from_ok [OF assms(1) [symmetric] backup(1) data] by blast
  have "map_of fs3 (resolve ''data'' @ [n]) = Some (File c)"
    if "map_of fs (resolve ''data'' @ [n]) = Some (File c)" for n c
    using that backup(2) copied_over_file [of fs "resolve ''data''" n "resolve dir"]
      copied_over_file [of fs2 "resolve dir" n "resolve ''data''"]
    by (simp add: fs1 fs3(2) is_file_def)
  then show ?thesis
    using fs3(1) flags [of _ "''--input''"] by (simp add: subcommand_def)
qed

definition sample_snapshot :: fs where
  "sample_snapshot = (case snapshot_to sample_resolve ''bak'' sample_fs of Inr fs \<Rightarrow> fs | Inl _ \<Rightarrow> [])"

theorem restore_after_snapshot_witness:
  "\<exists>fs3. subcommand sample_resolve [''server_go'', ''restore'', ''--input'', ''bak'']
           (AList.update [''data'', ''b''] (File []) sample_snapshot) = Inr (Some fs3) \<and>
         map_of fs3 [''data'', ''b''] = Some (File [3])"
proof -
  let ?fs2 = "AList.update [''data'', ''b''] (File []) sample_snapshot"
  have snap: "sample_snapshot = sample_fs @ [([''bak''], Dir), ([''bak'', ''a.wal''], File [1, 2]), ([''bak'', ''b''], File [3])]"
    by code_simp
  have run: "subcommand sample_resolve [''server_go'', ''snapshot'', ''--output'', ''bak''] sample_fs
       = Inr (Some sample_snapshot)"
    by code_simp
  have "no_clash (sample_resolve ''data'') (sample_resolve ''bak'') sample_fs"
    "no_clash (sample_resolve ''bak'') (sample_resolve ''data'') ?fs2"
    by (auto simp: no_clash_def sample_resolve_def sample_fs_def snap is_file_def split: if_splits)
  then have "\<exists>fs3. subcommand sample_resolve [''server_go'', ''restore'', ''--input'', ''bak''] ?fs2 = Inr (Some fs3) \<and>
    (\<forall>n c. map_of sample_fs (sample_resolve ''data'' @ [n]) = Some (File c) \<longrightarrow>
           map_of fs3 (sample_resolve ''data'' @ [n]) = Some (File c))"
    by (intro restore_after_snapshot [OF _ _ _ _ run])
      (auto simp: sample_resolve_def sample_fs_def snap is_dir_def create_dir_all_def)
  then show ?thesis by (auto simp: sample_resolve_def sample_fs_def)
qed

text \<open>
  C34: A snapshot whose output directory is the data directory itself (\<open>--output data\<close>, or any other
  spelling of that path) reports success and leaves every file directly in \<open>data\<close> empty, because
  \<open>std::fs::copy\<close> truncates its destination before it reads the source; nothing compares the two
  paths. All other entries stay as they are.
\<close>

theorem snapshot_onto_itself_empties_the_data:
  assumes "resolve out = resolve ''data''" and "is_dir fs (resolve ''data'')"
  shows "\<exists>fs'. subcommand resolve [prog, ''snapshot'', ''--output'', out] fs = Inr (Some fs') \<and>
    (\<forall>n. is_file fs (resolve ''data'' @ [n]) \<longrightarrow> map_of fs' (resolve ''data'' @ [n]) = Some (File []))"
proof -
  let ?d = "resolve ''data''" and ?fs1 = "fst (create_dir_all (resolve ''data'') fs)"
  have dir: "is_dir ?fs1 ?d" using assms(2) by (rule create_dir_all_is_dir)
  then obtain ns where ns: "read_dir ?fs1 ?d = Inr ns" by (simp add: read_dir_def)
  obtain fs' where fs': "copy_entries ?d ?d ns ?fs1 = Inr fs'"
    "\<And>p. map_of fs' p = (if \<exists>n \<in> set ns. p = ?d @ [n] \<and> is_file ?fs1 p then Some (File [])
           else map_of ?fs1 p)"
    using copy_entries_self [OF dir, of ns] by blast
  have "snapshot_to resolve out fs = Inr fs'"
    using fs'(1) ns is_dir_exists [OF dir] by (simp add: snapshot_to_def assms(1) Let_def)
  moreover have "n \<in> set ns" if "is_file fs (?d @ [n])" for n
    using that set_read_dir [OF ns, of n] by (auto simp: is_file_def)
  ultimately show ?thesis
    by (auto simp: fs'(2) subcommand_def index_def upt_rec)
qed

theorem snapshot_onto_itself_empties_the_data_witness:
  "\<exists>fs'. subcommand sample_resolve [''server_go'', ''snapshot'', ''--output'', ''data''] sample_fs
       = Inr (Some fs') \<and>
     map_of fs' [''data'', ''a.wal''] = Some (File []) \<and> map_of fs' [''data'', ''b''] = Some (File [])"
  using snapshot_onto_itself_empties_the_data [of sample_resolve "''data''" sample_fs "''server_go''"]
  by (auto simp: sample_resolve_def sample_fs_def is_dir_def is_file_def)

text \<open>
  The loop over the arguments never indexes out of range, whatever the command line: of all
  positions that hold the flag and are followed by another argument, the last one decides, and
  without any the directory is \<open>data_backup\<close>.
\<close>

lemma subcommand_directory:
  assumes "length args \<ge> 2" and "args ! 1 = ''snapshot''"
  shows "subcommand resolve args fs =
    bind_res (snapshot_to resolve
                (last (''data_backup'' #
                   [args ! (i + 1). i \<leftarrow> [2..<length args], args ! i = ''--output'' \<and> i + 1 < length args])) fs)
      (\<lambda>fs'. Inr (Some fs'))"
proof -
  have "[args ! (i + 1). i \<leftarrow> is, P i] = map (\<lambda>i. args ! (i + 1)) (filter P is)" for P "is"
    by (induction "is") auto
  then show ?thesis
    using assms option_loop_last [of "[2..<length args]" args] by (simp add: subcommand_def)
qed

text \<open>
  The result of \<open>create_dir_all\<close> is dropped, so a snapshot whose output path cannot become a
  directory only fails at the first file to copy, by the panic of \<open>copy(..).unwrap()\<close>.
\<close>

lemma snapshot_without_target_panics:
  assumes "\<not> is_dir (fst (create_dir_all (resolve out) fs)) (resolve out)"
    and "is_dir fs (resolve ''data'')" and "is_file fs (resolve ''data'' @ [n])"
  shows "subcommand resolve [prog, ''snapshot'', ''--output'', out] fs = Inl Unwrap_On_Err"
proof -
  let ?fs1 = "fst (create_dir_all (resolve out) fs)"
  have dir: "is_dir ?fs1 (resolve ''data'')" using assms(2) by (rule create_dir_all_is_dir)
  then obtain ns where ns: "read_dir ?fs1 (resolve ''data'') = Inr ns" by (simp add: read_dir_def)
  have entry: "is_file ?fs1 (resolve ''data'' @ [n])" using assms(3) by simp
  then have "n \<in> set ns" using set_read_dir [OF ns, of n] by (auto simp: is_file_def)
  from copy_entries_no_target [OF assms(1) this entry]
  show ?thesis
    using ns is_dir_exists [OF dir]
    by (simp add: subcommand_def snapshot_to_def Let_def index_def upt_rec)
qed

end
