(* ===== verification/Startup.thy ===== *)
theory Startup
  imports Gateway Snapshot
begin

text \<open>
  From the command line and the settings to a serving node: the first half of \<open>main\<close>
  (src/src/main.rs) after the snapshot and restore commands, and the settings structures with
  their defaults. The settings file is a record of optional values that the \<open>serde\<close> defaults
  complete. What belongs to other crates is a parameter: \<open>new_std\<close> opens the database, \<open>parse_pk\<close>
  parses a peer key, \<open>open_serial\<close> starts a serial driver. The telemetry server and the network
  endpoint only matter here by failing to come up; the library of the system call filter is a record of
  its allow lists and the call that installs a filter.
  Shown: what two nodes on one data directory share, and which part the settings have in the
  store. The properties of the whole server are in the root theory.
\<close>

section \<open>Settings\<close>

record security_settings =
  enable_vm_scripts :: bool

text \<open>Of the telemetry settings, which belong to another crate, the two fields this program sets.\<close>

record telemetry_settings =
  tel_server_enabled :: bool
  tel_server_addr :: socket_addr

record server_settings =
  st_port :: u16
  st_bind :: string
  st_id :: u8
  st_budget :: usize
  st_trust_mode :: string
  st_control_mode :: string
  st_peer :: "string option"
  st_serial_port :: "string option"
  st_serial_ports :: "string list"
  st_telemetry :: telemetry_settings
  st_security :: security_settings

definition default_port :: u16 where "default_port = 6379"
definition default_bind :: string where "default_bind = ''127.0.0.1''"
definition default_id :: u8 where "default_id = 1"
definition default_budget :: usize where "default_budget = 512"
definition default_trust_mode :: string where "default_trust_mode = ''localized''"
definition default_control_mode :: string where "default_control_mode = ''competitive''"
definition default_telemetry :: telemetry_settings where
  "default_telemetry = \<lparr>tel_server_enabled = True, tel_server_addr = \<lparr>ip = V4 127 0 0 1, port = 8080\<rparr>\<rparr>"
definition default_false :: bool where "default_false = False"

text \<open>The settings as they are read: a field that is absent is \<open>None\<close>.\<close>

record settings_file =
  sf_port :: "u16 option"
  sf_bind :: "string option"
  sf_id :: "u8 option"
  sf_budget :: "usize option"
  sf_trust_mode :: "string option"
  sf_control_mode :: "string option"
  sf_peer :: "string option"
  sf_serial_port :: "string option"
  sf_serial_ports :: "string list option"
  sf_telemetry :: "telemetry_settings option"
  sf_security :: "bool option option"

definition or_default :: "'a option \<Rightarrow> 'a \<Rightarrow> 'a" where
  "or_default x d = (case x of Some v \<Rightarrow> v | None \<Rightarrow> d)"

definition load_security :: "bool option option \<Rightarrow> security_settings" where
  "load_security sec =
     (case sec of
        None \<Rightarrow> \<lparr>enable_vm_scripts = default_false\<rparr>
      | Some e \<Rightarrow> \<lparr>enable_vm_scripts = or_default e default_false\<rparr>)"

definition load_settings :: "settings_file \<Rightarrow> server_settings" where
  "load_settings sf =
     \<lparr>st_port = or_default (sf_port sf) default_port,
      st_bind = or_default (sf_bind sf) default_bind,
      st_id = or_default (sf_id sf) default_id,
      st_budget = or_default (sf_budget sf) default_budget,
      st_trust_mode = or_default (sf_trust_mode sf) default_trust_mode,
      st_control_mode = or_default (sf_control_mode sf) default_control_mode,
      st_peer = sf_peer sf,
      st_serial_port = sf_serial_port sf,
      st_serial_ports = or_default (sf_serial_ports sf) [],
      st_telemetry = or_default (sf_telemetry sf) default_telemetry,
      st_security = load_security (sf_security sf)\<rparr>"

section \<open>Governance modes and identities\<close>

datatype trust_mode = Full | Localized
datatype control_mode = Strict | Competitive

text \<open>
  \<open>match s.to_lowercase().as_str() { "full" => .., _ => .. }\<close>. Lower-casing ASCII letters only
  decides the same: the one character outside ASCII whose lower case is a single ASCII letter is
  the Kelvin sign, and neither word has a \<open>k\<close>.
\<close>

definition parse_trust_mode :: "string \<Rightarrow> trust_mode" where
  "parse_trust_mode s = (if map to_ascii_lowercase s = ''full'' then Full else Localized)"

definition parse_control_mode :: "string \<Rightarrow> control_mode" where
  "parse_control_mode s = (if map to_ascii_lowercase s = ''strict'' then Strict else Competitive)"

definition server_namespace :: hash32 where
  "server_namespace = array_splat 0xAA"

definition local_id_bytes :: "server_settings \<Rightarrow> hash32" where
  "local_id_bytes st = array_set (array_splat 0) 0 (st_id st)"

text \<open>\<open>format!("server_go.node_{}", id)\<close> and \<open>format!("data/server_go.node_{}.wal", id)\<close>.\<close>

definition partition_name :: "u8 \<Rightarrow> string" where
  "partition_name n = ''server_go.node_'' @ decimal (unat n)"

definition wal_name :: "u8 \<Rightarrow> string" where
  "wal_name n = ''data/server_go.node_'' @ decimal (unat n) @ ''.wal''"

record genesis_config =
  gc_namespace :: hash32
  gc_founder_id :: hash32
  gc_initial_stake :: u64
  gc_epoch_duration :: u64
  gc_trust_mode :: trust_mode
  gc_control_mode :: control_mode
  gc_genesis_url :: "string option"
  gc_wal_path :: "string option"

definition genesis_cfg :: "server_settings \<Rightarrow> genesis_config" where
  "genesis_cfg st =
     \<lparr>gc_namespace = server_namespace, gc_founder_id = local_id_bytes st, gc_initial_stake = 100,
      gc_epoch_duration = 1000, gc_trust_mode = parse_trust_mode (st_trust_mode st),
      gc_control_mode = parse_control_mode (st_control_mode st), gc_genesis_url = None,
      gc_wal_path = None\<rparr>"

section \<open>Bringing up the node\<close>

definition start_tiered ::
  "('db, 'qs) cddb \<Rightarrow> (string option \<Rightarrow> 'db) \<Rightarrow> server_settings \<Rightarrow> ('db, 'e::len word) tiered_store res" where
  "start_tiered cd new_std st =
     tiered_new cd server_namespace (st_budget st) (new_std (Some ''data'')) tls_init
       (partition_name (st_id st)) (Some (wal_name (st_id st)))"

definition start_pure ::
  "('db, 'qs) cddb \<Rightarrow> (string option \<Rightarrow> file_system \<Rightarrow> 'db) \<Rightarrow> server_settings \<Rightarrow> ('db, 'e::len word) pure_cache_store res" where
  "start_pure cd new_with st = pure_cache_new cd new_with server_namespace (st_budget st)"

text \<open>\<open>if let Some(peer_str) = args.peer { if let Ok(peer_id) = peer_str.parse() { node.add_peer(peer_id) } }\<close>\<close>

definition configured_peers :: "(string \<Rightarrow> 'pk option) \<Rightarrow> server_settings \<Rightarrow> 'pk list" where
  "configured_peers parse_pk st =
     (case st_peer st of
        None \<Rightarrow> []
      | Some s \<Rightarrow> (case parse_pk s of None \<Rightarrow> [] | Some pk \<Rightarrow> [pk]))"

text \<open>\<open>for port in &args.serial_ports { serial_txs.push(node.start_serial_driver(port, 115200)) }\<close>\<close>

fun start_drivers :: "(string \<Rightarrow> u32 \<Rightarrow> 'tx) \<Rightarrow> string list \<Rightarrow> 'tx list \<Rightarrow> 'tx list" where
  "start_drivers open_serial [] txs = txs"
| "start_drivers open_serial (p # ps) txs = start_drivers open_serial ps (txs @ [open_serial p 115200])"

definition serial_txs_of :: "(string \<Rightarrow> u32 \<Rightarrow> 'tx) \<Rightarrow> server_settings \<Rightarrow> 'tx list" where
  "serial_txs_of open_serial st =
     start_drivers open_serial (st_serial_ports st)
       (case st_serial_port st of None \<Rightarrow> [] | Some p \<Rightarrow> [open_serial p 115200])"

text \<open>
  The security module of the foundations crate as \<open>main\<close> uses it on Linux (\<open>None\<close> elsewhere): its three allow lists, and
  the call that installs a filter which kills the process on any other system call.
\<close>

record 'sys seccomp =
  sc_service_basics :: "'sys list"
  sc_async :: "'sys list"
  sc_net_socket_api :: "'sys list"
  sc_enable_kill_process :: "'sys list \<Rightarrow> bool"

definition allowed_syscalls :: "'sys seccomp \<Rightarrow> 'sys list" where
  "allowed_syscalls sec = sc_service_basics sec @ sc_async sec @ sc_net_socket_api sec"

text \<open>The allow list in force afterwards: a failure to install it is logged, and \<open>main\<close> goes on without.\<close>

definition syscall_filter :: "'sys seccomp option \<Rightarrow> 'sys list option" where
  "syscall_filter seccomp =
     (case seccomp of
        None \<Rightarrow> None
      | Some sec \<Rightarrow> if sc_enable_kill_process sec (allowed_syscalls sec) then Some (allowed_syscalls sec) else None)"

record ('st, 'w, 'tx, 'pk, 'sys) booted =
  bt_settings :: server_settings
  bt_syscalls :: "'sys list option"
  bt_genesis :: genesis_config
  bt_peers :: "'pk list"
  bt_vm_scripts :: bool
  bt_server :: "('st, 'w, 'tx) server"

definition start_node ::
  "'sys list option \<Rightarrow> (string \<Rightarrow> 'pk option) \<Rightarrow> (string \<Rightarrow> u32 \<Rightarrow> 'tx) \<Rightarrow> server_settings \<Rightarrow> 'st \<Rightarrow>
   ('st, 'e::len word, 'tx, 'pk, 'sys) booted" where
  "start_node syscalls parse_pk open_serial st storage =
     \<lparr>bt_settings = st, bt_syscalls = syscalls, bt_genesis = genesis_cfg st, bt_peers = configured_peers parse_pk st,
      bt_vm_scripts = enable_vm_scripts (st_security st),
      bt_server = \<lparr>sv_node = \<lparr>node_storage = storage, node_metrics = no_metrics, node_broadcasts = []\<rparr>,
                   sv_serial_txs = serial_txs_of open_serial st, sv_responses = [], sv_send_errors = 0\<rparr>\<rparr>"

text \<open>
  The control flow of \<open>main\<close> up to the worker loops, on any store. A subcommand ends the
  process; the command-line parser may fail (\<open>cli\<close> gives \<open>None\<close>) or ask for a generated configuration; the
  telemetry server and the network endpoint may fail to come up (\<open>tel_init\<close>, \<open>bind_ok\<close>), which makes
  \<open>main\<close> return the error. A failing system call filter is only logged.
\<close>

datatype 'b outcome = Exited fs | Failed | Generated | Started 'b

definition main_boot ::
  "(string \<Rightarrow> path) \<Rightarrow> (string list \<Rightarrow> (bool \<times> settings_file) option) \<Rightarrow> (telemetry_settings \<Rightarrow> bool) \<Rightarrow> 'sys seccomp option \<Rightarrow> bool \<Rightarrow>
   (server_settings \<Rightarrow> 'st res) \<Rightarrow> (string \<Rightarrow> 'pk option) \<Rightarrow> (string \<Rightarrow> u32 \<Rightarrow> 'tx) \<Rightarrow>
   string list \<Rightarrow> fs \<Rightarrow> ('st, 'e::len word, 'tx, 'pk, 'sys) booted outcome res" where
  "main_boot resolve cli tel_init seccomp bind_ok start_storage parse_pk open_serial args fs =
     bind_res (subcommand resolve args fs) (\<lambda>sub.
       case sub of
         Some fs' \<Rightarrow> Inr (Exited fs')
       | None \<Rightarrow>
           (case cli args of
              None \<Rightarrow> Inr Failed
            | Some (True, sf) \<Rightarrow> Inr Generated
            | Some (False, sf) \<Rightarrow>
                (let settings = load_settings sf
                 in if \<not> tel_init (st_telemetry settings) then Inr Failed
                    else (let syscalls = syscall_filter seccomp
                          in bind_res (start_storage settings) (\<lambda>storage.
                               if \<not> bind_ok then Inr Failed
                               else Inr (Started (start_node syscalls parse_pk open_serial settings storage)))))))"

text \<open>The three builds: \<open>tiered-storage\<close>, \<open>pure-cache\<close> without it, and neither.\<close>

definition main_tiered ::
  "(string \<Rightarrow> path) \<Rightarrow> (string list \<Rightarrow> (bool \<times> settings_file) option) \<Rightarrow> (telemetry_settings \<Rightarrow> bool) \<Rightarrow> 'sys seccomp option \<Rightarrow> bool \<Rightarrow>
   ('db, 'qs) cddb \<Rightarrow> (string option \<Rightarrow> 'db) \<Rightarrow> (string \<Rightarrow> 'pk option) \<Rightarrow> (string \<Rightarrow> u32 \<Rightarrow> 'tx) \<Rightarrow>
   string list \<Rightarrow> fs \<Rightarrow> (('db, 'e::len word) tiered_store, 'e word, 'tx, 'pk, 'sys) booted outcome res" where
  "main_tiered resolve cli tel_init seccomp bind_ok cd new_std =
     main_boot resolve cli tel_init seccomp bind_ok (start_tiered cd new_std)"

definition main_pure ::
  "(string \<Rightarrow> path) \<Rightarrow> (string list \<Rightarrow> (bool \<times> settings_file) option) \<Rightarrow> (telemetry_settings \<Rightarrow> bool) \<Rightarrow> 'sys seccomp option \<Rightarrow> bool \<Rightarrow>
   ('db, 'qs) cddb \<Rightarrow> (string option \<Rightarrow> file_system \<Rightarrow> 'db) \<Rightarrow> (string \<Rightarrow> 'pk option) \<Rightarrow> (string \<Rightarrow> u32 \<Rightarrow> 'tx) \<Rightarrow>
   string list \<Rightarrow> fs \<Rightarrow> (('db, 'e::len word) pure_cache_store, 'e word, 'tx, 'pk, 'sys) booted outcome res" where
  "main_pure resolve cli tel_init seccomp bind_ok cd new_with =
     main_boot resolve cli tel_init seccomp bind_ok (start_pure cd new_with)"

definition main_mock ::
  "(string \<Rightarrow> path) \<Rightarrow> (string list \<Rightarrow> (bool \<times> settings_file) option) \<Rightarrow> (telemetry_settings \<Rightarrow> bool) \<Rightarrow> 'sys seccomp option \<Rightarrow> bool \<Rightarrow>
   (string \<Rightarrow> 'pk option) \<Rightarrow> (string \<Rightarrow> u32 \<Rightarrow> 'tx) \<Rightarrow>
   string list \<Rightarrow> fs \<Rightarrow> (unit, 'e::len word, 'tx, 'pk, 'sys) booted outcome res" where
  "main_mock resolve cli tel_init seccomp bind_ok = main_boot resolve cli tel_init seccomp bind_ok (\<lambda>_. Inr ())"

section \<open>Lemmas\<close>

lemma start_drivers_eq:
  "start_drivers open_serial ps txs = txs @ map (\<lambda>p. open_serial p 115200) ps"
  by (induction ps arbitrary: txs) simp_all

lemma serial_txs_of_eq:
  "serial_txs_of open_serial st =
     map (\<lambda>p. open_serial p 115200)
       ((case st_serial_port st of None \<Rightarrow> [] | Some p \<Rightarrow> [p]) @ st_serial_ports st)"
  by (simp add: serial_txs_of_def start_drivers_eq split: option.splits)

lemma decimal_digits: "c \<in> set (decimal n) \<Longrightarrow> 48 \<le> (of_char c :: nat) \<and> (of_char c :: nat) \<le> 57"
proof (induction n rule: decimal.induct)
  case (1 n)
  then show ?case
    by (subst (asm) (2) decimal.simps) (auto simp: of_char_of split: if_splits)
qed

lemma partition_name_inject [simp]: "partition_name m = partition_name n \<longleftrightarrow> m = n"
  by (simp add: partition_name_def word_unat_eq_iff)

lemma wal_name_inject [simp]: "wal_name m = wal_name n \<longleftrightarrow> m = n"
  by (simp add: wal_name_def word_unat_eq_iff)

lemma main_boot_started:
  assumes "main_boot resolve cli tel_init seccomp bind_ok start_storage parse_pk open_serial args fs = Inr (Started b)"
  shows "\<exists>sf storage. cli args = Some (False, sf) \<and> subcommand resolve args fs = Inr None \<and>
    start_storage (load_settings sf) = Inr storage \<and> b = start_node (syscall_filter seccomp) parse_pk open_serial (load_settings sf) storage"
  using assms by (auto simp: main_boot_def res_simps Let_def split: option.splits prod.splits bool.splits if_splits)

lemma main_tiered_started:
  assumes "main_tiered resolve cli tel_init seccomp bind_ok cd new_std parse_pk open_serial args fs = Inr (Started b)"
  shows "\<exists>sf storage. cli args = Some (False, sf) \<and> subcommand resolve args fs = Inr None \<and>
    tiered_wf storage \<and> b = start_node (syscall_filter seccomp) parse_pk open_serial (load_settings sf) storage"
  using main_boot_started [OF assms [unfolded main_tiered_def]]
  by (auto simp: start_tiered_def intro: tiered_new_wf(1) [OF _ tls_wf_init])

lemma main_pure_started:
  assumes "main_pure resolve cli tel_init seccomp bind_ok cd new_with parse_pk open_serial args fs = Inr (Started b)"
  shows "\<exists>sf storage. pure_wf storage \<and> b = start_node (syscall_filter seccomp) parse_pk open_serial (load_settings sf) storage"
  using main_boot_started [OF assms [unfolded main_pure_def]]
  by (auto simp: start_pure_def intro: pure_cache_new_wf)

section \<open>A concrete server\<close>

text \<open>A settings file that sets nothing.\<close>

definition empty_settings :: settings_file where
  "empty_settings = \<lparr>sf_port = None, sf_bind = None, sf_id = None, sf_budget = None, sf_trust_mode = None,
     sf_control_mode = None, sf_peer = None, sf_serial_port = None, sf_serial_ports = None, sf_telemetry = None, sf_security = None\<rparr>"

definition sample_seccomp :: "string seccomp option" where
  "sample_seccomp = Some \<lparr>sc_service_basics = [''read'', ''write''], sc_async = [''epoll_wait''], sc_net_socket_api = [''socket''],
     sc_enable_kill_process = (\<lambda>_. True)\<rparr>"

definition sample_main ::
  "settings_file \<Rightarrow> ((mem_db, 64 word) tiered_store, 64 word, gateway_frame list, string, string) booted outcome res" where
  "sample_main sf = main_tiered sample_resolve (\<lambda>args. Some (False, sf)) (\<lambda>_. True) sample_seccomp True (mem_cddb 4) (\<lambda>_. mem_empty) Some
     (\<lambda>p baud. []) [''server_go''] sample_fs"

definition sample_booted ::
  "settings_file \<Rightarrow> ((mem_db, 64 word) tiered_store, 64 word, gateway_frame list, string, string) booted" where
  "sample_booted sf = start_node (syscall_filter sample_seccomp) Some (\<lambda>p baud. []) (load_settings sf) (sample_tiered mem_empty)"

lemma sample_main_eq: "sample_main sf = Inr (Started (sample_booted sf))"
  by (simp add: sample_main_def main_tiered_def main_boot_def subcommand_def start_tiered_def tiered_new_def mem_cddb_def
      hot_index_new_store sample_tiered_def sample_booted_def)

lemmas sample_main_started = sample_main_eq [unfolded sample_main_def]

lemmas sample_booted_simps = sample_booted_def start_node_def serial_txs_of_eq load_settings_def
  empty_settings_def or_default_def load_security_def default_false_def

section \<open>Properties\<close>

text \<open>
  Nodes with different ids on one data directory share no partition and no write-ahead log, and
  found their networks under different identities; nodes with the same id share all three.
\<close>

lemma node_id_separates_nodes:
  "(partition_name (st_id s) = partition_name (st_id s') \<longleftrightarrow> st_id s = st_id s') \<and>
   (wal_name (st_id s) = wal_name (st_id s') \<longleftrightarrow> st_id s = st_id s') \<and>
   (gc_founder_id (genesis_cfg s) = gc_founder_id (genesis_cfg s') \<longleftrightarrow> st_id s = st_id s')"
proof -
  have "array_to_list (local_id_bytes x) ! 0 = st_id x" for x
    by (simp add: local_id_bytes_def)
  then have "local_id_bytes s = local_id_bytes s' \<longleftrightarrow> st_id s = st_id s'"
    by (metis local_id_bytes_def)
  then show ?thesis by (simp add: genesis_cfg_def)
qed

text \<open>
  The system call filter fails open: when it cannot be installed, the server comes up exactly as it would
  have otherwise, with no filter. A server that has one allows exactly the calls of the three lists.
\<close>

lemma syscall_filter_fails_open:
  assumes "main_boot resolve cli tel_init (Some sec) bind_ok start_storage parse_pk open_serial args fs = Inr (Started b)"
  shows "bt_syscalls b = None \<or>
      (\<exists>xs. bt_syscalls b = Some xs \<and> set xs = set (sc_service_basics sec) \<union> set (sc_async sec) \<union> set (sc_net_socket_api sec))"
    and "main_boot resolve cli tel_init (Some (sec\<lparr>sc_enable_kill_process := (\<lambda>_. False)\<rparr>)) bind_ok start_storage parse_pk
      open_serial args fs = Inr (Started (b\<lparr>bt_syscalls := None\<rparr>))"
  using assms
  by (auto simp: main_boot_def res_simps Let_def start_node_def syscall_filter_def allowed_syscalls_def
      split: option.splits prod.splits bool.splits if_splits)

text \<open>
  The setting \<open>budget\<close>, documented as the memory budget of the cache in MB, has no effect: both
  stores come up exactly the same whatever its value.
\<close>

lemma budget_is_ignored:
  "start_tiered cd new_std (st\<lparr>st_budget := mb\<rparr>) = start_tiered cd new_std st \<and>
   start_pure cd cd_new (st\<lparr>st_budget := mb\<rparr>) = start_pure cd cd_new st"
  by (simp add: start_tiered_def tiered_new_def start_pure_def pure_cache_new_def)

end
