(* ===== verification/Net_Addr.thy ===== *)
theory Net_Addr
  imports Rust_Std
begin

text \<open>
  \<open>str::parse::<std::net::SocketAddr>()\<close>, which src/src/main.rs applies to \<open>bind:port\<close> in every worker
  and to the address of the telemetry server. This is the parser of Rust's \<open>core::net\<close>: every
  reader either consumes a prefix of the input or fails without consuming anything, and the
  whole string has to be consumed. Shown: the text of an IPv4 address and a port parses back, and what
  every accepted string starts with; the text of an IPv6 address, with a \<open>::\<close> or without, parses back when it is in
  brackets and is refused when it is not.
\<close>

section \<open>Readers\<close>

type_synonym 'a reader = "string \<Rightarrow> ('a \<times> string) option"

fun read_given_char :: "char \<Rightarrow> unit reader" where
  "read_given_char c [] = None"
| "read_given_char c (x # xs) = (if x = c then Some ((), xs) else None)"

text \<open>A separator before every element but the first.\<close>

definition read_separator :: "char \<Rightarrow> nat \<Rightarrow> 'a reader \<Rightarrow> 'a reader" where
  "read_separator sep i r s =
     (if i > 0 then Option.bind (read_given_char sep s) (\<lambda>(_, s'). r s') else r s)"

definition to_digit :: "nat \<Rightarrow> char \<Rightarrow> nat option" where
  "to_digit radix c =
     (case to_digit_16 c of None \<Rightarrow> None | Some d \<Rightarrow> if d < radix then Some d else None)"

fun digits_value :: "nat \<Rightarrow> nat \<Rightarrow> string \<Rightarrow> nat" where
  "digits_value radix acc [] = acc"
| "digits_value radix acc (c # cs) =
     digits_value radix (acc * radix + (case to_digit radix c of Some d \<Rightarrow> d | None \<Rightarrow> 0)) cs"

text \<open>
  \<open>read_number\<close>: all digits that follow, at most \<open>max_digits\<close> of them when it is given, without a leading
  zero unless \<open>allow_zero_prefix\<close>, with a value of at most \<open>bound\<close>.
\<close>

definition read_number :: "nat \<Rightarrow> nat option \<Rightarrow> bool \<Rightarrow> nat \<Rightarrow> nat reader" where
  "read_number radix max_digits allow_zero_prefix bound s =
     (let ds = takeWhile (\<lambda>c. to_digit radix c \<noteq> None) s;
          rest = dropWhile (\<lambda>c. to_digit radix c \<noteq> None) s
      in if ds = [] then None
         else if (case max_digits of None \<Rightarrow> False | Some m \<Rightarrow> length ds > m) then None
         else if \<not> allow_zero_prefix \<and> hd ds = CHR ''0'' \<and> length ds > 1 then None
         else if digits_value radix 0 ds > bound then None
         else Some (digits_value radix 0 ds, rest))"

definition read_octet :: "nat \<Rightarrow> nat reader" where
  "read_octet i = read_separator CHR ''.'' i (read_number 10 (Some 3) False 255)"

definition read_ipv4_addr :: "(u8 \<times> u8 \<times> u8 \<times> u8) reader" where
  "read_ipv4_addr s =
     Option.bind (read_octet 0 s) (\<lambda>(a, s).
     Option.bind (read_octet 1 s) (\<lambda>(b, s).
     Option.bind (read_octet 2 s) (\<lambda>(c, s).
     Option.bind (read_octet 3 s) (\<lambda>(d, s).
       Some ((of_nat a, of_nat b, of_nat c, of_nat d), s)))))"

text \<open>
  The groups of an IPv6 address, from index \<open>i\<close> on and at most \<open>n\<close> of them; the flag says that the last
  two came from an embedded IPv4 address, for which two places must be left.
\<close>

fun read_groups :: "nat \<Rightarrow> nat \<Rightarrow> string \<Rightarrow> u16 list \<times> bool \<times> string" where
  "read_groups i 0 s = ([], False, s)"
| "read_groups i (Suc n) s =
     (case (if n > 0 then read_separator CHR '':'' i read_ipv4_addr s else None) of
        Some ((a, b, c, d), s') \<Rightarrow>
          ([of_nat (unat a * 256 + unat b), of_nat (unat c * 256 + unat d)], True, s')
      | None \<Rightarrow>
          (case read_separator CHR '':'' i (read_number 16 (Some 4) True 65535) s of
             None \<Rightarrow> ([], False, s)
           | Some (g, s') \<Rightarrow>
               (case read_groups (Suc i) n s' of (gs, v4, s'') \<Rightarrow> (of_nat g # gs, v4, s''))))"

definition read_ipv6_addr :: "(u16, 8) array reader" where
  "read_ipv6_addr s =
     (case read_groups 0 8 s of (head, v4, s1) \<Rightarrow>
        if length head = 8 then Some (array_overwrite (array_splat 0) head, s1)
        else if v4 then None
        else Option.bind (read_given_char CHR '':'' s1) (\<lambda>(_, s2).
             Option.bind (read_given_char CHR '':'' s2) (\<lambda>(_, s3).
             case read_groups 0 (8 - (length head + 1)) s3 of (tail, _, s4) \<Rightarrow>
               Some (array_overwrite (array_splat 0)
                      (head @ replicate (8 - length head - length tail) 0 @ tail), s4))))"

definition read_port :: "u16 reader" where
  "read_port s =
     Option.bind (read_given_char CHR '':'' s) (\<lambda>(_, s).
     Option.bind (read_number 10 None True 65535 s) (\<lambda>(p, s). Some (of_nat p, s)))"

definition read_socket_addr_v4 :: "socket_addr reader" where
  "read_socket_addr_v4 s =
     Option.bind (read_ipv4_addr s) (\<lambda>((a, b, c, d), s).
     Option.bind (read_port s) (\<lambda>(p, s). Some (\<lparr>ip = V4 a b c d, port = p\<rparr>, s)))"

text \<open>The scope id of an IPv6 address is read and not kept: nothing in this program looks at it.\<close>

definition read_scope_id :: "unit reader" where
  "read_scope_id s =
     Option.bind (read_given_char CHR ''%'' s) (\<lambda>(_, s).
     Option.bind (read_number 10 None True 4294967295 s) (\<lambda>(_, s). Some ((), s)))"

definition read_socket_addr_v6 :: "socket_addr reader" where
  "read_socket_addr_v6 s =
     Option.bind (read_given_char CHR ''['' s) (\<lambda>(_, s).
     Option.bind (read_ipv6_addr s) (\<lambda>(a, s).
     let s' = (case read_scope_id s of None \<Rightarrow> s | Some (_, s') \<Rightarrow> s')
     in Option.bind (read_given_char CHR '']'' s') (\<lambda>(_, s).
        Option.bind (read_port s) (\<lambda>(p, s). Some (\<lparr>ip = V6 a, port = p\<rparr>, s)))))"

definition parse_socket_addr :: "string \<Rightarrow> socket_addr option" where
  "parse_socket_addr s =
     (case (case read_socket_addr_v4 s of None \<Rightarrow> read_socket_addr_v6 s | Some r \<Rightarrow> Some r) of
        Some (a, []) \<Rightarrow> Some a
      | _ \<Rightarrow> None)"

section \<open>Numbers read back\<close>

lemma to_digit_decimal: "d < 10 \<Longrightarrow> to_digit 10 (char_of (48 + d)) = Some d"
  by (simp add: to_digit_def to_digit_16_def of_char_of Let_def)

lemma digits_value_append:
  "digits_value radix acc (xs @ ys) = digits_value radix (digits_value radix acc xs) ys"
  by (induction xs arbitrary: acc) simp_all

lemma decimal_nonempty [simp]: "decimal n \<noteq> []"
  by (subst decimal.simps) simp

lemma digits_value_decimal: "digits_value 10 0 (decimal n) = n"
proof (induction n rule: decimal.induct)
  case (1 n)
  show ?case
  proof (cases "n < 10")
    case True
    then show ?thesis by (subst decimal.simps) (simp add: to_digit_decimal)
  next
    case False
    with 1 show ?thesis
      by (subst decimal.simps) (simp add: digits_value_append to_digit_decimal)
  qed
qed

lemma decimal_digit_chars: "c \<in> set (decimal n) \<Longrightarrow> to_digit 10 c \<noteq> None"
proof (induction n rule: decimal.induct)
  case (1 n)
  have "c \<in> set (if n < 10 then [char_of (48 + n)] else decimal (n div 10) @ [char_of (48 + n mod 10)])"
    using 1(2) by (subst (asm) decimal.simps)
  with 1(1) show ?case by (auto simp: to_digit_decimal split: if_splits)
qed

lemma digit_char_nonzero: "0 < d \<Longrightarrow> d < 10 \<Longrightarrow> (char_of (48 + d :: nat) :: char) \<noteq> CHR ''0''"
  by (auto dest!: arg_cong [of _ _ "of_char :: char \<Rightarrow> nat"] simp: of_char_of)

lemma hd_decimal: "n > 0 \<Longrightarrow> hd (decimal n) \<noteq> CHR ''0''"
proof (induction n rule: decimal.induct)
  case (1 n)
  show ?case
  proof (cases "n < 10")
    case True
    with 1(2) show ?thesis by (subst decimal.simps) (simp add: digit_char_nonzero)
  next
    case False
    with 1(1) show ?thesis by (subst decimal.simps) (simp add: hd_append div_greater_zero_iff)
  qed
qed

lemma length_decimal: "n < 10 ^ Suc k \<Longrightarrow> length (decimal n) \<le> Suc k"
proof (induction k arbitrary: n)
  case 0
  then show ?case by (subst decimal.simps) simp
next
  case (Suc k)
  then have "n div 10 < 10 ^ Suc k" by (simp add: less_mult_imp_div_less)
  with Suc.IH [of "n div 10"] show ?case by (subst decimal.simps) simp
qed

lemma length_decimal_one: "length (decimal n) > 1 \<Longrightarrow> n > 0"
  by (cases "n = 0") (simp_all add: decimal.simps [of 0])

text \<open>What can follow a number: nothing, or a character that is no digit.\<close>

definition ends_number :: "string \<Rightarrow> bool" where
  "ends_number s \<longleftrightarrow> s = [] \<or> to_digit 10 (hd s) = None"

lemma read_number_decimal:
  assumes "n \<le> bound" and "ends_number rest" and "case m of None \<Rightarrow> True | Some k \<Rightarrow> length (decimal n) \<le> k"
  shows "read_number 10 m zero bound (decimal n @ rest) = Some (n, rest)"
proof -
  have digits: "\<forall>c \<in> set (decimal n). to_digit 10 c \<noteq> None" using decimal_digit_chars by blast
  have "takeWhile (\<lambda>c. to_digit 10 c \<noteq> None) rest = []" "dropWhile (\<lambda>c. to_digit 10 c \<noteq> None) rest = rest"
    using assms(2) by (cases rest; simp add: ends_number_def)+
  with digits have "takeWhile (\<lambda>c. to_digit 10 c \<noteq> None) (decimal n @ rest) = decimal n"
    "dropWhile (\<lambda>c. to_digit 10 c \<noteq> None) (decimal n @ rest) = rest"
    by (simp_all add: takeWhile_append2 dropWhile_append2)
  then show ?thesis
    using assms(1,3) hd_decimal length_decimal_one
    by (auto simp: read_number_def digits_value_decimal Let_def split: option.splits)
qed

section \<open>Socket addresses read back\<close>

definition show_ipv4 :: "u8 \<Rightarrow> u8 \<Rightarrow> u8 \<Rightarrow> u8 \<Rightarrow> string" where
  "show_ipv4 a b c d =
     decimal (unat a) @ ''.'' @ decimal (unat b) @ ''.'' @ decimal (unat c) @ ''.'' @ decimal (unat d)"

lemma ends_number_chars [simp]:
  "ends_number (CHR ''.'' # s)" "ends_number (CHR '':'' # s)" "ends_number []"
  by (simp_all add: ends_number_def to_digit_def to_digit_16_def)

lemma read_octet_first: "ends_number rest \<Longrightarrow> read_octet 0 (decimal (unat (a :: u8)) @ rest) = Some (unat a, rest)"
  using unat_u8_bound [of a] length_decimal [of "unat a" 2]
  by (simp add: read_octet_def read_separator_def read_number_decimal)

lemma read_octet_next:
  "i > 0 \<Longrightarrow> ends_number rest \<Longrightarrow>
   read_octet i (CHR ''.'' # decimal (unat (a :: u8)) @ rest) = Some (unat a, rest)"
  using unat_u8_bound [of a] length_decimal [of "unat a" 2]
  by (simp add: read_octet_def read_separator_def read_number_decimal)

lemma read_ipv4_show:
  "ends_number rest \<Longrightarrow> read_ipv4_addr (show_ipv4 a b c d @ rest) = Some ((a, b, c, d), rest)"
  by (simp add: read_ipv4_addr_def show_ipv4_def read_octet_first read_octet_next)

lemma read_port_decimal: "read_port (CHR '':'' # decimal (unat (p :: u16))) = Some (p, [])"
proof -
  have "unat p \<le> 65535" using unat_u16_bound [of p] by simp
  from read_number_decimal [OF this ends_number_chars(3), of None True] show ?thesis by (simp add: read_port_def)
qed

lemma parse_show_ipv4:
  "parse_socket_addr (show_ipv4 a b c d @ '':'' @ decimal (unat p)) = Some \<lparr>ip = V4 a b c d, port = p\<rparr>"
  by (simp add: parse_socket_addr_def read_socket_addr_v4_def read_ipv4_show read_port_decimal)

section \<open>What is accepted\<close>

lemma read_number_first: "read_number radix m z bound s = Some r \<Longrightarrow> s \<noteq> [] \<and> to_digit radix (hd s) \<noteq> None"
  by (cases s) (auto simp: read_number_def Let_def split: if_splits)

lemma parse_socket_addr_first:
  assumes "parse_socket_addr s = Some a"
  shows "s \<noteq> [] \<and> (to_digit 10 (hd s) \<noteq> None \<or> hd s = CHR ''['')"
proof (cases "read_socket_addr_v4 s")
  case None
  with assms obtain r where "read_socket_addr_v6 s = Some r"
    by (auto simp: parse_socket_addr_def split: option.splits)
  then have "read_given_char CHR ''['' s \<noteq> None" by (auto simp: read_socket_addr_v6_def bind_eq_Some_conv)
  then show ?thesis by (cases s) (auto split: if_splits)
next
  case (Some r)
  then obtain q where "read_octet 0 s = Some q"
    by (auto simp: read_socket_addr_v4_def read_ipv4_addr_def bind_eq_Some_conv)
  then show ?thesis by (auto simp: read_octet_def read_separator_def dest!: read_number_first)
qed

section \<open>IPv6 texts\<close>

text \<open>
  An IPv6 address in text: groups of one to four hex digits with colons between them, either eight of them or fewer with one
  \<open>::\<close> in the place of the groups that are zero. \<open>groups_text i\<close> is the text of groups from index \<open>i\<close> on.
\<close>

definition hex_group :: "string \<Rightarrow> bool" where
  "hex_group g \<longleftrightarrow> g \<noteq> [] \<and> length g \<le> 4 \<and> (\<forall>c \<in> set g. to_digit 16 c \<noteq> None)"

fun groups_text :: "nat \<Rightarrow> string list \<Rightarrow> string" where
  "groups_text i [] = []"
| "groups_text i (g # gs) = (if i > 0 then '':'' else []) @ g @ groups_text (Suc i) gs"

definition ipv6_text :: "string list \<Rightarrow> string list option \<Rightarrow> string" where
  "ipv6_text h tail = groups_text 0 h @ (case tail of None \<Rightarrow> [] | Some t \<Rightarrow> ''::'' @ groups_text 0 t)"

definition ipv6_shape :: "string list \<Rightarrow> string list option \<Rightarrow> bool" where
  "ipv6_shape h tail \<longleftrightarrow> list_all hex_group h \<and>
     (case tail of None \<Rightarrow> length h = 8 | Some t \<Rightarrow> list_all hex_group t \<and> length h + length t < 8)"

definition group_value :: "string \<Rightarrow> u16" where
  "group_value g = of_nat (digits_value 16 0 g)"

definition ipv6_groups :: "string list \<Rightarrow> string list option \<Rightarrow> u16 list" where
  "ipv6_groups h tail =
     map group_value h @
     (case tail of None \<Rightarrow> [] | Some t \<Rightarrow> replicate (8 - length h - length t) 0 @ map group_value t)"

lemma digits_value_bound: "digits_value 16 acc g < (acc + 1) * 16 ^ length g"
proof (induction g arbitrary: acc)
  case (Cons c g)
  let ?d = "case to_digit 16 c of Some d \<Rightarrow> d | None \<Rightarrow> 0"
  have "?d < 16" by (simp add: to_digit_def split: option.splits)
  then have "(acc * 16 + ?d + 1) * 16 ^ length g \<le> ((acc + 1) * 16) * 16 ^ length g" by (intro mult_le_mono1) simp
  with Cons.IH [of "acc * 16 + ?d"] show ?case by (simp only: digits_value.simps length_Cons power_Suc mult.assoc)
qed simp

lemma read_hex_group:
  assumes "hex_group g" and "rest = [] \<or> to_digit 16 (hd rest) = None"
  shows "read_number 16 (Some 4) True 65535 (g @ rest) = Some (digits_value 16 0 g, rest)"
proof -
  have "takeWhile (\<lambda>c. to_digit 16 c \<noteq> None) rest = []" "dropWhile (\<lambda>c. to_digit 16 c \<noteq> None) rest = rest"
    using assms(2) by (cases rest; simp)+
  with assms(1) have "takeWhile (\<lambda>c. to_digit 16 c \<noteq> None) (g @ rest) = g" "dropWhile (\<lambda>c. to_digit 16 c \<noteq> None) (g @ rest) = rest"
    by (simp_all add: hex_group_def takeWhile_append2 dropWhile_append2)
  moreover have "digits_value 16 0 g \<le> 65535"
  proof -
    have "(16 :: nat) ^ length g \<le> 16 ^ 4" using assms(1) by (intro power_increasing) (simp_all add: hex_group_def)
    with digits_value_bound [of 0 g] show ?thesis by simp
  qed
  ultimately show ?thesis using assms(1) by (simp add: read_number_def hex_group_def Let_def)
qed

text \<open>Without a dot there is no IPv4 address in a text.\<close>

lemma read_ipv4_no_dot: "CHR ''.'' \<notin> set s \<Longrightarrow> read_ipv4_addr s = None"
proof -
  assume dot: "CHR ''.'' \<notin> set s"
  have "read_octet 1 s' = None" if "read_octet 0 s = Some (a, s')" for a s'
  proof -
    have "set s' \<subseteq> set s"
      using that set_dropWhileD [of _ "\<lambda>c. to_digit 10 c \<noteq> None" s]
      by (auto simp: read_octet_def read_separator_def read_number_def Let_def split: if_splits)
    with dot show ?thesis by (cases s') (auto simp: read_octet_def read_separator_def)
  qed
  then show ?thesis by (cases "read_octet 0 s") (auto simp: read_ipv4_addr_def)
qed

lemma separated_ipv4_no_dot: "CHR ''.'' \<notin> set s \<Longrightarrow> read_separator CHR '':'' i read_ipv4_addr s = None"
  by (cases s) (auto simp: read_separator_def read_ipv4_no_dot)

text \<open>What follows the groups: the closing bracket, or the gap.\<close>

definition ends_groups :: "string \<Rightarrow> bool" where
  "ends_groups s \<longleftrightarrow> (\<exists>r. s = '']'' @ r \<or> s = ''::'' @ r)"

lemma not_hex [simp]: "to_digit r CHR '':'' = None" "to_digit r CHR '']'' = None" "to_digit r CHR ''%'' = None"
  by (simp_all add: to_digit_def to_digit_16_def)

lemma ends_groups_stop: "ends_groups s \<Longrightarrow> read_separator CHR '':'' i (read_number 16 (Some 4) True 65535) s = None"
  by (auto simp: ends_groups_def read_separator_def read_number_def)

lemma read_groups_text:
  assumes "list_all hex_group gs" and "length gs \<le> n" and "ends_groups rest" and "CHR ''.'' \<notin> set (groups_text i gs @ rest)"
  shows "read_groups i n (groups_text i gs @ rest) = (map group_value gs, False, rest)"
  using assms
proof (induction gs arbitrary: i n)
  case Nil
  then show ?case by (cases n) (simp_all add: separated_ipv4_no_dot ends_groups_stop)
next
  case (Cons g gs)
  then obtain k where k: "n = Suc k" by (cases n) simp_all
  let ?s = "groups_text (Suc i) gs @ rest"
  have "?s = [] \<or> to_digit 16 (hd ?s) = None"
    using Cons.prems(3) by (cases gs) (auto simp: ends_groups_def)
  with Cons.prems(1) have "read_number 16 (Some 4) True 65535 (g @ ?s) = Some (digits_value 16 0 g, ?s)"
    by (intro read_hex_group) simp_all
  then have "read_separator CHR '':'' i (read_number 16 (Some 4) True 65535) (groups_text i (g # gs) @ rest) =
      Some (digits_value 16 0 g, ?s)" by (cases i) (simp_all add: read_separator_def)
  moreover have "read_separator CHR '':'' i read_ipv4_addr (groups_text i (g # gs) @ rest) = None"
    by (rule separated_ipv4_no_dot [OF Cons.prems(4)])
  moreover have "read_groups (Suc i) k ?s = (map group_value gs, False, rest)"
    using Cons.prems k by (intro Cons.IH) (auto split: if_splits)
  ultimately show ?case using k by (cases k) (simp_all add: group_value_def)
qed

lemma hex_group_no_dot: "hex_group g \<Longrightarrow> CHR ''.'' \<notin> set g \<and> CHR ''['' \<notin> set g"
  by (auto simp: hex_group_def to_digit_def to_digit_16_def)

lemma groups_text_no_dot:
  "list_all hex_group gs \<Longrightarrow> CHR ''.'' \<notin> set (groups_text i gs) \<and> CHR ''['' \<notin> set (groups_text i gs)"
  by (induction gs arbitrary: i) (auto dest: hex_group_no_dot)

lemma ipv6_text_no_dot:
  "ipv6_shape h tail \<Longrightarrow> CHR ''.'' \<notin> set (ipv6_text h tail) \<and> CHR ''['' \<notin> set (ipv6_text h tail)"
  using groups_text_no_dot by (auto simp: ipv6_shape_def ipv6_text_def split: option.splits)

lemma decimal_no_dot: "CHR ''.'' \<notin> set (decimal n)"
  using decimal_digit_chars [of "CHR ''.''" n] by (auto simp: to_digit_def to_digit_16_def)

lemma read_ipv6_text:
  assumes shape: "ipv6_shape h tail" and dot: "CHR ''.'' \<notin> set rest"
  shows "read_ipv6_addr (ipv6_text h tail @ '']'' @ rest) =
    Some (array_overwrite (array_splat 0) (ipv6_groups h tail), '']'' @ rest)"
proof (cases tail)
  case None
  with shape have "list_all hex_group h" "length h = 8" by (simp_all add: ipv6_shape_def)
  moreover from this have "read_groups 0 8 (groups_text 0 h @ '']'' @ rest) = (map group_value h, False, '']'' @ rest)"
    using dot groups_text_no_dot [of h 0] by (intro read_groups_text) (auto simp: ends_groups_def)
  ultimately show ?thesis using None by (simp add: read_ipv6_addr_def ipv6_text_def ipv6_groups_def)
next
  case (Some t)
  with shape have hex: "list_all hex_group h" "list_all hex_group t" and len: "length h + length t < 8"
    by (simp_all add: ipv6_shape_def)
  let ?s = "groups_text 0 t @ '']'' @ rest"
  have "read_groups 0 8 (groups_text 0 h @ ''::'' @ ?s) = (map group_value h, False, ''::'' @ ?s)"
    using dot groups_text_no_dot [OF hex(1), of 0] groups_text_no_dot [OF hex(2), of 0] len hex
    by (intro read_groups_text) (auto simp: ends_groups_def)
  moreover have "read_groups 0 (8 - (length h + 1)) ?s = (map group_value t, False, '']'' @ rest)"
    using dot groups_text_no_dot [OF hex(2), of 0] len hex by (intro read_groups_text) (auto simp: ends_groups_def)
  ultimately show ?thesis using Some len by (simp add: read_ipv6_addr_def ipv6_text_def ipv6_groups_def)
qed

text \<open>In brackets the text of an IPv6 address parses to exactly that address; without brackets no such text parses.\<close>

lemma read_v4_no_dot: "CHR ''.'' \<notin> set s \<Longrightarrow> read_socket_addr_v4 s = None"
  by (simp add: read_socket_addr_v4_def read_ipv4_no_dot)

lemma parse_ipv6_text:
  assumes "ipv6_shape h tail"
  shows "parse_socket_addr (''['' @ ipv6_text h tail @ '']'' @ '':'' @ decimal (unat p)) =
    Some \<lparr>ip = V6 (array_overwrite (array_splat 0) (ipv6_groups h tail)), port = p\<rparr>"
proof -
  let ?rest = "'':'' @ decimal (unat p)"
  have "CHR ''.'' \<notin> set ?rest" using decimal_no_dot by simp
  note read = read_ipv6_text [OF assms this]
  have "read_socket_addr_v4 (''['' @ ipv6_text h tail @ '']'' @ ?rest) = None"
    using decimal_no_dot ipv6_text_no_dot [OF assms] by (intro read_v4_no_dot) simp
  then show ?thesis
    using read read_port_decimal [of p] by (simp add: parse_socket_addr_def read_socket_addr_v6_def read_scope_id_def)
qed

lemma parse_bare_ipv6_text:
  assumes "ipv6_shape h tail"
  shows "parse_socket_addr (ipv6_text h tail @ '':'' @ decimal (unat p)) = None"
proof -
  let ?s = "ipv6_text h tail @ '':'' @ decimal (unat p)"
  have "read_socket_addr_v4 ?s = None"
    using decimal_no_dot ipv6_text_no_dot [OF assms] by (intro read_v4_no_dot) simp
  moreover have "read_given_char CHR ''['' ?s = None"
    using ipv6_text_no_dot [OF assms] by (cases "ipv6_text h tail") auto
  ultimately show ?thesis by (simp add: parse_socket_addr_def read_socket_addr_v6_def)
qed

end
