(* ===== verification/Workers.thy ===== *)
theory Workers
  imports Startup Net_Addr
begin

text \<open>
  The worker threads at the end of \<open>main\<close> (src/src/main.rs): one thread per core, each with its own
  runtime, its own listening socket on the same address and its own gateway, and the loop that
  joins them; and the single listener of the macOS build. The calls into the operating system
  are the fields of a record; whether \<open>gateway.run()\<close> returns is a parameter. Shown: which addresses
  the workers listen on, what happens when \<open>bind\<close> is not an address or an IPv6 address, and which failures of a worker
  end the process.
\<close>

section \<open>Operating system calls\<close>

text \<open>
  Each call gives \<open>None\<close> when it fails; pinning a thread to a core (\<open>core_affinity::set_for_current\<close>) only says whether it
  worked. A \<open>'lst\<close> is a listener registered with the runtime.
\<close>

record ('sock, 'lst) os_net =
  os_set_for_current :: "nat \<Rightarrow> bool"
  os_runtime :: "nat \<Rightarrow> unit option"
  os_socket_ipv4 :: "nat \<Rightarrow> 'sock option"
  os_set_reuse_address :: "'sock \<Rightarrow> 'sock option"
  os_set_reuse_port :: "'sock \<Rightarrow> 'sock option"
  os_bind :: "'sock \<Rightarrow> socket_addr \<Rightarrow> 'sock option"
  os_listen :: "'sock \<Rightarrow> u32 \<Rightarrow> 'sock option"
  os_from_std :: "'sock \<Rightarrow> 'lst option"
  os_tokio_bind :: "socket_addr \<Rightarrow> 'lst option"

section \<open>One worker\<close>

text \<open>\<open>format!("{}:{}", bind_addr, port)\<close>\<close>

definition bind_text :: "server_settings \<Rightarrow> string" where
  "bind_text st = st_bind st @ '':'' @ decimal (unat (st_port st))"

definition worker_listener ::
  "('sock, 'lst) os_net \<Rightarrow> server_settings \<Rightarrow> nat \<Rightarrow> (socket_addr \<times> 'lst) res" where
  "worker_listener os st i =
     (let _ = os_set_for_current os i in
     bind_res (unwrap_ok (os_runtime os i)) (\<lambda>_.
     bind_res (unwrap_ok (os_socket_ipv4 os i)) (\<lambda>sock.
     bind_res (unwrap_ok (os_set_reuse_address os sock)) (\<lambda>sock.
     bind_res (unwrap_ok (os_set_reuse_port os sock)) (\<lambda>sock.
     bind_res (unwrap_ok (parse_socket_addr (bind_text st))) (\<lambda>addr.
     bind_res (unwrap_ok (os_bind os sock addr)) (\<lambda>sock.
     bind_res (unwrap_ok (os_listen os sock 1024)) (\<lambda>sock.
     bind_res (unwrap_ok (os_from_std os sock)) (\<lambda>lst. Inr (addr, lst))))))))))"

datatype run_outcome = Run_Ok | Run_Err | Run_Forever

datatype thread_end = Thread_Ok | Thread_Panicked | Thread_Running

text \<open>The closure of \<open>std::thread::spawn\<close>, up to \<open>gateway.run().await.unwrap()\<close>.\<close>

definition worker_thread ::
  "('sock, 'lst) os_net \<Rightarrow> ('lst \<Rightarrow> run_outcome) \<Rightarrow> server_settings \<Rightarrow> nat \<Rightarrow> thread_end" where
  "worker_thread os gateway_run st i =
     (case worker_listener os st i of
        Inl _ \<Rightarrow> Thread_Panicked
      | Inr (addr, lst) \<Rightarrow>
          (case gateway_run lst of
             Run_Ok \<Rightarrow> Thread_Ok
           | Run_Err \<Rightarrow> Thread_Panicked
           | Run_Forever \<Rightarrow> Thread_Running))"

section \<open>Joining the workers\<close>

text \<open>How \<open>main\<close> ends: it returns, returns an error, panics, or waits for a thread for ever.\<close>

datatype main_end = Main_Ok | Main_Err | Main_Panics | Main_Blocked

text \<open>\<open>for h in handles { h.join().unwrap(); }\<close>\<close>

fun join_all :: "thread_end list \<Rightarrow> main_end" where
  "join_all [] = Main_Ok"
| "join_all (Thread_Ok # hs) = join_all hs"
| "join_all (Thread_Panicked # hs) = Main_Panics"
| "join_all (Thread_Running # hs) = Main_Blocked"

definition run_workers ::
  "('sock, 'lst) os_net \<Rightarrow> ('lst \<Rightarrow> run_outcome) \<Rightarrow> nat \<Rightarrow> server_settings \<Rightarrow> main_end" where
  "run_workers os gateway_run cores st = join_all (map (worker_thread os gateway_run st) [0..<cores])"

text \<open>The macOS build: one listener on the main runtime; a failing \<open>bind\<close> is returned, not unwrapped.\<close>

definition run_macos ::
  "('sock, 'lst) os_net \<Rightarrow> ('lst \<Rightarrow> run_outcome) \<Rightarrow> server_settings \<Rightarrow> main_end" where
  "run_macos os gateway_run st =
     (case parse_socket_addr (bind_text st) of
        None \<Rightarrow> Main_Panics
      | Some addr \<Rightarrow>
          (case os_tokio_bind os addr of
             None \<Rightarrow> Main_Err
           | Some lst \<Rightarrow>
               (case gateway_run lst of
                  Run_Ok \<Rightarrow> Main_Ok | Run_Err \<Rightarrow> Main_Panics | Run_Forever \<Rightarrow> Main_Blocked)))"

text \<open>All of \<open>main\<close> in the thread-per-core build, on any of the stores.\<close>

definition server_main ::
  "('sock, 'lst) os_net \<Rightarrow> ('lst \<Rightarrow> run_outcome) \<Rightarrow> nat \<Rightarrow>
   ('st, 'w, 'tx, 'pk, 'sys) booted outcome res \<Rightarrow> main_end" where
  "server_main os gateway_run cores started =
     (case started of
        Inl _ \<Rightarrow> Main_Panics
      | Inr (Exited _) \<Rightarrow> Main_Ok
      | Inr Failed \<Rightarrow> Main_Err
      | Inr Generated \<Rightarrow> Main_Ok
      | Inr (Started b) \<Rightarrow> run_workers os gateway_run cores (bt_settings b))"

section \<open>Lemmas\<close>

lemma join_all_panics:
  "join_all ts = Main_Panics \<longleftrightarrow>
     (\<exists>k < length ts. ts ! k = Thread_Panicked \<and> (\<forall>j < k. ts ! j = Thread_Ok))"
  by (induction ts rule: join_all.induct) (simp_all add: Ex_less_Suc2 All_less_Suc2)

lemma bind_text_ipv4:
  "st_bind st = show_ipv4 a b c d \<Longrightarrow> parse_socket_addr (bind_text st) = Some \<lparr>ip = V4 a b c d, port = st_port st\<rparr>"
  using parse_show_ipv4 [of a b c d "st_port st"] by (simp add: bind_text_def)

lemma default_bind_ipv4: "default_bind = show_ipv4 127 0 0 1"
  by (simp add: default_bind_def show_ipv4_def decimal.simps) code_simp

text \<open>The literal that \<open>default_telemetry\<close> unwraps does parse.\<close>

lemma default_telemetry_parses:
  "parse_socket_addr ''127.0.0.1:8080'' = Some (tel_server_addr default_telemetry)"
proof -
  have "''127.0.0.1:8080'' = show_ipv4 127 0 0 1 @ '':'' @ decimal (unat (8080 :: u16))"
    by (simp add: show_ipv4_def decimal.simps) code_simp
  then show ?thesis
    using parse_show_ipv4 [of 127 0 0 1 8080] by (simp add: default_telemetry_def)
qed

text \<open>When no worker gets a listener, all threads panic, and so does \<open>main\<close> when it joins the first.\<close>

lemma workers_panic:
  assumes "\<And>j. \<exists>p. worker_listener os st j = Inl p"
  shows "worker_thread os gateway_run st i = Thread_Panicked" and "run_workers os gateway_run (Suc cores) st = Main_Panics"
proof -
  have "worker_thread os gateway_run st j = Thread_Panicked" for j
    using assms [of j] by (auto simp: worker_thread_def)
  then show "worker_thread os gateway_run st i = Thread_Panicked" and "run_workers os gateway_run (Suc cores) st = Main_Panics"
    by (simp_all add: run_workers_def map_upt_Suc del: upt_Suc)
qed

text \<open>No listener without an address, or when the socket cannot be bound to it.\<close>

lemma listener_fails:
  "parse_socket_addr (bind_text st) = None \<Longrightarrow> \<exists>p. worker_listener os st j = Inl p"
  "parse_socket_addr (bind_text st) = Some addr \<Longrightarrow> (\<And>sock. os_bind os sock addr = None) \<Longrightarrow> \<exists>p. worker_listener os st j = Inl p"
  by (cases "worker_listener os st j"; auto simp: worker_listener_def res_simps)+

section \<open>Properties\<close>

text \<open>An operating system on which every call succeeds and a listener is its address.\<close>

definition sample_os :: "(socket_addr option, socket_addr) os_net" where
  "sample_os = \<lparr>os_set_for_current = (\<lambda>_. True), os_runtime = (\<lambda>_. Some ()), os_socket_ipv4 = (\<lambda>_. Some None), os_set_reuse_address = Some,
     os_set_reuse_port = Some, os_bind = (\<lambda>_ a. Some (Some a)), os_listen = (\<lambda>s _. Some s),
     os_from_std = (\<lambda>s. s), os_tokio_bind = Some\<rparr>"

text \<open>
  The workers listen where the settings say: when \<open>bind\<close> is the text of an IPv4 address, the
  parser gives back exactly that address with the configured port, and every worker whose calls to the operating
  system succeed on it ends up with a listener on that address.
\<close>

lemma workers_listen_on_the_configured_address:
  assumes "st_bind st = show_ipv4 a b c d"
    and "os_runtime os i = Some ()" and "os_socket_ipv4 os i = Some s0"
    and "os_set_reuse_address os s0 = Some s1" and "os_set_reuse_port os s1 = Some s2"
    and "os_bind os s2 \<lparr>ip = V4 a b c d, port = st_port st\<rparr> = Some s3"
    and "os_listen os s3 1024 = Some s4" and "os_from_std os s4 = Some l"
  shows "worker_listener os st i = Inr (\<lparr>ip = V4 a b c d, port = st_port st\<rparr>, l)"
  by (simp add: worker_listener_def bind_text_ipv4 [OF assms(1)] assms(2-))

text \<open>
  C18: \<open>bind\<close> has to be an address literal: a host name such as \<open>localhost\<close>, or any text that does not
  begin with a digit or a bracket, passes the settings and the start of the node, but then every worker
  panics before it binds, and \<open>main\<close> panics when it joins the first of them.
\<close>

theorem host_names_panic_every_worker:
  assumes "st_bind st = x # xs" and "to_digit 10 x = None" and "x \<noteq> CHR ''[''"
  shows "worker_thread os gateway_run st i = Thread_Panicked \<and>
    run_macos os gateway_run st = Main_Panics \<and>
    run_workers os gateway_run (Suc cores) st = Main_Panics \<and>
    (bt_settings b = st \<longrightarrow> server_main os gateway_run (Suc cores) (Inr (Started b)) = Main_Panics)"
proof -
  have "parse_socket_addr (bind_text st) = None"
    using parse_socket_addr_first [of "bind_text st"] assms
    by (cases "parse_socket_addr (bind_text st)") (auto simp: bind_text_def)
  moreover note workers_panic [OF listener_fails(1) [OF this, of os]]
  ultimately show ?thesis by (simp add: server_main_def run_macos_def)
qed

theorem host_names_panic_every_worker_witness:
  "run_workers sample_os (\<lambda>_. Run_Forever) (Suc 7) (load_settings (empty_settings\<lparr>sf_bind := Some ''localhost''\<rparr>)) =
     Main_Panics \<and>
   server_main sample_os (\<lambda>_. Run_Forever) (Suc 7)
     (Inr (Started (sample_booted (empty_settings\<lparr>sf_bind := Some ''localhost''\<rparr>)))) = Main_Panics"
  using host_names_panic_every_worker [of "load_settings (empty_settings\<lparr>sf_bind := Some ''localhost''\<rparr>)"
      "CHR ''l''" "''ocalhost''" sample_os "\<lambda>_. Run_Forever" 0 7
      "sample_booted (empty_settings\<lparr>sf_bind := Some ''localhost''\<rparr>)"]
  by (simp add: sample_booted_def start_node_def load_settings_def or_default_def to_digit_def to_digit_16_def)

text \<open>
  C20: The workers are joined in order, so \<open>main\<close> panics exactly when some worker has panicked and all
  before it have returned; when the first worker runs for ever, the failure of any number of the others
  goes unnoticed and the server keeps serving with the rest.
\<close>

theorem worker_failures_noticed_in_order:
  "(run_workers os gateway_run cores st = Main_Panics \<longleftrightarrow>
      (\<exists>k < cores. worker_thread os gateway_run st k = Thread_Panicked \<and>
        (\<forall>j < k. worker_thread os gateway_run st j = Thread_Ok))) \<and>
   (worker_thread os gateway_run st 0 = Thread_Running \<and> cores > 0 \<longrightarrow>
      run_workers os gateway_run cores st = Main_Blocked)"
proof
  show "run_workers os gateway_run cores st = Main_Panics \<longleftrightarrow>
      (\<exists>k < cores. worker_thread os gateway_run st k = Thread_Panicked \<and>
        (\<forall>j < k. worker_thread os gateway_run st j = Thread_Ok))"
    by (auto simp: run_workers_def join_all_panics)
  show "worker_thread os gateway_run st 0 = Thread_Running \<and> cores > 0 \<longrightarrow>
      run_workers os gateway_run cores st = Main_Blocked"
    by (cases cores) (auto simp: run_workers_def map_upt_Suc simp del: upt_Suc)
qed

text \<open>Two workers, of which the second cannot bind.\<close>

definition one_port_os :: "(nat, nat) os_net" where
  "one_port_os = \<lparr>os_set_for_current = (\<lambda>_. True), os_runtime = (\<lambda>_. Some ()), os_socket_ipv4 = Some, os_set_reuse_address = Some,
     os_set_reuse_port = Some, os_bind = (\<lambda>s _. if s = 0 then Some s else None), os_listen = (\<lambda>s _. Some s),
     os_from_std = Some, os_tokio_bind = (\<lambda>_. None)\<rparr>"

theorem worker_failures_noticed_in_order_witness:
  "worker_thread one_port_os (\<lambda>_. Run_Forever) (load_settings empty_settings) 1 = Thread_Panicked \<and>
   run_workers one_port_os (\<lambda>_. Run_Forever) 2 (load_settings empty_settings) = Main_Blocked"
proof -
  have "parse_socket_addr (bind_text (load_settings empty_settings)) \<noteq> None"
    using bind_text_ipv4 [of "load_settings empty_settings" 127 0 0 1]
    by (simp add: load_settings_def empty_settings_def or_default_def default_bind_ipv4)
  then have "worker_thread one_port_os (\<lambda>_. Run_Forever) (load_settings empty_settings) 0 = Thread_Running"
    "worker_thread one_port_os (\<lambda>_. Run_Forever) (load_settings empty_settings) 1 = Thread_Panicked"
    by (auto simp: worker_thread_def worker_listener_def one_port_os_def)
  then show ?thesis
    using worker_failures_noticed_in_order [of one_port_os "\<lambda>_. Run_Forever" 2 "load_settings empty_settings"] by simp
qed

text \<open>The sockets of the workers are IPv4 sockets, and binding one to an address of another family fails.\<close>

fun is_ipv4 :: "ip_addr \<Rightarrow> bool" where
  "is_ipv4 (V4 a b c d) = True"
| "is_ipv4 (V6 gs) = False"

definition ipv4_sockets_bind_ipv4 :: "('sock, 'lst) os_net \<Rightarrow> bool" where
  "ipv4_sockets_bind_ipv4 os \<longleftrightarrow> (\<forall>sock addr. \<not> is_ipv4 (ip addr) \<longrightarrow> os_bind os sock addr = None)"

text \<open>
  C19: No way to write an IPv6 address as \<open>bind\<close> makes the thread-per-core server work. In brackets, the text of an IPv6
  address (eight groups of hex digits, or fewer around one \<open>::\<close>) parses to exactly that address with the configured port, but every worker
  opens an IPv4 socket, so each of them panics when it binds and \<open>main\<close> panics with the first, although the macOS build, which
  lets the runtime choose the socket, listens on that very address and serves. Without brackets the text does not parse
  at all, and the workers, \<open>main\<close> and the macOS build panic.
\<close>

theorem ipv6_addresses_panic_every_worker:
  assumes "ipv6_shape h tail" and "ipv4_sockets_bind_ipv4 os"
    and "addr = \<lparr>ip = V6 (array_overwrite (array_splat 0) (ipv6_groups h tail)), port = st_port st\<rparr>"
  shows "(st_bind st = ''['' @ ipv6_text h tail @ '']'' \<longrightarrow>
      worker_thread os gateway_run st i = Thread_Panicked \<and>
      run_workers os gateway_run (Suc cores) st = Main_Panics \<and>
      (os_tokio_bind os addr = Some lst \<and> gateway_run lst = Run_Forever \<longrightarrow> run_macos os gateway_run st = Main_Blocked)) \<and>
    (st_bind st = ipv6_text h tail \<longrightarrow>
      worker_thread os gateway_run st i = Thread_Panicked \<and>
      run_workers os gateway_run (Suc cores) st = Main_Panics \<and>
      run_macos os gateway_run st = Main_Panics)"
proof (intro conjI impI)
  have refused: "os_bind os sock addr = None" for sock using assms(2,3) by (simp add: ipv4_sockets_bind_ipv4_def)
  assume "st_bind st = ''['' @ ipv6_text h tail @ '']''"
  then have parsed: "parse_socket_addr (bind_text st) = Some addr"
    using parse_ipv6_text [OF assms(1), of "st_port st"] by (simp add: bind_text_def assms(3))
  note panics = workers_panic [OF listener_fails(2) [OF parsed refused]]
  show "worker_thread os gateway_run st i = Thread_Panicked" "run_workers os gateway_run (Suc cores) st = Main_Panics"
    by (rule panics)+
  show "run_macos os gateway_run st = Main_Blocked" if "os_tokio_bind os addr = Some lst \<and> gateway_run lst = Run_Forever"
    using that by (simp add: run_macos_def parsed)
next
  assume "st_bind st = ipv6_text h tail"
  then have unparsed: "parse_socket_addr (bind_text st) = None"
    using parse_bare_ipv6_text [OF assms(1), of "st_port st"] by (simp add: bind_text_def)
  note panics = workers_panic [OF listener_fails(1) [OF unparsed]]
  show "worker_thread os gateway_run st i = Thread_Panicked" "run_workers os gateway_run (Suc cores) st = Main_Panics"
    by (rule panics)+
  show "run_macos os gateway_run st = Main_Panics" by (simp add: run_macos_def unparsed)
qed

text \<open>An operating system that refuses IPv6 addresses on IPv4 sockets, and the address \<open>::1\<close> with and without brackets.\<close>

definition v4_os :: "(socket_addr option, socket_addr) os_net" where
  "v4_os = sample_os\<lparr>os_bind := (\<lambda>_ a. if is_ipv4 (ip a) then Some (Some a) else None)\<rparr>"

theorem ipv6_addresses_panic_every_worker_witness:
  "run_workers v4_os (\<lambda>_. Run_Forever) (Suc 3) (load_settings (empty_settings\<lparr>sf_bind := Some ''[::1]''\<rparr>)) = Main_Panics \<and>
   run_macos v4_os (\<lambda>_. Run_Forever) (load_settings (empty_settings\<lparr>sf_bind := Some ''[::1]''\<rparr>)) = Main_Blocked \<and>
   run_workers v4_os (\<lambda>_. Run_Forever) (Suc 3) (load_settings (empty_settings\<lparr>sf_bind := Some ''::1''\<rparr>)) = Main_Panics \<and>
   run_macos v4_os (\<lambda>_. Run_Forever) (load_settings (empty_settings\<lparr>sf_bind := Some ''::1''\<rparr>)) = Main_Panics"
proof -
  have shape: "ipv6_shape [] (Some [''1''])" by (simp add: ipv6_shape_def hex_group_def to_digit_def to_digit_16_def)
  have law: "ipv4_sockets_bind_ipv4 v4_os" by (simp add: ipv4_sockets_bind_ipv4_def v4_os_def)
  have shown: "ipv6_text [] (Some [''1'']) = ''::1''" by (simp add: ipv6_text_def)
  have tokio: "os_tokio_bind v4_os a = Some a" for a by (simp add: v4_os_def sample_os_def)
  have bind: "st_bind (load_settings (empty_settings\<lparr>sf_bind := Some b\<rparr>)) = b" for b
    by (simp add: load_settings_def empty_settings_def or_default_def)
  note panics = ipv6_addresses_panic_every_worker [OF shape law refl, unfolded shown, where cores = 3 and gateway_run = "\<lambda>_. Run_Forever"]
  from panics [of "load_settings (empty_settings\<lparr>sf_bind := Some ''[::1]''\<rparr>)"]
    panics [of "load_settings (empty_settings\<lparr>sf_bind := Some ''::1''\<rparr>)"]
  show ?thesis by (simp add: bind tokio)
qed

end
