(* ===== verification/Tasks.thy ===== *)
theory Tasks
  imports Gateway
begin

text \<open>
  The workers' tasks under any scheduler (src/src/main.rs). Each worker takes requests from its
  bounded channel and spawns a task per request; tasks of one worker interleave at their
  \<open>await\<close> points, which are the sends to the serial channels, and all workers share the node and those
  channels. The step relation below has one rule per piece of code between two \<open>await\<close> points, one for a
  request that the gateway puts into a channel, and one for a serial device that takes frames
  out of its channel; a call into the store is one step (\<open>Interleaving\<close> takes it apart). Shown, for
  every schedule: no step panics, every request is answered exactly once and in the end all are, the
  work is bounded, only guarded frames reach a serial channel, and what one worker has
  acknowledged all workers read.
\<close>

section \<open>Tasks\<close>

text \<open>
  Where a task stands: not yet polled, about to await the send to serial channel number \<open>k\<close>, or done.
\<close>

datatype pc = Spawned | Sending gateway_frame nat | Finished

record task =
  tk_worker :: nat
  tk_req :: gateway_request
  tk_pc :: pc
  tk_answers :: "frame list"

text \<open>All workers: what they share, the channel of each worker (oldest request first), the tasks.\<close>

record ('st, 'w, 'tx) sched =
  sc_server :: "('st, 'w, 'tx) server"
  sc_queues :: "gateway_request list list"
  sc_tasks :: "task list"

text \<open>The server as a task sees it: the responses are those on its own response channel.\<close>

definition task_view :: "('st, 'w, 'tx) sched \<Rightarrow> task \<Rightarrow> ('st, 'w, 'tx) server" where
  "task_view c tk = (sc_server c)\<lparr>sv_responses := tk_answers tk\<rparr>"

definition task_done :: "nat \<Rightarrow> ('st, 'w, 'tx) server \<Rightarrow> ('st, 'w, 'tx) sched \<Rightarrow> ('st, 'w, 'tx) sched" where
  "task_done i sv c =
     c\<lparr>sc_server := sv\<lparr>sv_responses := sv_responses (sc_server c)\<rparr>,
       sc_tasks := (sc_tasks c)[i := (sc_tasks c ! i)\<lparr>tk_pc := Finished, tk_answers := sv_responses sv\<rparr>]\<rparr>"

definition task_at :: "nat \<Rightarrow> pc \<Rightarrow> ('st, 'w, 'tx) sched \<Rightarrow> ('st, 'w, 'tx) sched" where
  "task_at i p c = c\<lparr>sc_tasks := (sc_tasks c)[i := (sc_tasks c ! i)\<lparr>tk_pc := p\<rparr>]\<rparr>"

text \<open>Whether a request is forwarded to the serial channels before it is stored.\<close>

definition forwards :: "bool \<Rightarrow> 'tx list \<Rightarrow> gateway_request \<Rightarrow> bool" where
  "forwards en txs req =
     (case req_cmd req of
        Put key val \<Rightarrow> starts_with key ''vm:'' \<and> txs \<noteq> [] \<and> vm_guard en (req_peer_addr req) val = None
      | _ \<Rightarrow> False)"

section \<open>Steps\<close>

text \<open>\<open>tokio::sync::mpsc::channel(131072)\<close>\<close>

definition channel_capacity :: nat where
  "channel_capacity = 131072"

datatype event =
    Recv nat
  | Poll nat
  | Push nat
  | Store nat
  | Arrive nat gateway_request
  | Device nat

inductive task_step ::
  "(bytes \<Rightarrow> hash32) \<Rightarrow> (nat \<Rightarrow> ('st, 'e::len word) state_store) \<Rightarrow>
   ('tx \<Rightarrow> gateway_frame \<Rightarrow> bool \<times> 'tx) \<Rightarrow> ('tx \<Rightarrow> bool) \<Rightarrow> ('tx \<Rightarrow> 'tx \<Rightarrow> bool) \<Rightarrow> bool \<Rightarrow>
   ('st, 'e word, 'tx) sched \<Rightarrow> event \<Rightarrow> ('st, 'e word, 'tx) sched \<Rightarrow> bool"
  for sha256 ops tx_send tx_ready device en where
  recv: "w < length (sc_queues c) \<Longrightarrow> sc_queues c ! w = req # rest \<Longrightarrow>
    task_step sha256 ops tx_send tx_ready device en c (Recv w)
      (c\<lparr>sc_queues := (sc_queues c)[w := rest],
         sc_tasks := sc_tasks c @ [\<lparr>tk_worker = w, tk_req = req, tk_pc = Spawned, tk_answers = []\<rparr>]\<rparr>)"
| poll: "i < length (sc_tasks c) \<Longrightarrow> tk = sc_tasks c ! i \<Longrightarrow> tk_pc tk = Spawned \<Longrightarrow>
    \<not> forwards en (sv_serial_txs (sc_server c)) (tk_req tk) \<Longrightarrow>
    handle_request sha256 (ops (tk_worker tk)) tx_send en (tk_worker tk) (tk_req tk) (task_view c tk) = Inr sv \<Longrightarrow>
    task_step sha256 ops tx_send tx_ready device en c (Poll i) (task_done i sv c)"
| poll_vm: "i < length (sc_tasks c) \<Longrightarrow> tk = sc_tasks c ! i \<Longrightarrow> tk_pc tk = Spawned \<Longrightarrow>
    forwards en (sv_serial_txs (sc_server c)) (tk_req tk) \<Longrightarrow>
    req_cmd (tk_req tk) = Put key val \<Longrightarrow> mac_of_key key = Inr mac \<Longrightarrow>
    task_step sha256 ops tx_send tx_ready device en c (Poll i) (task_at i (Sending (vm_frame mac val) 0) c)"
| push: "i < length (sc_tasks c) \<Longrightarrow> tk_pc (sc_tasks c ! i) = Sending f k \<Longrightarrow>
    k < length (sv_serial_txs (sc_server c)) \<Longrightarrow> tx_ready (sv_serial_txs (sc_server c) ! k) \<Longrightarrow>
    tx_send (sv_serial_txs (sc_server c) ! k) f = (ok, tx) \<Longrightarrow>
    task_step sha256 ops tx_send tx_ready device en c (Push i)
      (task_at i (Sending f (Suc k))
        (c\<lparr>sc_server := (sc_server c)\<lparr>sv_serial_txs := (sv_serial_txs (sc_server c))[k := tx],
             sv_send_errors := sv_send_errors (sc_server c) + (if ok then 0 else 1)\<rparr>\<rparr>))"
| store: "i < length (sc_tasks c) \<Longrightarrow> tk = sc_tasks c ! i \<Longrightarrow>
    tk_pc tk = Sending f (length (sv_serial_txs (sc_server c))) \<Longrightarrow> req_cmd (tk_req tk) = Put key val \<Longrightarrow>
    store_and_ack sha256 (ops (tk_worker tk)) key val (task_view c tk) = Inr sv \<Longrightarrow>
    task_step sha256 ops tx_send tx_ready device en c (Store i) (task_done i sv c)"
| arrive: "w < length (sc_queues c) \<Longrightarrow> length (sc_queues c ! w) < channel_capacity \<Longrightarrow>
    task_step sha256 ops tx_send tx_ready device en c (Arrive w req)
      (c\<lparr>sc_queues := (sc_queues c)[w := sc_queues c ! w @ [req]]\<rparr>)"
| device: "k < length (sv_serial_txs (sc_server c)) \<Longrightarrow> device (sv_serial_txs (sc_server c) ! k) tx \<Longrightarrow>
    task_step sha256 ops tx_send tx_ready device en c (Device k)
      (c\<lparr>sc_server := (sc_server c)\<lparr>sv_serial_txs := (sv_serial_txs (sc_server c))[k := tx]\<rparr>\<rparr>)"

inductive task_run ::
  "(bytes \<Rightarrow> hash32) \<Rightarrow> (nat \<Rightarrow> ('st, 'e::len word) state_store) \<Rightarrow>
   ('tx \<Rightarrow> gateway_frame \<Rightarrow> bool \<times> 'tx) \<Rightarrow> ('tx \<Rightarrow> bool) \<Rightarrow> ('tx \<Rightarrow> 'tx \<Rightarrow> bool) \<Rightarrow> bool \<Rightarrow>
   ('st, 'e word, 'tx) sched \<Rightarrow> event list \<Rightarrow> ('st, 'e word, 'tx) sched \<Rightarrow> bool"
  for sha256 ops tx_send tx_ready device en where
  run_none: "task_run sha256 ops tx_send tx_ready device en c [] c"
| run_step: "task_run sha256 ops tx_send tx_ready device en c es c1 \<Longrightarrow>
    task_step sha256 ops tx_send tx_ready device en c1 e c2 \<Longrightarrow>
    task_run sha256 ops tx_send tx_ready device en c (es @ [e]) c2"

inductive_cases recv_E: "task_step sha256 ops tx_send tx_ready device en c (Recv w) c'"
inductive_cases poll_E: "task_step sha256 ops tx_send tx_ready device en c (Poll i) c'"
inductive_cases push_E: "task_step sha256 ops tx_send tx_ready device en c (Push i) c'"
inductive_cases store_E: "task_step sha256 ops tx_send tx_ready device en c (Store i) c'"

definition sched_start ::
  "('st, 'w, 'tx) server \<Rightarrow> gateway_request list list \<Rightarrow> ('st, 'w, 'tx) sched" where
  "sched_start sv queues = \<lparr>sc_server = sv, sc_queues = queues, sc_tasks = []\<rparr>"

text \<open>The steps of the program itself, as against those of its environment.\<close>

fun own_step :: "event \<Rightarrow> bool" where
  "own_step (Arrive w req) = False"
| "own_step (Device k) = False"
| "own_step e = True"

section \<open>Frame lemmas\<close>

lemma task_view_sel [simp]:
  "sv_node (task_view c tk) = sv_node (sc_server c)" "sv_serial_txs (task_view c tk) = sv_serial_txs (sc_server c)"
  "sv_responses (task_view c tk) = tk_answers tk" "sv_send_errors (task_view c tk) = sv_send_errors (sc_server c)"
  by (simp_all add: task_view_def)

lemma task_done_sel [simp]:
  "sv_node (sc_server (task_done i sv c)) = sv_node sv"
  "sv_serial_txs (sc_server (task_done i sv c)) = sv_serial_txs sv"
  "sc_queues (task_done i sv c) = sc_queues c"
  "sc_tasks (task_done i sv c) =
     (sc_tasks c)[i := (sc_tasks c ! i)\<lparr>tk_pc := Finished, tk_answers := sv_responses sv\<rparr>]"
  by (simp_all add: task_done_def)

lemma task_at_sel [simp]:
  "sc_server (task_at i p c) = sc_server c" "sc_queues (task_at i p c) = sc_queues c"
  "sc_tasks (task_at i p c) = (sc_tasks c)[i := (sc_tasks c ! i)\<lparr>tk_pc := p\<rparr>]"
  by (simp_all add: task_at_def)

text \<open>A request that is not forwarded leaves the serial channels alone.\<close>

lemma handle_request_no_forward:
  assumes "handle_request sha256 ops tx_send en w req sv = Inr sv'" and "\<not> forwards en (sv_serial_txs sv) req"
  shows "sv_serial_txs sv' = sv_serial_txs sv"
proof (cases "req_cmd req")
  case (Put key val)
  with assms show ?thesis
    by (auto simp: handle_request_def handle_put_def forwards_def store_and_ack_serial split: if_splits option.splits)
qed (use assms(1) in \<open>auto simp: handle_request_def handle_get_def res_simps Let_def split: option.splits\<close>)

section \<open>The invariant\<close>

text \<open>The frame that a request may send: the guard of \<open>Gateway\<close> has passed, and it is the request's own.\<close>

definition guarded_frame :: "bool \<Rightarrow> gateway_request \<Rightarrow> gateway_frame \<Rightarrow> bool" where
  "guarded_frame en req f \<longleftrightarrow>
     (\<exists>key val addr mac. req_cmd req = Put key val \<and> starts_with key ''vm:'' \<and> en \<and>
        req_peer_addr req = Some addr \<and> is_loopback (ip addr) \<and> length val \<le> 4096 \<and>
        mac_of_key key = Inr mac \<and> f = \<lparr>mac_addr = mac, frame_payload = 0x40 # val\<rparr>)"

definition task_ok :: "bool \<Rightarrow> nat \<Rightarrow> task \<Rightarrow> bool" where
  "task_ok en n tk =
     (case tk_pc tk of
        Spawned \<Rightarrow> tk_answers tk = []
      | Sending f k \<Rightarrow> tk_answers tk = [] \<and> k \<le> n \<and> guarded_frame en (tk_req tk) f
      | Finished \<Rightarrow> length (tk_answers tk) = 1)"

definition sched_ok :: "('st \<Rightarrow> bool) \<Rightarrow> bool \<Rightarrow> ('st, 'w, 'tx) sched \<Rightarrow> bool" where
  "sched_ok good en c \<longleftrightarrow>
     good (node_storage (sv_node (sc_server c))) \<and>
     (\<forall>tk \<in> set (sc_tasks c). task_ok en (length (sv_serial_txs (sc_server c))) tk)"

lemma forwards_guarded:
  assumes "forwards en txs req" and "req_cmd req = Put key val" and "mac_of_key key = Inr mac"
  shows "guarded_frame en req (vm_frame mac val)"
  using assms by (auto simp: forwards_def guarded_frame_def vm_guard_None vm_frame_def)

lemma task_ok_simps [simp]:
  "tk_pc tk = Spawned \<Longrightarrow> task_ok en n tk \<longleftrightarrow> tk_answers tk = []"
  "tk_pc tk = Sending f k \<Longrightarrow> task_ok en n tk \<longleftrightarrow> tk_answers tk = [] \<and> k \<le> n \<and> guarded_frame en (tk_req tk) f"
  "tk_pc tk = Finished \<Longrightarrow> task_ok en n tk \<longleftrightarrow> length (tk_answers tk) = 1"
  by (simp_all add: task_ok_def)

lemma sched_ok_task:
  "sched_ok good en c \<Longrightarrow> i < length (sc_tasks c) \<Longrightarrow> task_ok en (length (sv_serial_txs (sc_server c))) (sc_tasks c ! i)"
  by (simp add: sched_ok_def)

lemma sched_ok_done:
  assumes "sched_ok good en c" and "good (node_storage (sv_node sv))"
    and "length (sv_serial_txs sv) = length (sv_serial_txs (sc_server c))" and "length (sv_responses sv) = 1"
  shows "sched_ok good en (task_done i sv c)"
  using assms by (auto simp: sched_ok_def dest!: in_set_update)

lemma sched_ok_at:
  assumes "sched_ok good en c" and "task_ok en (length (sv_serial_txs (sc_server c))) ((sc_tasks c ! i)\<lparr>tk_pc := p\<rparr>)"
  shows "sched_ok good en (task_at i p c)"
  using assms by (auto simp: sched_ok_def dest!: in_set_update)

text \<open>
  The contract of the store towards the workers: a call from any worker's thread succeeds and keeps the
  store well-formed.
\<close>

locale worker_stores =
  fixes ops :: "nat \<Rightarrow> ('st, 'e::len word) state_store"
    and wf :: "'st \<Rightarrow> bool"
  assumes worker_total: "total_store (ops w) wf"
begin

lemmas request_ok = total_store.handle_request_ok [OF worker_total]

lemmas ack_ok = total_store.store_and_ack_ok [OF worker_total]

lemma sched_ok_step:
  assumes "task_step sha256 ops tx_send tx_ready device en c e c'" and ok: "sched_ok wf en c"
  shows "sched_ok wf en c'"
  using assms(1)
proof cases
  case (poll i tk sv)
  have "wf (node_storage (sv_node (task_view c tk)))" using ok by (simp add: sched_ok_def)
  then obtain f where "wf (node_storage (sv_node sv))" "sv_responses sv = tk_answers tk @ [f]"
    using request_ok [of "task_view c tk" sha256 "tk_worker tk" tx_send en "tk_worker tk" "tk_req tk"] poll(7) by auto
  moreover have "tk_answers tk = []" using sched_ok_task [OF ok poll(3)] poll(4,5) by simp
  moreover have "sv_serial_txs sv = sv_serial_txs (sc_server c)"
    using handle_request_no_forward [OF poll(7)] poll(6) by simp
  ultimately show ?thesis unfolding poll(2) by (intro sched_ok_done [OF ok]) simp_all
next
  case (poll_vm i tk key val mac)
  have "tk_answers (sc_tasks c ! i) = []" using sched_ok_task [OF ok poll_vm(3)] poll_vm(4,5) by simp
  moreover have "guarded_frame en (tk_req (sc_tasks c ! i)) (vm_frame mac val)"
    using forwards_guarded [OF poll_vm(6-8)] poll_vm(4) by simp
  ultimately show ?thesis unfolding poll_vm(2) by (intro sched_ok_at [OF ok]) simp
next
  case (push i f k okay tx)
  let ?c = "c\<lparr>sc_server := (sc_server c)\<lparr>sv_serial_txs := (sv_serial_txs (sc_server c))[k := tx],
             sv_send_errors := sv_send_errors (sc_server c) + (if okay then 0 else 1)\<rparr>\<rparr>"
  have "sched_ok wf en ?c" using ok by (simp add: sched_ok_def)
  then show ?thesis
    using sched_ok_task [OF ok push(3)] push(4,5) unfolding push(2) by (intro sched_ok_at) simp_all
next
  case (store i tk f key val sv)
  have wf: "wf (node_storage (sv_node (task_view c tk)))" using ok by (simp add: sched_ok_def)
  have "tk_answers tk = []" using sched_ok_task [OF ok store(3)] store(4,5) by simp
  with ack_ok [OF wf, of sha256 "tk_worker tk" key val] store(7) show ?thesis
    unfolding store(2) by (intro sched_ok_done [OF ok]) auto
qed (use ok in \<open>auto simp: sched_ok_def\<close>)

lemma sched_ok_run:
  assumes "task_run sha256 ops tx_send tx_ready device en c es c'" and "sched_ok wf en c"
  shows "sched_ok wf en c'"
  using assms by induction (auto intro: sched_ok_step)

end

section \<open>Bounded work\<close>

text \<open>
  With \<open>n\<close> serial channels, a queued request takes at most \<open>n + 3\<close> steps: it is received, polled, sent to
  every channel and stored.
\<close>

fun pc_work :: "nat \<Rightarrow> pc \<Rightarrow> nat" where
  "pc_work n Spawned = n + 2"
| "pc_work n (Sending f k) = n - k + 1"
| "pc_work n Finished = 0"

definition channels :: "('st, 'w, 'tx) sched \<Rightarrow> nat" where
  "channels c = length (sv_serial_txs (sc_server c))"

definition queued :: "('st, 'w, 'tx) sched \<Rightarrow> nat" where
  "queued c = sum_list (map length (sc_queues c))"

definition task_work :: "('st, 'w, 'tx) sched \<Rightarrow> nat" where
  "task_work c = sum_list (map (\<lambda>tk. pc_work (channels c) (tk_pc tk)) (sc_tasks c))"

definition work :: "('st, 'w, 'tx) sched \<Rightarrow> nat" where
  "work c = (channels c + 3) * queued c + task_work c"

lemma task_work_update:
  assumes "i < length (sc_tasks c)" and "channels c' = channels c" and "sc_tasks c' = (sc_tasks c)[i := tk]"
  shows "task_work c' + pc_work (channels c) (tk_pc (sc_tasks c ! i)) = task_work c + pc_work (channels c) (tk_pc tk)"
  using sum_map_update [OF assms(1), of "\<lambda>tk. pc_work (channels c) (tk_pc tk)" tk] assms(2,3)
  by (simp add: task_work_def)

lemma queued_update:
  assumes "w < length (sc_queues c)" and "sc_queues c' = (sc_queues c)[w := q]"
  shows "queued c' + length (sc_queues c ! w) = queued c + length q"
  using sum_map_update [OF assms(1), of length q] assms(2) by (simp add: queued_def)

lemma step_channels:
  assumes "task_step sha256 ops tx_send tx_ready device en c e c'"
  shows "channels c' = channels c"
  using assms
proof cases
  case (poll i tk sv)
  then show ?thesis using handle_request_no_forward [OF poll(7)] by (simp add: channels_def)
next
  case (store i tk f key val sv)
  then show ?thesis using store_and_ack_serial [OF store(7)] by (simp add: channels_def)
qed (auto simp: channels_def)

text \<open>The steps of the program use up work; a device changes nothing, an arriving request adds its own.\<close>

lemma step_work:
  assumes "task_step sha256 ops tx_send tx_ready device en c e c'"
  shows "work c' + (if own_step e then 1 else 0) \<le> work c + (case e of Arrive w req \<Rightarrow> channels c + 3 | _ \<Rightarrow> 0)"
  using assms
proof cases
  case (recv w req rest)
  then have "queued c' + 1 = queued c" using queued_update [OF recv(3), of c' rest] by simp
  then have "(channels c + 3) * queued c' + (channels c + 3) = (channels c + 3) * queued c"
    by (metis add_mult_distrib2 mult.right_neutral)
  moreover have "task_work c' = task_work c + (channels c + 2)"
    using recv(2) by (simp add: task_work_def channels_def)
  ultimately show ?thesis using recv(1) step_channels [OF assms] by (simp add: work_def)
next
  case (poll i tk sv)
  have "task_work c' + (channels c + 2) = task_work c"
    using task_work_update [OF poll(3) step_channels [OF assms]] poll(2,4,5) by simp
  then show ?thesis using poll(1,2) step_channels [OF assms] by (simp add: work_def queued_def)
next
  case (poll_vm i tk key val mac)
  have "task_work c' + (channels c + 2) = task_work c + (channels c + 1)"
    using task_work_update [OF poll_vm(3) step_channels [OF assms]] poll_vm(2,4,5) by simp
  then show ?thesis using poll_vm(1,2) step_channels [OF assms] by (simp add: work_def queued_def)
next
  case (push i f k okay tx)
  have "task_work c' + (channels c - k + 1) = task_work c + (channels c - Suc k + 1)"
    using task_work_update [OF push(3) step_channels [OF assms]] push(2,4) by simp
  then have "task_work c' + 1 = task_work c" using push(5) by (simp add: channels_def)
  then show ?thesis using push(1,2) step_channels [OF assms] by (simp add: work_def queued_def)
next
  case (store i tk f key val sv)
  have "task_work c' + 1 = task_work c"
    using task_work_update [OF store(3) step_channels [OF assms]] store(2,4,5) by (simp add: channels_def)
  then show ?thesis using store(1,2) step_channels [OF assms] by (simp add: work_def queued_def)
next
  case (arrive w req)
  then have "queued c' = queued c + 1" using queued_update [OF arrive(3), of c' "sc_queues c ! w @ [req]"] by simp
  then have "(channels c + 3) * queued c' = (channels c + 3) * queued c + (channels c + 3)" by simp
  moreover have "task_work c' = task_work c" using arrive(2) by (simp add: task_work_def channels_def)
  ultimately show ?thesis using arrive(1) step_channels [OF assms] by (simp add: work_def)
next
  case (device k tx)
  then show ?thesis using step_channels [OF assms] by (simp add: work_def queued_def task_work_def channels_def)
qed

fun is_arrival :: "event \<Rightarrow> bool" where
  "is_arrival (Arrive w req) = True"
| "is_arrival e = False"

lemma run_work:
  assumes "task_run sha256 ops tx_send tx_ready device en c es c'"
  shows "channels c' = channels c \<and>
    work c' + length (filter own_step es) \<le> work c + (channels c + 3) * length (filter is_arrival es)"
  using assms
proof induction
  case (run_step c es c1 e c2)
  have "channels c2 = channels c" using step_channels [OF run_step(2)] run_step(3) by simp
  moreover have "work c2 + (if own_step e then 1 else 0) \<le> work c1 + (if is_arrival e then channels c + 3 else 0)"
    using step_work [OF run_step(2)] run_step(3) by (cases e) simp_all
  ultimately show ?case using run_step(3) by (cases "is_arrival e"; cases "own_step e") (simp_all add: algebra_simps)
qed simp

section \<open>Progress\<close>

context worker_stores
begin

lemma unfinished_task_steps:
  assumes ok: "sched_ok wf en c" and i: "i < length (sc_tasks c)" and "tk_pc (sc_tasks c ! i) \<noteq> Finished"
    and ready: "\<And>f k. tk_pc (sc_tasks c ! i) = Sending f k \<Longrightarrow> k < length (sv_serial_txs (sc_server c)) \<Longrightarrow>
      tx_ready (sv_serial_txs (sc_server c) ! k)"
  shows "\<exists>e c'. own_step e \<and> task_step sha256 ops tx_send tx_ready device en c e c'"
proof -
  let ?tk = "sc_tasks c ! i"
  have wf: "wf (node_storage (sv_node (task_view c ?tk)))" using ok by (simp add: sched_ok_def)
  show ?thesis
  proof (cases "tk_pc ?tk")
    case Spawned
    show ?thesis
    proof (cases "forwards en (sv_serial_txs (sc_server c)) (tk_req ?tk)")
      case True
      then obtain key val where put: "req_cmd (tk_req ?tk) = Put key val"
        by (auto simp: forwards_def split: gateway_command.splits)
      obtain mac where "mac_of_key key = Inr mac" using mac_of_key_total by blast
      with poll_vm [OF i refl Spawned True put] show ?thesis by (meson own_step.simps(4))
    next
      case False
      from request_ok [OF wf] obtain sv where
        "handle_request sha256 (ops (tk_worker ?tk)) tx_send en (tk_worker ?tk) (tk_req ?tk) (task_view c ?tk) = Inr sv" by blast
      from poll [where ops = ops, OF i refl Spawned False this] show ?thesis by (meson own_step.simps(4))
    qed
  next
    case (Sending f k)
    have k: "k \<le> length (sv_serial_txs (sc_server c))" and g: "guarded_frame en (tk_req ?tk) f"
      using sched_ok_task [OF ok i] Sending by simp_all
    show ?thesis
    proof (cases "k = length (sv_serial_txs (sc_server c))")
      case True
      obtain key val where put: "req_cmd (tk_req ?tk) = Put key val" using g by (auto simp: guarded_frame_def)
      obtain sv where "store_and_ack sha256 (ops (tk_worker ?tk)) key val (task_view c ?tk) = Inr sv"
        using ack_ok [OF wf] by blast
      from store [where ops = ops, OF i refl _ put this] Sending True show ?thesis by (meson own_step.simps(6))
    next
      case False
      with k have lt: "k < length (sv_serial_txs (sc_server c))" by simp
      with ready [OF Sending] have room: "tx_ready (sv_serial_txs (sc_server c) ! k)" by simp
      obtain okay tx where "tx_send (sv_serial_txs (sc_server c) ! k) f = (okay, tx)"
        by (cases "tx_send (sv_serial_txs (sc_server c) ! k) f")
      from push [of i c f k tx_ready tx_send, OF i Sending lt room this] show ?thesis by (meson own_step.simps(5))
    qed
  next
    case Finished
    with assms(3) show ?thesis by simp
  qed
qed

text \<open>As long as a request is unanswered and the serial channels have room, the program can go on.\<close>

lemma progress:
  assumes "sched_ok wf en c" and "\<forall>tx \<in> set (sv_serial_txs (sc_server c)). tx_ready tx"
    and stuck: "\<And>e c'. own_step e \<Longrightarrow> \<not> task_step sha256 ops tx_send tx_ready device en c e c'"
  shows "\<forall>q \<in> set (sc_queues c). q = []" and "\<forall>tk \<in> set (sc_tasks c). tk_pc tk = Finished \<and> length (tk_answers tk) = 1"
proof -
  show "\<forall>q \<in> set (sc_queues c). q = []"
  proof
    fix q
    assume "q \<in> set (sc_queues c)"
    then obtain w where w: "w < length (sc_queues c)" "sc_queues c ! w = q" by (metis in_set_conv_nth)
    show "q = []"
    proof (cases q)
      case (Cons req rest)
      with w(2) have "sc_queues c ! w = req # rest" by simp
      then have "\<exists>c'. task_step sha256 ops tx_send tx_ready device en c (Recv w) c'"
        using recv [OF w(1)] by blast
      with stuck [of "Recv w"] show ?thesis by simp
    qed simp
  qed
  show "\<forall>tk \<in> set (sc_tasks c). tk_pc tk = Finished \<and> length (tk_answers tk) = 1"
  proof
    fix tk
    assume "tk \<in> set (sc_tasks c)"
    then obtain i where i: "i < length (sc_tasks c)" "sc_tasks c ! i = tk" by (metis in_set_conv_nth)
    then have "tk_pc tk = Finished"
      using unfinished_task_steps [OF assms(1) i(1), of tx_ready] assms(2) stuck by (metis nth_mem)
    then show "tk_pc tk = Finished \<and> length (tk_answers tk) = 1"
      using sched_ok_task [OF assms(1) i(1)] i(2) by simp
  qed
qed

end

section \<open>Requests are taken in order\<close>

definition spawned :: "('st, 'w, 'tx) sched \<Rightarrow> (nat \<times> gateway_request) list" where
  "spawned c = map (\<lambda>tk. (tk_worker tk, tk_req tk)) (sc_tasks c)"

text \<open>The requests of worker \<open>w\<close>: those it has spawned tasks for, then those in its channel.\<close>

definition taken :: "nat \<Rightarrow> ('st, 'w, 'tx) sched \<Rightarrow> gateway_request list" where
  "taken w c = map snd (filter (\<lambda>p. fst p = w) (spawned c)) @ sc_queues c ! w"

fun arrivals :: "nat \<Rightarrow> event list \<Rightarrow> gateway_request list" where
  "arrivals w [] = []"
| "arrivals w (e # es) = (case e of Arrive w' req \<Rightarrow> if w' = w then [req] else [] | _ \<Rightarrow> []) @ arrivals w es"

lemma arrivals_append [simp]: "arrivals w (xs @ ys) = arrivals w xs @ arrivals w ys"
  by (induction xs) (simp_all split: event.splits)

lemma spawned_update:
  assumes "sc_tasks c' = (sc_tasks c)[i := tk]" and "i < length (sc_tasks c)"
    and "tk_worker tk = tk_worker (sc_tasks c ! i)" and "tk_req tk = tk_req (sc_tasks c ! i)"
  shows "spawned c' = spawned c"
  using assms by (simp add: spawned_def map_update list_update_same_conv)

lemma step_taken:
  assumes "task_step sha256 ops tx_send tx_ready device en c e c'" and "w < length (sc_queues c)"
  shows "length (sc_queues c') = length (sc_queues c) \<and> taken w c' = taken w c @ arrivals w [e]"
  using assms(1)
proof cases
  case (recv v req rest)
  then show ?thesis using assms(2) by (auto simp: taken_def spawned_def nth_list_update)
next
  case (poll i tk sv)
  then show ?thesis using spawned_update [of c' c i] by (simp add: taken_def)
next
  case (poll_vm i tk key val mac)
  then show ?thesis using spawned_update [of c' c i] by (simp add: taken_def)
next
  case (push i f k okay tx)
  then show ?thesis using spawned_update [of c' c i] by (simp add: taken_def)
next
  case (store i tk f key val sv)
  then show ?thesis using spawned_update [of c' c i] by (simp add: taken_def)
next
  case (arrive v req)
  then show ?thesis using assms(2) by (auto simp: taken_def spawned_def nth_list_update)
next
  case (device k tx)
  then show ?thesis by (simp add: taken_def spawned_def)
qed

lemma run_taken:
  assumes "task_run sha256 ops tx_send tx_ready device en c es c'" and "w < length (sc_queues c)"
  shows "length (sc_queues c') = length (sc_queues c) \<and> taken w c' = taken w c @ arrivals w es"
  using assms
proof induction
  case (run_step c es c1 e c2)
  with step_taken [OF run_step(2), of w] show ?case by auto
qed simp

section \<open>What one worker acknowledges, all workers read\<close>

text \<open>A request or task that may still put to a slot.\<close>

definition puts_to :: "(hash32 \<Rightarrow> nat) \<Rightarrow> (bytes \<Rightarrow> hash32) \<Rightarrow> nat \<Rightarrow> gateway_request \<Rightarrow> bool" where
  "puts_to slot sha256 s req =
     (case req_cmd req of Put key val \<Rightarrow> slot (sha256 (as_bytes key)) = s | _ \<Rightarrow> False)"

definition quiet_on :: "(hash32 \<Rightarrow> nat) \<Rightarrow> (bytes \<Rightarrow> hash32) \<Rightarrow> nat \<Rightarrow> ('st, 'w, 'tx) sched \<Rightarrow> bool" where
  "quiet_on slot sha256 s c \<longleftrightarrow>
     (\<forall>q \<in> set (sc_queues c). \<forall>req \<in> set q. \<not> puts_to slot sha256 s req) \<and>
     (\<forall>tk \<in> set (sc_tasks c). tk_pc tk \<noteq> Finished \<longrightarrow> \<not> puts_to slot sha256 s (tk_req tk))"

lemma quiet_update:
  assumes "quiet_on slot sha256 s c" and "i < length (sc_tasks c)" and "sc_queues c' = sc_queues c"
    and "sc_tasks c' = (sc_tasks c)[i := tk]" and "tk_req tk = tk_req (sc_tasks c ! i)"
    and "tk_pc tk = Finished \<or> tk_pc (sc_tasks c ! i) \<noteq> Finished"
  shows "quiet_on slot sha256 s c'"
  using assms unfolding quiet_on_def by (auto dest!: in_set_update)

lemma quiet_queue:
  assumes "quiet_on slot sha256 s c" and "sc_queues c' = (sc_queues c)[v := q]"
    and "\<And>req. req \<in> set q \<Longrightarrow> \<not> puts_to slot sha256 s req"
    and "\<And>tk. tk \<in> set (sc_tasks c') \<Longrightarrow> tk \<in> set (sc_tasks c) \<or> \<not> puts_to slot sha256 s (tk_req tk)"
  shows "quiet_on slot sha256 s c'"
  unfolding quiet_on_def assms(2)
proof (intro conjI ballI impI)
  fix q' req
  assume "q' \<in> set ((sc_queues c)[v := q])" "req \<in> set q'"
  with assms(1,3) show "\<not> puts_to slot sha256 s req" unfolding quiet_on_def by (blast dest: in_set_update)
next
  fix tk
  assume "tk \<in> set (sc_tasks c')" "tk_pc tk \<noteq> Finished"
  with assms(1,4) show "\<not> puts_to slot sha256 s (tk_req tk)" unfolding quiet_on_def by blast
qed

lemma quiet_queued:
  "quiet_on slot sha256 s c \<Longrightarrow> v < length (sc_queues c) \<Longrightarrow> req \<in> set (sc_queues c ! v) \<Longrightarrow> \<not> puts_to slot sha256 s req"
  unfolding quiet_on_def using nth_mem by blast

lemma quiet_step:
  assumes "task_step sha256 ops tx_send tx_ready device en c e c'" and quiet: "quiet_on slot sha256 s c"
    and "\<forall>w req. e = Arrive w req \<longrightarrow> \<not> puts_to slot sha256 s req"
  shows "quiet_on slot sha256 s c'"
  using assms(1)
proof cases
  case (recv v req rest)
  show ?thesis
    by (rule quiet_queue [OF quiet, of c' v rest])
      (use recv quiet_queued [OF quiet recv(3)] in auto)
next
  case (poll i tk sv)
  then show ?thesis using quiet_update [OF quiet, of i c'] by simp
next
  case (poll_vm i tk key val mac)
  then show ?thesis using quiet_update [OF quiet, of i c'] by simp
next
  case (push i f k okay tx)
  then show ?thesis using quiet_update [OF quiet, of i c'] by simp
next
  case (store i tk f key val sv)
  then show ?thesis using quiet_update [OF quiet, of i c'] by simp
next
  case (arrive v req)
  then show ?thesis
    by (intro quiet_queue [OF quiet, of c' v "sc_queues c ! v @ [req]"])
      (use assms(3) quiet_queued [OF quiet arrive(3)] in auto)
next
  case (device k tx)
  with quiet show ?thesis by (simp add: quiet_on_def)
qed

text \<open>The reads of a key that finished since \<open>old\<close>: all of them answered \<open>val\<close>.\<close>

definition new_reads :: "task list \<Rightarrow> string \<Rightarrow> bytes \<Rightarrow> ('st, 'w, 'tx) sched \<Rightarrow> bool" where
  "new_reads old key val c \<longleftrightarrow>
     (\<forall>i < length (sc_tasks c). req_cmd (tk_req (sc_tasks c ! i)) = Get key \<longrightarrow>
        tk_pc (sc_tasks c ! i) = Finished \<longrightarrow> \<not> (i < length old \<and> tk_pc (old ! i) = Finished) \<longrightarrow>
        tk_answers (sc_tasks c ! i) = [BulkString (Some val)])"

lemma new_reads_update:
  assumes "new_reads old key val c" and "i < length (sc_tasks c)" and "sc_tasks c' = (sc_tasks c)[i := tk]"
    and "req_cmd (tk_req tk) = Get key \<Longrightarrow> tk_pc tk = Finished \<Longrightarrow> tk_answers tk = [BulkString (Some val)]"
  shows "new_reads old key val c'"
  using assms unfolding new_reads_def by (auto simp: nth_list_update)

lemma new_reads_at:
  "new_reads old key val c \<Longrightarrow> i < length (sc_tasks c) \<Longrightarrow> sc_tasks c1 = sc_tasks c \<Longrightarrow> p \<noteq> Finished \<Longrightarrow>
   new_reads old key val (task_at i p c1)"
  using new_reads_update [of old key val c i "task_at i p c1" "(sc_tasks c ! i)\<lparr>tk_pc := p\<rparr>"] by simp

lemma new_reads_append:
  assumes "new_reads old key val c" and "sc_tasks c' = sc_tasks c @ [tk]" and "tk_pc tk = Spawned"
  shows "new_reads old key val c'"
  using assms unfolding new_reads_def by (auto simp: nth_append less_Suc_eq)

context cached_store
begin

lemma store_and_ack_slot:
  assumes "wf (node_storage (sv_node sv))" and "store_and_ack sha256 ops key val sv = Inr sv'"
  shows "peek (node_storage (sv_node sv')) =
    (peek (node_storage (sv_node sv)))(slot (sha256 (as_bytes key)) \<mapsto> kv_record sha256 (as_bytes key) val)"
  using l2_put_ok [OF assms(1), of "as_bytes key" val] assms(2) by (auto simp: store_and_ack_def)

lemma handle_get_slot:
  assumes "wf (node_storage (sv_node sv))" and "handle_get sha256 ops key sv = Inr sv'"
    and "peek (node_storage (sv_node sv)) (slot (sha256 (as_bytes key))) = Some (kv_record sha256 k v)"
  shows "sv_responses sv' = sv_responses sv @ [BulkString (Some v)]"
  using l2_get_slot [OF assms(1,3)] assms(2) by (auto simp: handle_get_def)

lemma handle_request_slot:
  assumes wf: "wf (node_storage (sv_node sv))" and "peek (node_storage (sv_node sv)) s = Some r"
    and run: "handle_request sha256 ops tx_send en w req sv = Inr sv'"
    and "\<not> puts_to slot sha256 s req" and "\<not> forwards en (sv_serial_txs sv) req"
  shows "peek (node_storage (sv_node sv')) s = Some r"
proof (cases "req_cmd req")
  case (Get key)
  then have "handle_get sha256 ops key sv = Inr sv'" using run by (simp add: handle_request_def)
  then have "peek (node_storage (sv_node sv')) = peek (node_storage (sv_node sv))"
    using l2_get_ok [OF wf, of "as_bytes key"] by (auto simp: handle_get_def Let_def split: option.splits)
  with assms(2) show ?thesis by simp
next
  case (Put key val)
  then have "sv' = respond f sv \<or> store_and_ack sha256 ops key val sv = Inr sv'"
    if "f = (case vm_guard en (req_peer_addr req) val of Some e \<Rightarrow> ErrorFrame e | None \<Rightarrow> ErrorFrame [])" for f
    using run assms(5) that
    by (auto simp: handle_request_def handle_put_def forwards_def split: if_splits option.splits)
  then consider (err) f where "sv' = respond f sv" | (stored) "store_and_ack sha256 ops key val sv = Inr sv'"
    by blast
  then show ?thesis
  proof cases
    case err
    with assms(2) show ?thesis by simp
  next
    case stored
    with store_and_ack_slot [OF wf stored] assms(2,4) Put show ?thesis by (simp add: puts_to_def)
  qed
qed (use run assms(2) in \<open>auto simp: handle_request_def\<close>)

end

text \<open>The same contract with a view of the slots that all workers share.\<close>

locale cached_workers = worker_stores ops wf
  for ops :: "nat \<Rightarrow> ('st, 'e::len word) state_store" and wf :: "'st \<Rightarrow> bool" +
  fixes sha256 :: "bytes \<Rightarrow> hash32"
    and slot :: "hash32 \<Rightarrow> nat"
    and peek :: "'st \<Rightarrow> nat \<Rightarrow> 'e word signed_record option"
  assumes worker_cached: "cached_store (ops w) wf sha256 slot peek"
begin

definition slot_holds :: "nat \<Rightarrow> 'e word signed_record \<Rightarrow> ('st, 'e word, 'tx) sched \<Rightarrow> bool" where
  "slot_holds s r c \<longleftrightarrow> peek (node_storage (sv_node (sc_server c))) s = Some r"

lemmas ack_slot = cached_store.store_and_ack_slot [OF worker_cached]

lemmas get_slot = cached_store.handle_get_slot [OF worker_cached]

lemmas request_slot = cached_store.handle_request_slot [OF worker_cached]

text \<open>One step keeps the record in the slot, and answers reads of the key with it.\<close>

lemma visible_step:
  assumes step: "task_step sha256 ops tx_send tx_ready device en c e c'" and ok: "sched_ok wf en c"
    and quiet: "quiet_on slot sha256 s c" and holds: "slot_holds s (kv_record sha256 k val) c"
    and "s = slot (sha256 (as_bytes key))" and reads: "new_reads old key val c"
  shows "slot_holds s (kv_record sha256 k val) c' \<and> new_reads old key val c'"
  using step
proof cases
  case (recv v req rest)
  then show ?thesis using holds by (auto simp: slot_holds_def intro!: new_reads_append [OF reads])
next
  case (poll i tk sv)
  have wf: "wf (node_storage (sv_node (task_view c tk)))" using ok by (simp add: sched_ok_def)
  have tk: "tk \<in> set (sc_tasks c)" "tk_answers tk = []"
    using sched_ok_task [OF ok poll(3)] poll(3-5) by simp_all
  have peek: "peek (node_storage (sv_node (task_view c tk))) s = Some (kv_record sha256 k val)"
    using holds by (simp add: slot_holds_def)
  have "\<not> puts_to slot sha256 s (tk_req tk)" using quiet tk(1) poll(5) by (auto simp: quiet_on_def)
  then have "slot_holds s (kv_record sha256 k val) c'"
    using request_slot [OF wf peek poll(7)] poll(6) unfolding poll(2) slot_holds_def by simp
  moreover have "sv_responses sv = [BulkString (Some val)]" if "req_cmd (tk_req tk) = Get key"
    using get_slot [OF wf, of _ key sv] peek assms(5) poll(7) that tk(2) by (simp add: handle_request_def)
  then have "new_reads old key val c'"
    using new_reads_update [OF reads poll(3) task_done_sel(4), of sv] unfolding poll(2) poll(4) by simp
  ultimately show ?thesis by simp
next
  case (poll_vm i tk key' val' mac)
  then show ?thesis using holds new_reads_at [OF reads poll_vm(3) refl] by (simp add: slot_holds_def)
next
  case (push i f j okay tx)
  then show ?thesis using holds by (simp add: slot_holds_def new_reads_at [OF reads])
next
  case (store i tk f key' val' sv)
  have wf: "wf (node_storage (sv_node (task_view c tk)))" using ok by (simp add: sched_ok_def)
  have "tk \<in> set (sc_tasks c)" using store(3,4) by simp
  then have "slot (sha256 (as_bytes key')) \<noteq> s"
    using quiet store(5,6) by (auto simp: quiet_on_def puts_to_def)
  then have "slot_holds s (kv_record sha256 k val) c'"
    using ack_slot [OF wf store(7)] holds unfolding store(2) by (simp add: slot_holds_def)
  moreover have "new_reads old key val c'"
    using new_reads_update [OF reads store(3) task_done_sel(4), of sv] store(4,6) unfolding store(2) by simp
  ultimately show ?thesis by simp
next
  case (arrive v req)
  then show ?thesis using holds reads by (simp add: slot_holds_def new_reads_def)
next
  case (device k tx)
  then show ?thesis using holds reads by (simp add: slot_holds_def new_reads_def)
qed

text \<open>The step that acknowledges a \<open>SET\<close> has put its record into the slot.\<close>

lemma ack_poll:
  assumes "wf (node_storage (sv_node sv))" and "sv_responses sv = []"
    and run: "handle_request sha256 (ops v) tx_send en w req sv = Inr sv'"
    and put: "req_cmd req = Put key val" and "\<not> forwards en (sv_serial_txs sv) req"
    and ok: "sv_responses sv' = [SimpleString ''OK'']"
  shows "peek (node_storage (sv_node sv')) (slot (sha256 (as_bytes key))) = Some (kv_record sha256 (as_bytes key) val)"
proof -
  have "store_and_ack sha256 (ops v) key val sv = Inr sv'"
    using run put assms(2,5) ok
    by (auto simp: handle_request_def handle_put_def forwards_def split: if_splits option.splits)
  from ack_slot [OF assms(1) this] show ?thesis by simp
qed

lemma ack_step:
  assumes step: "task_step sha256 ops tx_send tx_ready device en c e c'" and ok: "sched_ok wf en c"
    and i: "i < length (sc_tasks c)" "tk_pc (sc_tasks c ! i) \<noteq> Finished" "tk_pc (sc_tasks c' ! i) = Finished"
    and put: "req_cmd (tk_req (sc_tasks c ! i)) = Put key val" and ack: "tk_answers (sc_tasks c' ! i) = [SimpleString ''OK'']"
  shows "slot_holds (slot (sha256 (as_bytes key))) (kv_record sha256 (as_bytes key) val) c'"
  using step
proof cases
  case (poll j tk sv)
  have j: "j = i" using i poll(2) by (cases "j = i") simp_all
  have wf: "wf (node_storage (sv_node (task_view c tk)))" using ok by (simp add: sched_ok_def)
  have "sv_responses (task_view c tk) = []" using sched_ok_task [OF ok poll(3)] poll(4,5) by simp
  from ack_poll [OF wf this poll(7)] show ?thesis
    using poll(2-4,6) put ack j by (simp add: slot_holds_def)
next
  case (store j tk f key' val' sv)
  have j: "j = i" using i store(2) by (cases "j = i") simp_all
  have wf: "wf (node_storage (sv_node (task_view c tk)))" using ok by (simp add: sched_ok_def)
  from ack_slot [OF wf store(7)] show ?thesis
    using store(2,4,6) put j by (simp add: slot_holds_def)
next
  case (recv v req rest)
  with i show ?thesis by (simp add: nth_append)
next
  case (poll_vm j tk key' val' mac)
  with i show ?thesis by (cases "j = i") simp_all
next
  case (push j f k okay tx)
  with i show ?thesis by (cases "j = i") simp_all
qed (use i in simp_all)

lemma visible_run:
  assumes "task_run sha256 ops tx_send tx_ready device en c es c'" and "sched_ok wf en c"
    and "quiet_on slot sha256 s c" and "slot_holds s (kv_record sha256 k val) c"
    and "s = slot (sha256 (as_bytes key))" and "new_reads old key val c"
    and "\<forall>w req. Arrive w req \<in> set es \<longrightarrow> \<not> puts_to slot sha256 s req"
  shows "slot_holds s (kv_record sha256 k val) c' \<and> new_reads old key val c' \<and> quiet_on slot sha256 s c'"
  using assms
proof induction
  case (run_step c es c1 e c2)
  then have c1: "slot_holds s (kv_record sha256 k val) c1" "new_reads old key val c1" "quiet_on slot sha256 s c1"
    by auto
  have "sched_ok wf en c1" using sched_ok_run [OF run_step(1)] run_step.prems(1) .
  then show ?case
    using visible_step [OF run_step(2) _ c1(3,1) run_step.prems(4) c1(2)]
      quiet_step [OF run_step(2) c1(3)] run_step.prems(6) by auto
qed simp

end

section \<open>Every schedule can be completed\<close>

lemma run_trans:
  assumes "task_run sha256 ops tx_send tx_ready device en c es c1"
    and "task_run sha256 ops tx_send tx_ready device en c1 es' c2"
  shows "task_run sha256 ops tx_send tx_ready device en c (es @ es') c2"
  using assms(2,1)
  by induction (auto intro: run_step simp flip: append_assoc)

lemma run_single:
  "task_step sha256 ops tx_send tx_ready device en c e c' \<Longrightarrow> task_run sha256 ops tx_send tx_ready device en c [e] c'"
  using run_step [OF run_none] by fastforce

lemma run_single_E:
  assumes "task_run sha256 ops tx_send tx_ready device en c [e] c'"
  shows "task_step sha256 ops tx_send tx_ready device en c e c'"
  using assms by (cases rule: task_run.cases) (auto elim: task_run.cases)

definition all_answered :: "('st, 'w, 'tx) sched \<Rightarrow> bool" where
  "all_answered c \<longleftrightarrow>
     (\<forall>q \<in> set (sc_queues c). q = []) \<and>
     (\<forall>tk \<in> set (sc_tasks c). tk_pc tk = Finished \<and> length (tk_answers tk) = 1)"

lemma all_done_idle:
  assumes "all_answered c" and "own_step e"
  shows "\<not> task_step sha256 ops tx_send tx_ready device en c e c'"
proof
  assume "task_step sha256 ops tx_send tx_ready device en c e c'"
  then show False
    using assms by cases (auto simp: all_answered_def dest!: nth_mem)
qed

lemma unanswered:
  assumes "sched_ok good en c" and "\<forall>q \<in> set (sc_queues c). q = []" and "\<not> all_answered c"
  shows "\<exists>i < length (sc_tasks c). tk_pc (sc_tasks c ! i) \<noteq> Finished"
proof -
  obtain tk where tk: "tk \<in> set (sc_tasks c)" "\<not> (tk_pc tk = Finished \<and> length (tk_answers tk) = 1)"
    using assms(2,3) by (auto simp: all_answered_def)
  moreover have "task_ok en (length (sv_serial_txs (sc_server c))) tk"
    using assms(1) tk(1) by (simp add: sched_ok_def)
  ultimately have "tk_pc tk \<noteq> Finished" by auto
  with tk(1) show ?thesis by (metis in_set_conv_nth)
qed

lemma own_step_work:
  "task_step sha256 ops tx_send tx_ready device en c e c' \<Longrightarrow> own_step e \<Longrightarrow> work c' < work c \<and> \<not> is_arrival e"
  using step_work [of sha256 ops tx_send tx_ready device en c e c'] by (cases e) simp_all

context worker_stores
begin

text \<open>One unfinished task moves on, after the device of a full channel has made room if need be.\<close>

lemma task_moves_on:
  assumes ok: "sched_ok wf en c" and i: "i < length (sc_tasks c)" "tk_pc (sc_tasks c ! i) \<noteq> Finished"
    and room: "\<And>tx. \<exists>tx'. device tx tx' \<and> tx_ready tx'"
  shows "\<exists>es c'. task_run sha256 ops tx_send tx_ready device en c es c' \<and> filter is_arrival es = [] \<and> work c' < work c"
proof (cases "\<exists>f k. tk_pc (sc_tasks c ! i) = Sending f k \<and> k < length (sv_serial_txs (sc_server c)) \<and>
    \<not> tx_ready (sv_serial_txs (sc_server c) ! k)")
  case False
  then obtain e c' where e: "own_step e" "task_step sha256 ops tx_send tx_ready device en c e c'"
    using unfinished_task_steps [OF ok i, of tx_ready] by blast
  then show ?thesis using own_step_work [OF e(2,1)] run_single [OF e(2)] by fastforce
next
  case True
  then obtain f k where k: "tk_pc (sc_tasks c ! i) = Sending f k" "k < length (sv_serial_txs (sc_server c))" by blast
  obtain tx where tx: "device (sv_serial_txs (sc_server c) ! k) tx" "tx_ready tx" using room by blast
  let ?c = "c\<lparr>sc_server := (sc_server c)\<lparr>sv_serial_txs := (sv_serial_txs (sc_server c))[k := tx]\<rparr>\<rparr>"
  have dev: "task_step sha256 ops tx_send tx_ready device en c (Device k) ?c"
    using device [of k c device tx] k(2) tx(1) by blast
  have "sched_ok wf en ?c" using sched_ok_step [OF dev ok] .
  then obtain e c' where e: "own_step e" "task_step sha256 ops tx_send tx_ready device en ?c e c'"
    using unfinished_task_steps [of en ?c i tx_ready] i k tx(2) by fastforce
  have "work ?c = work c" by (simp add: work_def channels_def queued_def task_work_def)
  then show ?thesis
    using own_step_work [OF e(2,1)] run_trans [OF run_single [OF dev] run_single [OF e(2)]] by fastforce
qed

lemma can_finish:
  assumes "sched_ok wf en c" and room: "\<And>tx. \<exists>tx'. device tx tx' \<and> tx_ready tx'"
  shows "\<exists>es c'. task_run sha256 ops tx_send tx_ready device en c es c' \<and> filter is_arrival es = [] \<and> all_answered c'"
  using assms(1)
proof (induction "work c" arbitrary: c rule: less_induct)
  case less
  show ?case
  proof (cases "all_answered c")
    case True
    then show ?thesis using run_none by fastforce
  next
    case False
    have "\<exists>es c'. task_run sha256 ops tx_send tx_ready device en c es c' \<and> filter is_arrival es = [] \<and> work c' < work c"
    proof (cases "\<forall>q \<in> set (sc_queues c). q = []")
      case True
      then obtain i where "i < length (sc_tasks c)" "tk_pc (sc_tasks c ! i) \<noteq> Finished"
        using unanswered [OF less.prems] False by blast
      then show ?thesis by (rule task_moves_on [OF less.prems _ _ room])
    next
      case False
      then obtain w req rest where "w < length (sc_queues c)" "sc_queues c ! w = req # rest"
        by (metis in_set_conv_nth neq_Nil_conv)
      from recv [OF this] have "\<exists>c'. task_step sha256 ops tx_send tx_ready device en c (Recv w) c'" by blast
      then obtain c' where c': "task_step sha256 ops tx_send tx_ready device en c (Recv w) c'" by blast
      show ?thesis using own_step_work [OF c'] run_single [OF c'] by fastforce
    qed
    then obtain es c1 where c1: "task_run sha256 ops tx_send tx_ready device en c es c1" "filter is_arrival es = []"
      "work c1 < work c" by blast
    from less.hyps [OF c1(3) sched_ok_run [OF c1(1) less.prems]] c1(1,2) show ?thesis
      by (fastforce dest: run_trans)
  qed
qed

end

end
