(* ===== verification/Threads.thy ===== *)
theory Threads
  imports Tasks
begin

text \<open>
  The tiered store as several worker threads use it: the index, the writer, the route and the database
  are shared (\<open>Arc\<close>), the worker cache is thread-local (\<open>thread_local!\<close> in src/src/storage.rs), one per
  worker. A call from worker \<open>w\<close> is a call of the tiered store with the cache of \<open>w\<close>. Shown: the
  store fulfils the contract of the scheduler of \<open>Tasks\<close>, and in every schedule a thread that is registered with
  the route stays registered as the same worker.
\<close>

section \<open>The store of several threads\<close>

text \<open>\<open>sh_tls w\<close> is the cache of worker \<open>w\<close>; the one in \<open>sh_store\<close> is that of the last caller.\<close>

record ('db, 'w) shared_store =
  sh_store :: "('db, 'w) tiered_store"
  sh_tls :: "nat \<Rightarrow> tls_worker_cache"

definition on_thread :: "nat \<Rightarrow> ('db, 'w) shared_store \<Rightarrow> ('db, 'w) tiered_store" where
  "on_thread w sh = (sh_store sh)\<lparr>ts_tls := sh_tls sh w\<rparr>"

definition off_thread :: "nat \<Rightarrow> ('db, 'w) shared_store \<Rightarrow> ('db, 'w) tiered_store \<Rightarrow> ('db, 'w) shared_store" where
  "off_thread w sh st = \<lparr>sh_store = st, sh_tls = (sh_tls sh)(w := ts_tls st)\<rparr>"

definition worker_ops ::
  "('db, 'qs) cddb \<Rightarrow> (bytes \<Rightarrow> hash32) \<Rightarrow> (bytes \<Rightarrow> u64) \<Rightarrow> ('db \<Rightarrow> 'db) \<Rightarrow> nat \<Rightarrow>
   (('db, 'e::len word) shared_store, 'e word) state_store" where
  "worker_ops cd sha256 ahash background w =
     (let ops = tiered_ops cd sha256 ahash background
      in \<lparr>ss_get_record = (\<lambda>sh h m.
            bind_res (ss_get_record ops (on_thread w sh) h m) (\<lambda>(x, st, m'). Inr (x, off_thread w sh st, m'))),
          ss_apply_signed_record = (\<lambda>sh r.
            bind_res (ss_apply_signed_record ops (on_thread w sh) r) (\<lambda>st. Inr (off_thread w sh st))),
          ss_get_by_epoch = (\<lambda>sh e.
            case ss_get_by_epoch ops (on_thread w sh) e of (rs, st) \<Rightarrow> (rs, off_thread w sh st)),
          ss_prune = (\<lambda>sh e k. off_thread w sh (ss_prune ops (on_thread w sh) e k)),
          ss_flush = (\<lambda>sh. off_thread w sh (ss_flush ops (on_thread w sh)))\<rparr>)"

text \<open>After \<open>main\<close> has built the store, no worker thread has used its cache yet.\<close>

definition share :: "('db, 'w) tiered_store \<Rightarrow> ('db, 'w) shared_store" where
  "share st = \<lparr>sh_store = st, sh_tls = (\<lambda>w. tls_init)\<rparr>"

definition shared_wf :: "('db, 'e::len word) shared_store \<Rightarrow> bool" where
  "shared_wf sh \<longleftrightarrow> index_wf (ts_hot_index (sh_store sh)) \<and> (\<forall>w. tls_wf (sh_tls sh w))"

definition shared_peek :: "('db, 'e::len word) shared_store \<Rightarrow> nat \<Rightarrow> 'e word signed_record option" where
  "shared_peek sh = tiered_peek (sh_store sh)"

lemma on_thread_wf: "shared_wf sh \<Longrightarrow> tiered_wf (on_thread w sh)"
  by (simp add: shared_wf_def tiered_wf_def on_thread_def)

lemma off_thread_wf: "shared_wf sh \<Longrightarrow> tiered_wf st \<Longrightarrow> shared_wf (off_thread w sh st)"
  by (simp add: shared_wf_def tiered_wf_def off_thread_def)

lemma share_wf: "tiered_wf st \<Longrightarrow> shared_wf (share st)"
  by (simp add: share_def shared_wf_def tiered_wf_def tls_wf_def tls_init_def)

lemma on_thread_peek [simp]: "tiered_peek (on_thread w sh) = shared_peek sh"
  by (simp add: on_thread_def shared_peek_def tiered_peek_def)

lemma off_thread_peek [simp]: "shared_peek (off_thread w sh st) = tiered_peek st"
  by (simp add: off_thread_def shared_peek_def)

lemmas thread_defs = worker_ops_def Let_def res_simps split_beta

section \<open>The contract\<close>

lemma worker_ops_cached:
  fixes cd :: "('db, 'qs) cddb"
  shows "cached_store (worker_ops cd sha256 ahash background w :: (('db, 'e::len word) shared_store, 'e word) state_store)
    shared_wf sha256 (key_slot ahash) shared_peek"
proof
  let ?wops = "worker_ops cd sha256 ahash background w :: (('db, 'e word) shared_store, 'e word) state_store"
  fix sh :: "('db, 'e word) shared_store" and h m r x sh' m' e k
  assume wf: "shared_wf sh"
  note st = on_thread_wf [OF wf, of w]
  show "\<exists>x st' m'. ss_get_record ?wops sh h m = Inr (x, st', m') \<and> shared_wf st'"
    using tiered.get_total [OF st, of cd sha256 ahash background h m] off_thread_wf [OF wf] by (auto simp: thread_defs)
  show "\<exists>st'. ss_apply_signed_record ?wops sh r = Inr st' \<and> shared_wf st'"
    using tiered.apply_total [OF st, of cd sha256 ahash background r] off_thread_wf [OF wf] by (auto simp: thread_defs)
  show "shared_wf (snd (ss_get_by_epoch ?wops sh e))"
    by (simp add: thread_defs off_thread_wf [OF wf] tiered.epoch_wf [OF st])
  show "shared_wf (ss_prune ?wops sh e k)"
    by (simp add: thread_defs off_thread_wf [OF wf] tiered.prune_wf [OF st])
  show "shared_wf (ss_flush ?wops sh)"
    by (simp add: thread_defs off_thread_wf [OF wf] tiered.flush_wf [OF st])
  show "shared_peek (snd (ss_get_by_epoch ?wops sh e)) = shared_peek sh"
    by (simp add: thread_defs tiered.peek_epoch [OF st])
  show "shared_peek (ss_prune ?wops sh e k) = shared_peek sh"
    by (simp add: thread_defs tiered.peek_prune [OF st])
  show "shared_peek (ss_flush ?wops sh) = shared_peek sh"
    by (simp add: thread_defs tiered.peek_flush [OF st])
  show "shared_peek sh' = (shared_peek sh)(key_slot ahash (key_of sha256 (payload r)) \<mapsto> r)"
    if "ss_apply_signed_record ?wops sh r = Inr sh'"
    using that by (auto simp: thread_defs tiered.peek_apply [OF st])
  assume get: "ss_get_record ?wops sh h m = Inr (x, sh', m')"
  then show "shared_peek sh' = shared_peek sh"
    by (auto simp: thread_defs tiered.peek_get [OF st])
  show "x = Some r" if "shared_peek sh (key_slot ahash h) = Some r"
    using get that by (auto simp: thread_defs dest!: tiered.get_cached [OF st])
qed

interpretation shared: cached_workers "worker_ops cd sha256 ahash background" shared_wf sha256
    "key_slot ahash" shared_peek
  for cd :: "('db, 'qs) cddb" and sha256 ahash background
  by (intro cached_workers.intro worker_stores.intro cached_workers_axioms.intro
      cached_store.axioms(1) [OF worker_ops_cached] worker_ops_cached)

section \<open>Registered threads\<close>

text \<open>Worker \<open>w\<close> is registered with the store's route, as the cdDB worker \<open>a\<close>.\<close>

definition registered :: "nat \<Rightarrow> arc \<Rightarrow> ('db, 'w) shared_store \<Rightarrow> bool" where
  "registered w a sh \<longleftrightarrow>
     tls_key (sh_tls sh w) = ts_route (sh_store sh) \<and> tls_worker (sh_tls sh w) = Some a"

definition keeps_registration :: "('db, 'w) tiered_store \<Rightarrow> ('db, 'w) tiered_store \<Rightarrow> bool" where
  "keeps_registration st st' \<longleftrightarrow>
     ts_route st' = ts_route st \<and>
     (tls_key (ts_tls st) = ts_route st \<and> tls_worker (ts_tls st) \<noteq> None \<longrightarrow> ts_tls st' = ts_tls st)"

lemma tiered_keeps_registration:
  "tiered_get_record cd ahash st h m = Inr (x, st', m') \<Longrightarrow> keeps_registration st st'"
  "tiered_apply_signed_record cd sha256 ahash st r = Inr st' \<Longrightarrow> keeps_registration st st'"
  "keeps_registration st (snd (tiered_get_by_epoch cd st e))"
  "keeps_registration st (tiered_prune st e k)"
  "keeps_registration st (tiered_flush background st)"
  by (auto simp: keeps_registration_def tiered_get_record_def tiered_apply_signed_record_def
      tiered_get_by_epoch_def tiered_prune_def tiered_flush_def res_simps Let_def split_beta get_worker_hit
      split: option.splits)

lemma off_thread_registered:
  "registered w a sh \<Longrightarrow> keeps_registration (on_thread v sh) st \<Longrightarrow> registered w a (off_thread v sh st)"
  by (auto simp: registered_def keeps_registration_def on_thread_def off_thread_def)

lemma worker_ops_registered:
  fixes cd :: "('db, 'qs) cddb"
  shows "total_store (worker_ops cd sha256 ahash background v :: (('db, 'e::len word) shared_store, 'e word) state_store)
    (\<lambda>sh. shared_wf sh \<and> registered w a sh)"
proof
  let ?wops = "worker_ops cd sha256 ahash background v :: (('db, 'e word) shared_store, 'e word) state_store"
  fix sh :: "('db, 'e word) shared_store" and h m r e k
  assume sh: "shared_wf sh \<and> registered w a sh"
  then have wf: "shared_wf sh" and reg: "registered w a sh" by simp_all
  note off = off_thread_registered [OF reg, of v] and keeps = tiered_keeps_registration
  note total = cached_store.axioms(1) [OF worker_ops_cached, of cd sha256 ahash background v]
  show "\<exists>x st' m'. ss_get_record ?wops sh h m = Inr (x, st', m') \<and> shared_wf st' \<and> registered w a st'"
    using total_store.get_total [OF total wf, of h m]
    by (auto simp: thread_defs tiered_ops_def intro!: off keeps(1))
  show "\<exists>st'. ss_apply_signed_record ?wops sh r = Inr st' \<and> shared_wf st' \<and> registered w a st'"
    using total_store.apply_total [OF total wf, of r]
    by (auto simp: thread_defs tiered_ops_def intro!: off keeps(2))
  show "shared_wf (snd (ss_get_by_epoch ?wops sh e)) \<and> registered w a (snd (ss_get_by_epoch ?wops sh e))"
    using total_store.epoch_wf [OF total wf, of e]
    by (auto simp: thread_defs tiered_ops_def intro!: off keeps(3))
  show "shared_wf (ss_prune ?wops sh e k) \<and> registered w a (ss_prune ?wops sh e k)"
    using total_store.prune_wf [OF total wf, of e k]
    by (auto simp: thread_defs tiered_ops_def intro!: off keeps(4))
  show "shared_wf (ss_flush ?wops sh) \<and> registered w a (ss_flush ?wops sh)"
    using total_store.flush_wf [OF total wf]
    by (auto simp: thread_defs tiered_ops_def intro!: off keeps(5))
qed

interpretation registered: worker_stores "worker_ops cd sha256 ahash background"
    "\<lambda>sh. shared_wf sh \<and> registered w a sh"
  for cd :: "('db, 'qs) cddb" and sha256 ahash background w a
  by (intro worker_stores.intro worker_ops_registered)

end
