(* ===== verification/Schedules.thy ===== *)
theory Schedules
  imports Threads Startup
begin

text \<open>
  Properties of the task scheduler of \<open>Tasks\<close>: what holds of every schedule of a server that \<open>main\<close> has
  brought up on a tiered store (src/src/main.rs), with a worker cache per thread, and that the sequential
  \<open>serve\<close> of \<open>Gateway\<close> is one of the schedules.
\<close>

section \<open>The sequential server as a schedule\<close>

text \<open>The handlers only add to the responses.\<close>

lemma store_and_ack_responses:
  "store_and_ack sha256 ops key val (sv\<lparr>sv_responses := rs\<rparr>) =
     bind_res (store_and_ack sha256 ops key val sv)
       (\<lambda>sv'. Inr (sv'\<lparr>sv_responses := rs @ drop (length (sv_responses sv)) (sv_responses sv')\<rparr>))"
  by (cases "l2_put sha256 ops (sv_node sv) (as_bytes key) val") (simp_all add: store_and_ack_def respond_def)

lemma handle_get_responses:
  "handle_get sha256 ops key (sv\<lparr>sv_responses := rs\<rparr>) =
     bind_res (handle_get sha256 ops key sv)
       (\<lambda>sv'. Inr (sv'\<lparr>sv_responses := rs @ drop (length (sv_responses sv)) (sv_responses sv')\<rparr>))"
  by (cases "l2_get sha256 ops (sv_node sv) (as_bytes key)")
    (auto simp: handle_get_def respond_def Let_def split: option.splits)

text \<open>A request that is not forwarded, on any response channel.\<close>

lemma handle_request_responses:
  assumes "\<not> forwards en (sv_serial_txs sv) req"
  shows "handle_request sha256 ops tx_send en w req (sv\<lparr>sv_responses := rs\<rparr>) =
     bind_res (handle_request sha256 ops tx_send en w req sv)
       (\<lambda>sv'. Inr (sv'\<lparr>sv_responses := rs @ drop (length (sv_responses sv)) (sv_responses sv')\<rparr>))"
proof (cases "req_cmd req")
  case (Put key val)
  then show ?thesis
    using assms
    by (auto simp: handle_request_def handle_put_def forwards_def store_and_ack_responses respond_def
        split: option.splits)
qed (simp_all add: handle_request_def handle_get_responses respond_def)

lemma handle_request_one:
  assumes "handle_request sha256 ops tx_send en w req sv = Inr sv'" and "\<not> forwards en (sv_serial_txs sv) req"
  shows "\<exists>f. sv_responses sv' = sv_responses sv @ [f]"
proof (cases "req_cmd req")
  case (Put key val)
  with assms show ?thesis
    by (auto simp: handle_request_def handle_put_def forwards_def store_and_ack_def res_simps
        split: if_splits option.splits)
qed (use assms(1) in \<open>auto simp: handle_request_def handle_get_def res_simps Let_def split: option.splits\<close>)

text \<open>All sends of one task, one after the other.\<close>

definition pushed ::
  "('tx \<Rightarrow> gateway_frame \<Rightarrow> bool \<times> 'tx) \<Rightarrow> gateway_frame \<Rightarrow> ('st, 'w, 'tx) server \<Rightarrow> ('st, 'w, 'tx) server" where
  "pushed tx_send f sv =
     sv\<lparr>sv_serial_txs := fst (forward_all tx_send f (sv_serial_txs sv)),
        sv_send_errors := sv_send_errors sv + snd (forward_all tx_send f (sv_serial_txs sv))\<rparr>"

lemma push_run:
  assumes "i < length (sc_tasks c)" and "tk_pc (sc_tasks c ! i) = Sending f (length sent)"
    and "sv_serial_txs (sc_server c) = sent @ todo" and "\<And>tx. tx_ready tx"
  shows "\<exists>es. task_run sha256 ops tx_send tx_ready device en c es
      (task_at i (Sending f (length sent + length todo))
        (c\<lparr>sc_server := (sc_server c)\<lparr>sv_serial_txs := sent @ fst (forward_all tx_send f todo),
             sv_send_errors := sv_send_errors (sc_server c) + snd (forward_all tx_send f todo)\<rparr>\<rparr>)) \<and>
    filter is_arrival es = []"
  using assms(1-3)
proof (induction todo arbitrary: c sent)
  case Nil
  have "sc_tasks c ! i = (sc_tasks c ! i)\<lparr>tk_pc := Sending f (length sent)\<rparr>" using Nil(2) by simp
  then have "(sc_tasks c)[i := (sc_tasks c ! i)\<lparr>tk_pc := Sending f (length sent)\<rparr>] = sc_tasks c"
    by (metis list_update_id)
  with Nil(3) have "task_at i (Sending f (length sent + length [])) (c\<lparr>sc_server := (sc_server c)\<lparr>sv_serial_txs := sent @ fst (forward_all tx_send f []),
       sv_send_errors := sv_send_errors (sc_server c) + snd (forward_all tx_send f [])\<rparr>\<rparr>) = c"
    by (simp add: task_at_def)
  then show ?case using run_none by fastforce
next
  case (Cons tx todo)
  obtain ok tx' where send: "tx_send tx f = (ok, tx')" by (cases "tx_send tx f")
  let ?c1 = "task_at i (Sending f (Suc (length sent)))
    (c\<lparr>sc_server := (sc_server c)\<lparr>sv_serial_txs := (sv_serial_txs (sc_server c))[length sent := tx'],
       sv_send_errors := sv_send_errors (sc_server c) + (if ok then 0 else 1)\<rparr>\<rparr>)"
  have "task_step sha256 ops tx_send tx_ready device en c (Push i) ?c1"
    using push [of i c f "length sent" tx_ready tx_send ok tx'] Cons.prems send assms(4) by simp
  note one = run_single [OF this]
  have "sv_serial_txs (sc_server ?c1) = (sent @ [tx']) @ todo" using Cons.prems(3) by simp
  then obtain es where es: "task_run sha256 ops tx_send tx_ready device en ?c1 es
      (task_at i (Sending f (length (sent @ [tx']) + length todo))
        (?c1\<lparr>sc_server := (sc_server ?c1)\<lparr>sv_serial_txs := (sent @ [tx']) @ fst (forward_all tx_send f todo),
             sv_send_errors := sv_send_errors (sc_server ?c1) + snd (forward_all tx_send f todo)\<rparr>\<rparr>))"
    "filter is_arrival es = []"
    using Cons.IH [of ?c1 "sent @ [tx']"] Cons.prems(1) by auto
  have "task_at i (Sending f (length (sent @ [tx']) + length todo))
        (?c1\<lparr>sc_server := (sc_server ?c1)\<lparr>sv_serial_txs := (sent @ [tx']) @ fst (forward_all tx_send f todo),
             sv_send_errors := sv_send_errors (sc_server ?c1) + snd (forward_all tx_send f todo)\<rparr>\<rparr>) =
      task_at i (Sending f (length sent + length (tx # todo)))
        (c\<lparr>sc_server := (sc_server c)\<lparr>sv_serial_txs := sent @ fst (forward_all tx_send f (tx # todo)),
             sv_send_errors := sv_send_errors (sc_server c) + snd (forward_all tx_send f (tx # todo))\<rparr>\<rparr>)"
    using Cons.prems(1) send by (simp add: task_at_def split: prod.splits)
  with run_trans [OF one es(1)] es(2) show ?case by fastforce
qed

text \<open>A fresh task runs to its end as \<open>handle_request\<close> says, on a response channel of its own.\<close>

definition fresh_task :: "nat \<Rightarrow> gateway_request \<Rightarrow> task" where
  "fresh_task w req = \<lparr>tk_worker = w, tk_req = req, tk_pc = Spawned, tk_answers = []\<rparr>"

definition done_task :: "nat \<Rightarrow> gateway_request \<Rightarrow> frame \<Rightarrow> task" where
  "done_task w req f = \<lparr>tk_worker = w, tk_req = req, tk_pc = Finished, tk_answers = [f]\<rparr>"

lemma fresh_task_sel [simp]:
  "tk_worker (fresh_task w req) = w" "tk_req (fresh_task w req) = req" "tk_pc (fresh_task w req) = Spawned"
  "tk_answers (fresh_task w req) = []"
  by (simp_all add: fresh_task_def)

lemma task_done_last:
  assumes "sc_tasks c = ts @ [(fresh_task w req)\<lparr>tk_pc := p\<rparr>]" and "sv_responses (sc_server c) = rs"
  shows "task_done (length ts) (sv\<lparr>sv_responses := [f]\<rparr>) c =
    c\<lparr>sc_server := sv\<lparr>sv_responses := rs\<rparr>, sc_tasks := ts @ [done_task w req f]\<rparr>"
  using assms by (simp add: task_done_def done_task_def fresh_task_def)

lemma fresh_task_self: "fresh_task w req = (fresh_task w req)\<lparr>tk_pc := Spawned\<rparr>"
  by (simp add: fresh_task_def)

lemma simulate_plain:
  assumes c: "sc_tasks c = ts @ [fresh_task w req]" "sc_server c = sv\<lparr>sv_responses := rs\<rparr>"
    and plain: "\<not> forwards en (sv_serial_txs sv) req"
    and run: "handle_request sha256 (ops w) tx_send en w req sv = Inr sv'"
  shows "\<exists>f. sv_responses sv' = sv_responses sv @ [f] \<and>
    task_run sha256 ops tx_send tx_ready device en c [Poll (length ts)]
      (c\<lparr>sc_server := sv'\<lparr>sv_responses := rs\<rparr>, sc_tasks := ts @ [done_task w req f]\<rparr>)"
proof -
  let ?tk = "fresh_task w req"
  have i: "length ts < length (sc_tasks c)" "?tk = sc_tasks c ! length ts" using c(1) by simp_all
  obtain f where f: "sv_responses sv' = sv_responses sv @ [f]" using handle_request_one [OF run plain] by blast
  have view: "task_view c ?tk = sv\<lparr>sv_responses := []\<rparr>" using c(2) by (simp add: task_view_def)
  have "handle_request sha256 (ops (tk_worker ?tk)) tx_send en (tk_worker ?tk) (tk_req ?tk) (task_view c ?tk) = Inr (sv'\<lparr>sv_responses := [f]\<rparr>)"
    using handle_request_responses [OF plain, of sha256 "ops w" tx_send w "[]"] run f by (simp add: view)
  from poll [where ops = ops, OF i _ _ this] plain c(2)
  have "task_step sha256 ops tx_send tx_ready device en c (Poll (length ts)) (task_done (length ts) (sv'\<lparr>sv_responses := [f]\<rparr>) c)"
    by simp
  moreover have "task_done (length ts) (sv'\<lparr>sv_responses := [f]\<rparr>) c =
      c\<lparr>sc_server := sv'\<lparr>sv_responses := rs\<rparr>, sc_tasks := ts @ [done_task w req f]\<rparr>"
    using task_done_last [where c = c and ts = ts and w = w and req = req and p = Spawned and rs = rs and sv = sv' and f = f] c
    by (simp flip: fresh_task_self)
  ultimately show ?thesis using f run_single by metis
qed

text \<open>The last step of a forwarded request.\<close>

lemma simulate_store:
  assumes c: "sc_tasks c = ts @ [(fresh_task w req)\<lparr>tk_pc := Sending f (length (sv_serial_txs sv))\<rparr>]"
      "sc_server c = sv\<lparr>sv_responses := rs\<rparr>"
    and put: "req_cmd req = Put key val" and run: "store_and_ack sha256 (ops w) key val sv = Inr sv'"
  shows "sv_responses sv' = sv_responses sv @ [SimpleString ''OK'']"
    and "task_step sha256 ops tx_send tx_ready device en c (Store (length ts))
      (c\<lparr>sc_server := sv'\<lparr>sv_responses := rs\<rparr>, sc_tasks := ts @ [done_task w req (SimpleString ''OK'')]\<rparr>)"
proof -
  let ?tk = "(fresh_task w req)\<lparr>tk_pc := Sending f (length (sv_serial_txs sv))\<rparr>"
  show resp: "sv_responses sv' = sv_responses sv @ [SimpleString ''OK'']"
    using run by (auto simp: store_and_ack_def res_simps)
  have i: "length ts < length (sc_tasks c)" "?tk = sc_tasks c ! length ts" using c(1) by simp_all
  have pc: "tk_pc ?tk = Sending f (length (sv_serial_txs (sc_server c)))" and req: "req_cmd (tk_req ?tk) = Put key val"
    using c(2) put by simp_all
  have view: "task_view c ?tk = sv\<lparr>sv_responses := []\<rparr>" using c(2) by (simp add: task_view_def)
  have "store_and_ack sha256 (ops (tk_worker ?tk)) key val (task_view c ?tk) = Inr (sv'\<lparr>sv_responses := [SimpleString ''OK'']\<rparr>)"
    unfolding view store_and_ack_responses using resp run by simp
  from store [where ops = ops, OF i pc req this]
  show "task_step sha256 ops tx_send tx_ready device en c (Store (length ts))
      (c\<lparr>sc_server := sv'\<lparr>sv_responses := rs\<rparr>, sc_tasks := ts @ [done_task w req (SimpleString ''OK'')]\<rparr>)"
    using task_done_last [OF c(1), where rs = rs and sv = sv' and f = "SimpleString ''OK''"] c(2) by simp
qed

lemma simulate_vm:
  assumes c: "sc_tasks c = ts @ [fresh_task w req]" "sc_server c = sv\<lparr>sv_responses := rs\<rparr>"
    and fwd: "forwards en (sv_serial_txs sv) req"
    and run: "handle_request sha256 (ops w) tx_send en w req sv = Inr sv'" and ready: "\<And>tx. tx_ready tx"
  shows "\<exists>f es. sv_responses sv' = sv_responses sv @ [f] \<and> filter is_arrival es = [] \<and>
    task_run sha256 ops tx_send tx_ready device en c es
      (c\<lparr>sc_server := sv'\<lparr>sv_responses := rs\<rparr>, sc_tasks := ts @ [done_task w req f]\<rparr>)"
proof -
  let ?i = "length ts" and ?n = "length (sv_serial_txs sv)"
  have i: "?i < length (sc_tasks c)" "fresh_task w req = sc_tasks c ! ?i" using c(1) by simp_all
  obtain key val where put: "req_cmd req = Put key val"
    using fwd by (auto simp: forwards_def split: gateway_command.splits)
  obtain mac where mac: "mac_of_key key = Inr mac" using mac_of_key_total by blast
  define f where "f = vm_frame mac val"
  define sv1 where "sv1 = pushed tx_send f sv"
  have sv1: "sv_responses sv1 = sv_responses sv" "length (sv_serial_txs sv1) = ?n"
    by (simp_all add: sv1_def pushed_def forward_all_eq)
  have "forward_vm tx_send key val sv = Inr sv1"
    by (simp add: forward_vm_def mac sv1_def f_def pushed_def split: prod.splits)
  then have stored: "store_and_ack sha256 (ops w) key val sv1 = Inr sv'"
    using run put fwd by (simp add: handle_request_def handle_put_def forwards_def)
  define c1 where "c1 = task_at ?i (Sending f 0) c"
  have "task_step sha256 ops tx_send tx_ready device en c (Poll ?i) c1"
    using poll_vm [OF i _ _ _ mac] fwd put c(2) unfolding c1_def f_def by simp
  note first = run_single [OF this]
  define c2 where "c2 = c\<lparr>sc_server := sv1\<lparr>sv_responses := rs\<rparr>, sc_tasks := ts @ [(fresh_task w req)\<lparr>tk_pc := Sending f ?n\<rparr>]\<rparr>"
  have "task_at ?i (Sending f ?n)
      (c1\<lparr>sc_server := (sc_server c1)\<lparr>sv_serial_txs := fst (forward_all tx_send f (sv_serial_txs sv)),
             sv_send_errors := sv_send_errors (sc_server c1) + snd (forward_all tx_send f (sv_serial_txs sv))\<rparr>\<rparr>) = c2"
    using c by (simp add: c1_def c2_def task_at_def sv1_def pushed_def)
  then obtain es where es: "task_run sha256 ops tx_send tx_ready device en c1 es c2" "filter is_arrival es = []"
    using push_run [of ?i c1 f "[]" "sv_serial_txs sv" tx_ready sha256 ops tx_send device en] c ready by (auto simp: c1_def)
  have "sc_tasks c2 = ts @ [(fresh_task w req)\<lparr>tk_pc := Sending f (length (sv_serial_txs sv1))\<rparr>]"
    and "sc_server c2 = sv1\<lparr>sv_responses := rs\<rparr>"
    using sv1(2) by (simp_all add: c2_def)
  note last = simulate_store [where ops = ops, OF this put stored]
  let ?c3 = "c\<lparr>sc_server := sv'\<lparr>sv_responses := rs\<rparr>, sc_tasks := ts @ [done_task w req (SimpleString ''OK'')]\<rparr>"
  have "task_step sha256 ops tx_send tx_ready device en c2 (Store ?i) ?c3"
    using last(2) [of tx_send tx_ready device en] by (simp add: c2_def)
  then have "task_run sha256 ops tx_send tx_ready device en c ([Poll ?i] @ es @ [Store ?i]) ?c3"
    by (intro run_trans [OF first] run_trans [OF es(1)] run_single)
  with last(1) sv1(1) es(2) show ?thesis
    by (intro exI [of _ "SimpleString ''OK''"] exI [of _ "[Poll ?i] @ es @ [Store ?i]"]) simp
qed

lemma simulate_request:
  assumes "sc_tasks c = ts @ [fresh_task w req]" "sc_server c = sv\<lparr>sv_responses := rs\<rparr>"
    and "handle_request sha256 (ops w) tx_send en w req sv = Inr sv'" and "\<And>tx. tx_ready tx"
  shows "\<exists>f es. sv_responses sv' = sv_responses sv @ [f] \<and> filter is_arrival es = [] \<and>
    task_run sha256 ops tx_send tx_ready device en c es
      (c\<lparr>sc_server := sv'\<lparr>sv_responses := rs\<rparr>, sc_tasks := ts @ [done_task w req f]\<rparr>)"
proof (cases "forwards en (sv_serial_txs sv) req")
  case True
  from simulate_vm [where ops = ops, OF assms(1,2) this assms(3,4)] show ?thesis .
next
  case False
  obtain f where f: "sv_responses sv' = sv_responses sv @ [f]"
    "task_run sha256 ops tx_send tx_ready device en c [Poll (length ts)]
      (c\<lparr>sc_server := sv'\<lparr>sv_responses := rs\<rparr>, sc_tasks := ts @ [done_task w req f]\<rparr>)"
    using simulate_plain [where ops = ops, OF assms(1,2) False assms(3), of tx_ready device] by blast
  from f(2) show ?thesis by (intro exI [of _ f] exI [of _ "[Poll (length ts)]"] conjI f(1)) simp_all
qed

lemma serve_simulated:
  assumes "serve sha256 (ops w) tx_send en w reqs sv = Inr sv'" and "\<And>tx. tx_ready tx"
    and "w < length (sc_queues c)" and "sc_queues c ! w = reqs" and "sc_server c = sv\<lparr>sv_responses := rs\<rparr>"
  shows "\<exists>fs es. sv_responses sv' = sv_responses sv @ fs \<and> length fs = length reqs \<and> filter is_arrival es = [] \<and>
    task_run sha256 ops tx_send tx_ready device en c es
      (c\<lparr>sc_server := sv'\<lparr>sv_responses := rs\<rparr>, sc_queues := (sc_queues c)[w := []],
         sc_tasks := sc_tasks c @ map2 (done_task w) reqs fs\<rparr>)"
  using assms(1,3-)
proof (induction reqs arbitrary: c sv)
  case Nil
  then have "sc_server c = sv'\<lparr>sv_responses := rs\<rparr>" and "(sc_queues c)[w := []] = sc_queues c"
    using list_update_id [of "sc_queues c" w] by simp_all
  then have "c\<lparr>sc_server := sv'\<lparr>sv_responses := rs\<rparr>, sc_queues := (sc_queues c)[w := []],
         sc_tasks := sc_tasks c @ map2 (done_task w) [] []\<rparr> = c"
    by (cases c) simp
  with run_none [of sha256 ops tx_send tx_ready device en c] Nil(1) show ?case
    by (intro exI [of _ "[]"]) simp
next
  case (Cons req reqs)
  then obtain sv1 where sv1: "handle_request sha256 (ops w) tx_send en w req sv = Inr sv1"
    "serve sha256 (ops w) tx_send en w reqs sv1 = Inr sv'"
    by (auto simp: res_simps)
  define c1 where "c1 = c\<lparr>sc_queues := (sc_queues c)[w := reqs], sc_tasks := sc_tasks c @ [fresh_task w req]\<rparr>"
  have "task_step sha256 ops tx_send tx_ready device en c (Recv w) c1"
    using recv [OF Cons.prems(2,3)] unfolding c1_def fresh_task_def .
  note first = run_single [OF this]
  have "sc_tasks c1 = sc_tasks c @ [fresh_task w req]" "sc_server c1 = sv\<lparr>sv_responses := rs\<rparr>"
    using Cons.prems(4) by (simp_all add: c1_def)
  from simulate_request [where ops = ops, OF this sv1(1), of tx_ready device] assms(2)
  obtain f es1 where f: "sv_responses sv1 = sv_responses sv @ [f]" "filter is_arrival es1 = []"
    "task_run sha256 ops tx_send tx_ready device en c1 es1
      (c1\<lparr>sc_server := sv1\<lparr>sv_responses := rs\<rparr>, sc_tasks := sc_tasks c @ [done_task w req f]\<rparr>)"
    by blast
  define c2 where "c2 = c1\<lparr>sc_server := sv1\<lparr>sv_responses := rs\<rparr>, sc_tasks := sc_tasks c @ [done_task w req f]\<rparr>"
  have "w < length (sc_queues c2)" "sc_queues c2 ! w = reqs" "sc_server c2 = sv1\<lparr>sv_responses := rs\<rparr>"
    using Cons.prems(2) by (simp_all add: c2_def c1_def)
  from Cons.IH [OF sv1(2) this] obtain fs es2 where
    fs: "sv_responses sv' = sv_responses sv1 @ fs" "length fs = length reqs" "filter is_arrival es2 = []"
    "task_run sha256 ops tx_send tx_ready device en c2 es2
      (c2\<lparr>sc_server := sv'\<lparr>sv_responses := rs\<rparr>, sc_queues := (sc_queues c2)[w := []],
         sc_tasks := sc_tasks c2 @ map2 (done_task w) reqs fs\<rparr>)"
    by blast
  have end_state: "c2\<lparr>sc_server := sv'\<lparr>sv_responses := rs\<rparr>, sc_queues := (sc_queues c2)[w := []],
         sc_tasks := sc_tasks c2 @ map2 (done_task w) reqs fs\<rparr> =
      c\<lparr>sc_server := sv'\<lparr>sv_responses := rs\<rparr>, sc_queues := (sc_queues c)[w := []],
         sc_tasks := sc_tasks c @ map2 (done_task w) (req # reqs) (f # fs)\<rparr>"
    by (simp add: c2_def c1_def)
  have "task_run sha256 ops tx_send tx_ready device en c ([Recv w] @ es1 @ es2)
      (c\<lparr>sc_server := sv'\<lparr>sv_responses := rs\<rparr>, sc_queues := (sc_queues c)[w := []],
         sc_tasks := sc_tasks c @ map2 (done_task w) (req # reqs) (f # fs)\<rparr>)"
    using run_trans [OF first run_trans [OF f(3) [folded c2_def] fs(4) [unfolded end_state]]] .
  with f(1,2) fs(1-3) show ?case
    by (intro exI [of _ "f # fs"] exI [of _ "[Recv w] @ es1 @ es2"]) simp
qed

section \<open>From main to the workers\<close>

text \<open>The worker threads share the node and the serial channels; each starts with an empty channel.\<close>

definition share_server ::
  "(('db, 'w) tiered_store, 'w, 'tx) server \<Rightarrow> (('db, 'w) shared_store, 'w, 'tx) server" where
  "share_server sv =
     \<lparr>sv_node = \<lparr>node_storage = share (node_storage (sv_node sv)), node_metrics = node_metrics (sv_node sv),
        node_broadcasts = node_broadcasts (sv_node sv)\<rparr>,
      sv_serial_txs = sv_serial_txs sv, sv_responses = sv_responses sv, sv_send_errors = sv_send_errors sv\<rparr>"

definition workers_start ::
  "nat \<Rightarrow> (('db, 'w) tiered_store, 'w, 'tx, 'pk, 'sys) booted \<Rightarrow> (('db, 'w) shared_store, 'w, 'tx) sched" where
  "workers_start cores b = sched_start (share_server (bt_server b)) (replicate cores [])"

lemma workers_start_sel [simp]:
  "sc_tasks (workers_start cores b) = []" "sc_queues (workers_start cores b) = replicate cores []"
  "sv_serial_txs (sc_server (workers_start cores b)) = sv_serial_txs (bt_server b)"
  by (simp_all add: workers_start_def sched_start_def share_server_def)

lemma workers_start_work [simp]: "work (workers_start cores b) = 0"
  by (simp add: work_def queued_def task_work_def)

lemma workers_start_taken [simp]: "w < cores \<Longrightarrow> taken w (workers_start cores b) = []"
  by (simp add: taken_def spawned_def)

lemma started_wf:
  assumes "main_tiered resolve cli tel_init seccomp bind_ok cd new_std parse_pk open_serial args fs = Inr (Started b)"
  shows "shared_wf (node_storage (sv_node (sc_server (workers_start cores b))))"
  using main_tiered_started [OF assms]
  by (auto simp: workers_start_def sched_start_def share_server_def start_node_def intro!: share_wf)

lemma started_ok:
  assumes "main_tiered resolve cli tel_init seccomp bind_ok cd new_std parse_pk open_serial args fs = Inr (Started b)"
  shows "sched_ok shared_wf en (workers_start cores b)"
  using started_wf [OF assms] by (simp add: sched_ok_def)

lemmas started_run_ok = shared.sched_ok_run [OF _ started_ok]

lemma taken_tasks:
  "taken w c = map tk_req (filter (\<lambda>tk. tk_worker tk = w) (sc_tasks c)) @ sc_queues c ! w"
  by (simp add: taken_def spawned_def filter_map o_def)

lemma task_ok_answers: "task_ok en n tk \<Longrightarrow> length (tk_answers tk) = (if tk_pc tk = Finished then 1 else 0)"
  by (cases "tk_pc tk") auto

section \<open>A concrete schedule\<close>

text \<open>Two workers of a server without serial ports: the first stores a value, then the second reads it.\<close>

definition set_req :: gateway_request where
  "set_req = \<lparr>req_cmd = Put ''a'' [7], req_peer_addr = None\<rparr>"

definition get_req :: gateway_request where
  "get_req = \<lparr>req_cmd = Get ''a'', req_peer_addr = None\<rparr>"

abbreviation sample_workers :: "((mem_db, 64 word) shared_store, 64 word, gateway_frame list) sched" where
  "sample_workers \<equiv> workers_start 2 (sample_booted empty_settings)"

abbreviation sample_worker_ops :: "nat \<Rightarrow> ((mem_db, 64 word) shared_store, 64 word) state_store" where
  "sample_worker_ops \<equiv> worker_ops (mem_cddb 4) sample_sha sample_ahash mem_drain"

text \<open>Serial channels with room for one frame, and devices that take it.\<close>

abbreviation sample_ready :: "gateway_frame list \<Rightarrow> bool" where
  "sample_ready tx \<equiv> tx = []"

abbreviation sample_device :: "gateway_frame list \<Rightarrow> gateway_frame list \<Rightarrow> bool" where
  "sample_device tx tx' \<equiv> tx' = []"

lemma sample_booted_plain [simp]:
  "sv_serial_txs (bt_server (sample_booted empty_settings)) = []" "bt_vm_scripts (sample_booted empty_settings) = False"
  by (simp_all add: sample_booted_simps)

text \<open>A fresh task for a request that is not forwarded, at the end of the tasks of some worker's schedule.\<close>

lemma sample_poll:
  assumes "sched_ok shared_wf False c" and "sc_tasks c = ts @ [fresh_task w req]" and "sv_serial_txs (sc_server c) = []"
  shows "\<exists>f c'. task_run sample_sha sample_worker_ops record_tx sample_ready sample_device False c [Poll (length ts)] c' \<and>
    sc_tasks c' = ts @ [done_task w req f] \<and> sc_queues c' = sc_queues c \<and> sv_serial_txs (sc_server c') = [] \<and>
    (\<forall>key val. req_cmd req = Put key val \<longrightarrow> f = SimpleString ''OK'')"
proof -
  let ?sv = "sc_server c"
  have plain: "\<not> forwards False (sv_serial_txs ?sv) req" using assms(3) by (auto simp: forwards_def split: gateway_command.splits)
  have wf: "shared_wf (node_storage (sv_node ?sv))" using assms(1) by (simp add: sched_ok_def)
  obtain sv' where run: "handle_request sample_sha (sample_worker_ops w) record_tx False w req ?sv = Inr sv'"
    using shared.request_ok [OF wf] by blast
  obtain f where f: "sv_responses sv' = sv_responses ?sv @ [f]"
    "task_run sample_sha sample_worker_ops record_tx sample_ready sample_device False c [Poll (length ts)]
      (c\<lparr>sc_server := sv'\<lparr>sv_responses := sv_responses ?sv\<rparr>, sc_tasks := ts @ [done_task w req f]\<rparr>)"
    using simulate_plain [where ops = sample_worker_ops and rs = "sv_responses ?sv", OF assms(2) _ plain run] by auto
  have "f = SimpleString ''OK''" if "req_cmd req = Put key val" for key val
  proof -
    have "store_and_ack sample_sha (sample_worker_ops w) key val ?sv = Inr sv'"
      using run that assms(3) by (simp add: handle_request_def handle_put_def)
    then show ?thesis using shared.ack_ok [OF wf, of sample_sha "mem_cddb 4" sample_sha sample_ahash mem_drain w key val] f(1) by auto
  qed
  moreover have "sv_serial_txs sv' = []" using handle_request_no_forward [OF run plain] assms(3) by simp
  ultimately show ?thesis
    using f(2) by (intro exI [of _ f] exI [of _ "c\<lparr>sc_server := sv'\<lparr>sv_responses := sv_responses ?sv\<rparr>,
      sc_tasks := ts @ [done_task w req f]\<rparr>"]) simp
qed

lemma sample_arrive_recv:
  assumes "sc_queues c = [[], []]" and "w < 2"
  shows "task_run sample_sha sample_worker_ops record_tx sample_ready sample_device en c [Arrive w req, Recv w]
    (c\<lparr>sc_tasks := sc_tasks c @ [fresh_task w req]\<rparr>)"
proof -
  let ?step = "task_step sample_sha sample_worker_ops record_tx sample_ready sample_device en"
  define c1 where "c1 = c\<lparr>sc_queues := (sc_queues c)[w := sc_queues c ! w @ [req]]\<rparr>"
  have w: "w < length (sc_queues c)" "sc_queues c ! w = []" using assms by (auto simp: less_2_cases_iff)
  have arrived: "?step c (Arrive w req) c1"
    unfolding c1_def by (rule arrive) (use w in \<open>simp_all add: channel_capacity_def\<close>)
  have q: "w < length (sc_queues c1)" "sc_queues c1 ! w = req # []" using w by (simp_all add: c1_def)
  have "(sc_queues c)[w := []] = sc_queues c" using list_update_id [of "sc_queues c" w] w(2) by simp
  then have "c1\<lparr>sc_queues := (sc_queues c1)[w := []], sc_tasks := sc_tasks c1 @ [fresh_task w req]\<rparr> =
      c\<lparr>sc_tasks := sc_tasks c @ [fresh_task w req]\<rparr>"
    by (cases c) (simp add: c1_def)
  with recv [OF q, of sample_sha sample_worker_ops record_tx sample_ready sample_device en]
  have "?step c1 (Recv w) (c\<lparr>sc_tasks := sc_tasks c @ [fresh_task w req]\<rparr>)" by (simp add: fresh_task_def)
  from run_trans [OF run_single [OF arrived] run_single [OF this]] show ?thesis by simp
qed

lemma sample_run:
  "\<exists>c c1 c2 f.
     task_run sample_sha sample_worker_ops record_tx sample_ready sample_device False
       sample_workers [Arrive 0 set_req, Recv 0] c \<and>
     task_step sample_sha sample_worker_ops record_tx sample_ready sample_device False c (Poll 0) c1 \<and>
     task_run sample_sha sample_worker_ops record_tx sample_ready sample_device False
       c1 [Arrive 1 get_req, Recv 1, Poll 1] c2 \<and>
     sc_tasks c = [fresh_task 0 set_req] \<and>
     sc_tasks c1 = [done_task 0 set_req (SimpleString ''OK'')] \<and> sc_queues c1 = [[], []] \<and>
     sc_tasks c2 = [done_task 0 set_req (SimpleString ''OK''), done_task 1 get_req f] \<and> sc_queues c2 = [[], []] \<and>
     sv_serial_txs (sc_server c2) = []"
proof -
  let ?run = "task_run sample_sha sample_worker_ops record_tx sample_ready sample_device False"
  define c where "c = sample_workers\<lparr>sc_tasks := [fresh_task 0 set_req]\<rparr>"
  have run: "?run sample_workers [Arrive 0 set_req, Recv 0] c"
    using sample_arrive_recv [where c = sample_workers and w = 0] by (simp add: c_def eval_nat_numeral)
  have ok: "sched_ok shared_wf False c" using started_run_ok [OF run sample_main_started] .
  obtain c1 where c1: "?run c [Poll 0] c1" "sc_tasks c1 = [done_task 0 set_req (SimpleString ''OK'')]"
    "sc_queues c1 = [[], []]" "sv_serial_txs (sc_server c1) = []"
    using sample_poll [OF ok, of "[]" 0 set_req] by (auto simp: c_def set_req_def eval_nat_numeral)
  have ok1: "sched_ok shared_wf False c1" using shared.sched_ok_run [OF c1(1) ok] .
  define cb where "cb = c1\<lparr>sc_tasks := [done_task 0 set_req (SimpleString ''OK''), fresh_task 1 get_req]\<rparr>"
  have runb: "?run c1 [Arrive 1 get_req, Recv 1] cb"
    using sample_arrive_recv [OF c1(3), where w = 1] c1(2) by (simp add: cb_def)
  have okb: "sched_ok shared_wf False cb" using shared.sched_ok_run [OF runb ok1] .
  obtain f c2 where c2: "?run cb [Poll 1] c2"
    "sc_tasks c2 = [done_task 0 set_req (SimpleString ''OK''), done_task 1 get_req f]"
    "sc_queues c2 = [[], []]" "sv_serial_txs (sc_server c2) = []"
    using sample_poll [OF okb, of "[done_task 0 set_req (SimpleString ''OK'')]" 1 get_req] c1(3,4)
    by (auto simp: cb_def)
  have "?run c1 [Arrive 1 get_req, Recv 1, Poll 1] c2" using run_trans [OF runb c2(1)] by simp
  moreover have "task_step sample_sha sample_worker_ops record_tx sample_ready sample_device False c (Poll 0) c1"
    using c1(1) by (rule run_single_E)
  ultimately show ?thesis using run c1(2,3) c2(2-4) by (intro exI [of _ c] exI [of _ c1] exI [of _ c2] exI [of _ f]) (simp add: c_def)
qed

section \<open>Properties\<close>

text \<open>
  C14: No schedule panics: whenever \<open>main\<close> brings up a node on a tiered store, then after any schedule of any number of
  workers, with any requests arriving and any behaviour of the serial channels and the database, every task
  that is done has sent exactly one response, every other none, and the handler of any request at all, run
  on any worker's thread in the state reached, returns without a panic.
\<close>

theorem no_schedule_panics:
  assumes "main_tiered resolve cli tel_init seccomp bind_ok cd new_std parse_pk open_serial args fs = Inr (Started b)"
    and "task_run sha256 (worker_ops cd sha256 ahash background) tx_send tx_ready device (bt_vm_scripts b)
      (workers_start cores b) es c"
  shows "(\<forall>tk \<in> set (sc_tasks c). length (tk_answers tk) = (if tk_pc tk = Finished then 1 else 0)) \<and>
    (\<exists>sv'. handle_request sha256 (worker_ops cd sha256 ahash background w) tx_send (bt_vm_scripts b) w req
      (task_view c tk) = Inr sv')"
proof
  note ok = started_run_ok [OF assms(2,1)]
  show "\<forall>tk \<in> set (sc_tasks c). length (tk_answers tk) = (if tk_pc tk = Finished then 1 else 0)"
    using ok task_ok_answers unfolding sched_ok_def by blast
  have "shared_wf (node_storage (sv_node (task_view c tk)))" using ok by (simp add: sched_ok_def)
  from shared.request_ok [OF this]
  show "\<exists>sv'. handle_request sha256 (worker_ops cd sha256 ahash background w) tx_send (bt_vm_scripts b) w req
      (task_view c tk) = Inr sv'" by blast
qed

theorem no_schedule_panics_witness:
  "\<exists>c. task_run sample_sha sample_worker_ops record_tx sample_ready sample_device False
       sample_workers [Arrive 0 set_req, Recv 0] c \<and>
     (\<forall>tk \<in> set (sc_tasks c). length (tk_answers tk) = (if tk_pc tk = Finished then 1 else 0)) \<and>
     (\<exists>sv'. handle_request sample_sha (sample_worker_ops 1) record_tx False 1 get_req (task_view c (fresh_task 1 get_req)) = Inr sv')"
proof -
  obtain c where c: "task_run sample_sha sample_worker_ops record_tx sample_ready sample_device False
       sample_workers [Arrive 0 set_req, Recv 0] c" using sample_run by blast
  note on = c [folded sample_booted_plain(2)]
  from no_schedule_panics [OF sample_main_started on, of 1 get_req "fresh_task 1 get_req"] c
  show ?thesis unfolding sample_booted_plain by blast
qed

text \<open>
  C15: The tasks cannot run for ever: in every schedule, the number of steps that the program itself takes
  is at most \<open>n + 3\<close> for each request that has arrived, where \<open>n\<close> is the number of serial channels.
\<close>

theorem work_is_bounded_by_requests:
  assumes "task_run sha256 ops tx_send tx_ready device en (workers_start cores b) es c"
  shows "length (filter own_step es) \<le> (length (sv_serial_txs (bt_server b)) + 3) * length (filter is_arrival es)"
  using run_work [OF assms] by (simp add: channels_def)

theorem work_is_bounded_by_requests_witness:
  "\<exists>c. task_run sample_sha sample_worker_ops record_tx sample_ready sample_device False
       sample_workers [Arrive 0 set_req, Recv 0] c \<and>
     length (filter own_step [Arrive 0 set_req, Recv 0]) \<le>
       (length (sv_serial_txs (bt_server (sample_booted empty_settings))) + 3) * length (filter is_arrival [Arrive 0 set_req, Recv 0])"
proof -
  obtain c where c: "task_run sample_sha sample_worker_ops record_tx sample_ready sample_device False
       sample_workers [Arrive 0 set_req, Recv 0] c" using sample_run by blast
  from work_is_bounded_by_requests [OF this] c show ?thesis by blast
qed

text \<open>
  C7: Every request is answered: when a schedule has come to a point where the program has no step left to
  take, and the serial channels are not full, then all channels are empty, every task is done with exactly one
  response, and each worker has taken precisely the requests that arrived on its channel, in their order.
\<close>

theorem every_request_is_answered:
  assumes "main_tiered resolve cli tel_init seccomp bind_ok cd new_std parse_pk open_serial args fs = Inr (Started b)"
    and "task_run sha256 (worker_ops cd sha256 ahash background) tx_send tx_ready device (bt_vm_scripts b)
      (workers_start cores b) es c"
    and "\<forall>tx \<in> set (sv_serial_txs (sc_server c)). tx_ready tx"
    and "\<forall>e c'. own_step e \<longrightarrow>
      \<not> task_step sha256 (worker_ops cd sha256 ahash background) tx_send tx_ready device (bt_vm_scripts b) c e c'"
    and "w < cores"
  shows "all_answered c \<and> map tk_req (filter (\<lambda>tk. tk_worker tk = w) (sc_tasks c)) = arrivals w es"
proof -
  note idle = shared.progress [OF started_run_ok [OF assms(2,1)] assms(3)]
  have empty: "\<forall>q \<in> set (sc_queues c). q = []" by (rule idle(1)) (use assms(4) in blast)
  have "\<forall>tk \<in> set (sc_tasks c). tk_pc tk = Finished \<and> length (tk_answers tk) = 1"
    by (rule idle(2)) (use assms(4) in blast)
  with empty have "all_answered c" by (simp add: all_answered_def)
  moreover have "length (sc_queues c) = cores" "taken w c = arrivals w es"
    using run_taken [OF assms(2), of w] assms(5) by simp_all
  moreover have "sc_queues c ! w = []" using empty assms(5) calculation(2) by simp
  ultimately show ?thesis by (simp add: taken_tasks)
qed

theorem every_request_is_answered_witness:
  "\<exists>es c. task_run sample_sha sample_worker_ops record_tx sample_ready sample_device False sample_workers es c \<and>
     all_answered c \<and> map tk_req (filter (\<lambda>tk. tk_worker tk = 1) (sc_tasks c)) = [get_req] \<and> arrivals 1 es = [get_req]"
proof -
  obtain c c1 c2 f where run: "task_run sample_sha sample_worker_ops record_tx sample_ready sample_device False
       sample_workers [Arrive 0 set_req, Recv 0] c"
    "task_step sample_sha sample_worker_ops record_tx sample_ready sample_device False c (Poll 0) c1"
    "task_run sample_sha sample_worker_ops record_tx sample_ready sample_device False c1 [Arrive 1 get_req, Recv 1, Poll 1] c2"
    and c2: "sc_tasks c2 = [done_task 0 set_req (SimpleString ''OK''), done_task 1 get_req f]" "sc_queues c2 = [[], []]"
    "sv_serial_txs (sc_server c2) = []"
    using sample_run by blast
  have idle: "\<forall>e c'. own_step e \<longrightarrow>
      \<not> task_step sample_sha sample_worker_ops record_tx sample_ready sample_device False c2 e c'"
    using all_done_idle [of c2] c2 by (simp add: all_answered_def done_task_def)
  have all: "task_run sample_sha sample_worker_ops record_tx sample_ready sample_device False sample_workers
      [Arrive 0 set_req, Recv 0, Poll 0, Arrive 1 get_req, Recv 1, Poll 1] c2"
    using run_trans [OF run(1) run_trans [OF run_single [OF run(2)] run(3)]] by simp
  have "all_answered c2 \<and> map tk_req (filter (\<lambda>tk. tk_worker tk = 1) (sc_tasks c2)) = [get_req]"
    using every_request_is_answered [OF sample_main_started all [folded sample_booted_plain(2)]
      _ idle [folded sample_booted_plain(2)], of 1] c2(3) by simp
  with all show ?thesis by (intro exI [of _ "[Arrive 0 set_req, Recv 0, Poll 0, Arrive 1 get_req, Recv 1, Poll 1]"] exI [of _ c2]) simp
qed




text \<open>
  C5: What one worker acknowledges, all workers read: in any schedule, once a task has answered its \<open>SET\<close> with
  \<open>OK\<close>, every \<open>GET\<close> of the key that finishes later, on whichever worker, returns exactly the bytes that were
  set, for as long as no other \<open>SET\<close> to the same slot of the index is under way, queued or arriving.
\<close>

theorem acknowledged_sets_are_visible_to_all_workers:
  assumes "main_tiered resolve cli tel_init seccomp bind_ok cd new_std parse_pk open_serial args fs = Inr (Started b)"
    and "task_run sha256 (worker_ops cd sha256 ahash background) tx_send tx_ready device (bt_vm_scripts b)
      (workers_start cores b) es c"
    and "task_step sha256 (worker_ops cd sha256 ahash background) tx_send tx_ready device (bt_vm_scripts b) c e c1"
    and "i < length (sc_tasks c)" and "tk_pc (sc_tasks c ! i) \<noteq> Finished" and "tk_pc (sc_tasks c1 ! i) = Finished"
    and "req_cmd (tk_req (sc_tasks c ! i)) = Put key val" and "tk_answers (sc_tasks c1 ! i) = [SimpleString ''OK'']"
    and "quiet_on (key_slot ahash) sha256 (key_slot ahash (sha256 (as_bytes key))) c1"
    and "task_run sha256 (worker_ops cd sha256 ahash background) tx_send tx_ready device (bt_vm_scripts b) c1 es' c2"
    and "\<forall>w req. Arrive w req \<in> set es' \<longrightarrow> \<not> puts_to (key_slot ahash) sha256 (key_slot ahash (sha256 (as_bytes key))) req"
    and "j < length (sc_tasks c2)" and "req_cmd (tk_req (sc_tasks c2 ! j)) = Get key" and "tk_pc (sc_tasks c2 ! j) = Finished"
    and "\<not> (j < length (sc_tasks c1) \<and> tk_pc (sc_tasks c1 ! j) = Finished)"
  shows "tk_answers (sc_tasks c2 ! j) = [BulkString (Some val)]"
proof -
  note ok = started_run_ok [OF assms(2,1)]
  note ok1 = shared.sched_ok_step [OF assms(3) ok]
  note holds = shared.ack_step [OF assms(3) ok assms(4-8)]
  have "new_reads (sc_tasks c1) key val c1" by (simp add: new_reads_def)
  from shared.visible_run [OF assms(10) ok1 assms(9) holds refl this assms(11)]
  show ?thesis using assms(12-15) by (simp add: new_reads_def)
qed

theorem acknowledged_sets_are_visible_to_all_workers_witness:
  "\<exists>es c. task_run sample_sha sample_worker_ops record_tx sample_ready sample_device False sample_workers es c \<and>
     tk_worker (sc_tasks c ! 0) = 0 \<and> tk_worker (sc_tasks c ! 1) = 1 \<and>
     tk_answers (sc_tasks c ! 1) = [BulkString (Some [7])]"
proof -
  obtain c c1 c2 f where run: "task_run sample_sha sample_worker_ops record_tx sample_ready sample_device False
       sample_workers [Arrive 0 set_req, Recv 0] c"
    "task_step sample_sha sample_worker_ops record_tx sample_ready sample_device False c (Poll 0) c1"
    "task_run sample_sha sample_worker_ops record_tx sample_ready sample_device False c1 [Arrive 1 get_req, Recv 1, Poll 1] c2"
    and c: "sc_tasks c = [fresh_task 0 set_req]"
    and c1: "sc_tasks c1 = [done_task 0 set_req (SimpleString ''OK'')]" "sc_queues c1 = [[], []]"
    and c2: "sc_tasks c2 = [done_task 0 set_req (SimpleString ''OK''), done_task 1 get_req f]"
    using sample_run by blast
  let ?s = "key_slot sample_ahash (sample_sha (as_bytes ''a''))"
  have quiet: "quiet_on (key_slot sample_ahash) sample_sha ?s c1" using c1 by (simp add: quiet_on_def done_task_def)
  have gets: "\<forall>w req. Arrive w req \<in> set [Arrive 1 get_req, Recv 1, Poll 1] \<longrightarrow> \<not> puts_to (key_slot sample_ahash) sample_sha ?s req"
    by (simp add: puts_to_def get_req_def)
  have "tk_answers (sc_tasks c2 ! 1) = [BulkString (Some [7])]"
    by (rule acknowledged_sets_are_visible_to_all_workers [OF sample_main_started run(1) [folded sample_booted_plain(2)]
        run(2) [folded sample_booted_plain(2)] _ _ _ _ _ quiet run(3) [folded sample_booted_plain(2)] gets, where i = 0])
      (simp_all add: c c1 c2 done_task_def set_req_def get_req_def)
  with run_trans [OF run(1) run_trans [OF run_single [OF run(2)] run(3)]] c2 show ?thesis
    by (intro exI [of _ "[Arrive 0 set_req, Recv 0] @ [Poll 0] @ [Arrive 1 get_req, Recv 1, Poll 1]"] exI [of _ c2])
      (simp add: done_task_def)
qed

text \<open>
  C8: In every schedule only guarded scripts reach a serial port: a step of the program that changes a serial channel
  is one send by one task, of the one frame that its own request allows (a \<open>SET\<close> of a \<open>vm:\<close> key from a
  loopback peer with scripts enabled and at most 4096 bytes), to one channel.
\<close>

theorem serial_sends_are_guarded_in_every_schedule:
  assumes "main_tiered resolve cli tel_init seccomp bind_ok cd new_std parse_pk open_serial args fs = Inr (Started b)"
    and "task_run sha256 (worker_ops cd sha256 ahash background) tx_send tx_ready device (bt_vm_scripts b)
      (workers_start cores b) es c"
    and "task_step sha256 (worker_ops cd sha256 ahash background) tx_send tx_ready device (bt_vm_scripts b) c e c'"
    and "own_step e" and "sv_serial_txs (sc_server c') \<noteq> sv_serial_txs (sc_server c)"
  shows "\<exists>i k f. e = Push i \<and> i < length (sc_tasks c) \<and> guarded_frame (bt_vm_scripts b) (tk_req (sc_tasks c ! i)) f \<and>
    sv_serial_txs (sc_server c') = (sv_serial_txs (sc_server c))[k := snd (tx_send (sv_serial_txs (sc_server c) ! k) f)]"
  using assms(3)
proof cases
  case (poll i tk sv)
  then show ?thesis using assms(5) handle_request_no_forward [OF poll(7)] by simp
next
  case (push i f k ok tx)
  then have "guarded_frame (bt_vm_scripts b) (tk_req (sc_tasks c ! i)) f"
    using sched_ok_task [OF started_run_ok [OF assms(2,1)] push(3)] by simp
  with push show ?thesis by (intro exI [of _ i] exI [of _ k] exI [of _ f]) simp
next
  case (store i tk f key val sv)
  then show ?thesis using assms(5) store_and_ack_serial [OF store(7)] by simp
qed (use assms(4,5) in auto)

text \<open>A server with a serial port and scripts enabled, and a script for it from the local machine.\<close>

abbreviation script_booted :: "((mem_db, 64 word) tiered_store, 64 word, gateway_frame list, string, string) booted" where
  "script_booted \<equiv> sample_booted (empty_settings\<lparr>sf_serial_port := Some ''tty'', sf_security := Some (Some True)\<rparr>)"

definition script_req :: gateway_request where
  "script_req = \<lparr>req_cmd = Put ''vm:all'' [9], req_peer_addr = Some \<lparr>ip = V4 127 0 0 1, port = 5000\<rparr>\<rparr>"

lemma script_booted_sel [simp]: "bt_vm_scripts script_booted" "sv_serial_txs (bt_server script_booted) = [[]]"
  by (simp_all add: sample_booted_simps)

theorem serial_sends_are_guarded_in_every_schedule_witness:
  "\<exists>es c c'. task_run sample_sha sample_worker_ops record_tx sample_ready sample_device (bt_vm_scripts script_booted)
       (workers_start 2 script_booted) es c \<and>
     task_step sample_sha sample_worker_ops record_tx sample_ready sample_device (bt_vm_scripts script_booted) c (Push 0) c' \<and>
     guarded_frame (bt_vm_scripts script_booted) script_req \<lparr>mac_addr = array_splat 0xFF, frame_payload = [0x40, 9]\<rparr> \<and>
     sv_serial_txs (sc_server c') = [[\<lparr>mac_addr = array_splat 0xFF, frame_payload = [0x40, 9]\<rparr>]]"
proof -
  let ?f = "\<lparr>mac_addr = array_splat 0xFF, frame_payload = [0x40, 9]\<rparr>"
  let ?step = "task_step sample_sha sample_worker_ops record_tx sample_ready sample_device (bt_vm_scripts script_booted)"
  let ?run = "task_run sample_sha sample_worker_ops record_tx sample_ready sample_device (bt_vm_scripts script_booted)"
  define c where "c = (workers_start 2 script_booted)\<lparr>sc_tasks := [fresh_task 0 script_req]\<rparr>"
  have start: "?run (workers_start 2 script_booted) [Arrive 0 script_req, Recv 0] c"
    using sample_arrive_recv [where c = "workers_start 2 script_booted" and w = 0 and en = True] by (simp add: c_def eval_nat_numeral)
  have c: "0 < length (sc_tasks c)" "fresh_task 0 script_req = sc_tasks c ! 0" "sv_serial_txs (sc_server c) = [[]]"
    by (simp_all add: c_def)
  define c1 where "c1 = task_at 0 (Sending ?f 0) c"
  have "mac_of_key ''vm:all'' = Inr (array_splat 0xFF)"
    by (simp add: mac_of_key_def strip_prefix_def starts_with_def eq_ignore_ascii_case_def)
  then have "?step c (Poll 0) c1"
    using poll_vm [OF c(1,2), where en = True and key = "''vm:all''" and val = "[9]" and mac = "array_splat 0xFF"]
    by (simp add: c(3) c1_def vm_frame_def forwards_def script_req_def starts_with_def vm_guard_def)
  note polled = run_trans [OF start run_single [OF this]]
  define c2 where "c2 = task_at 0 (Sending ?f (Suc 0)) (c1\<lparr>sc_server := (sc_server c1)\<lparr>
    sv_serial_txs := (sv_serial_txs (sc_server c1))[0 := [?f]], sv_send_errors := sv_send_errors (sc_server c1) + (if True then 0 else 1)\<rparr>\<rparr>)"
  have c2: "?step c1 (Push 0) c2" "sv_serial_txs (sc_server c2) = [[?f]]"
    unfolding c2_def by (rule push) (use c in \<open>simp_all add: c1_def record_tx_def\<close>)
  have "tk_req (sc_tasks c1 ! 0) = script_req" "sv_serial_txs (sc_server c1) = [[]]" using c by (simp_all add: c1_def flip: c(2))
  with serial_sends_are_guarded_in_every_schedule [OF sample_main_started polled c2(1)] c2(2)
  have "guarded_frame (bt_vm_scripts script_booted) script_req ?f"
    by (auto simp: record_tx_def split: nat.splits dest: gr0_implies_Suc)
  with polled c2 show ?thesis by blast
qed

text \<open>
  A worker thread registers with the store's partition once: in any schedule, a thread whose cache holds a cdDB worker
  for the route keeps that very worker, whatever the other threads and its own later requests do.
\<close>

lemma threads_stay_registered:
  assumes "sched_ok shared_wf en c" and "registered w a (node_storage (sv_node (sc_server c)))"
    and "task_run sha256 (worker_ops cd sha256 ahash background) tx_send tx_ready device en c es c'"
  shows "registered w a (node_storage (sv_node (sc_server c')))"
proof -
  have "sched_ok (\<lambda>sh. shared_wf sh \<and> registered w a sh) en c" using assms(1,2) by (simp add: sched_ok_def)
  from registered.sched_ok_run [OF assms(3) this] show ?thesis by (simp add: sched_ok_def)
qed

definition registered_workers :: "((mem_db, 64 word) shared_store, 64 word, gateway_frame list) sched" where
  "registered_workers = sched_start
     \<lparr>sv_node = sample_node \<lparr>sh_store = sample_tiered mem_empty, sh_tls = (\<lambda>_. tls_switch 2 5)\<rparr>,
      sv_serial_txs = [], sv_responses = [], sv_send_errors = 0\<rparr> [[], []]"

lemma registered_workers_ok:
  "sched_ok shared_wf en registered_workers" "registered w 5 (node_storage (sv_node (sc_server registered_workers)))"
  using sample_tiered_wf [of mem_empty]
  by (simp_all add: registered_workers_def sched_start_def sched_ok_def shared_wf_def tiered_wf_def registered_def sample_tiered_def)

text \<open>
  The sequential server is one of the schedules: whatever \<open>serve\<close> computes for a worker's queue, there is a schedule
  of the tasks, without further arrivals, that ends with the same node, the same serial channels, the queue taken and one finished task per
  request, whose response channels hold the same responses one by one.
\<close>

lemma serve_is_a_schedule:
  assumes "serve sha256 (ops w) tx_send en w reqs sv = Inr sv'" and "\<forall>tx. tx_ready tx"
    and "w < length queues" and "queues ! w = reqs"
  shows "\<exists>fs es. sv_responses sv' = sv_responses sv @ fs \<and> length fs = length reqs \<and> filter is_arrival es = [] \<and>
    task_run sha256 ops tx_send tx_ready device en (sched_start sv queues) es
      \<lparr>sc_server = sv'\<lparr>sv_responses := sv_responses sv\<rparr>, sc_queues = queues[w := []],
       sc_tasks = map2 (done_task w) reqs fs\<rparr>"
  using serve_simulated [where ops = ops and c = "sched_start sv queues" and rs = "sv_responses sv", OF assms(1)] assms(2-4)
  by (simp add: sched_start_def)

end
