(* ===== verification/Interleaving.thy ===== *)
theory Interleaving
  imports Tiered_Store
begin

text \<open>
  Concurrent writers on one \<open>TieredStore\<close>. The workers of src/src/main.rs share the store, and
  \<open>apply_signed_record\<close> takes no lock: it is two atomic actions, the store of a pointer into the
  hot index and the \<open>try_send\<close> to the queue of the database, between which other threads run.
  The step relation below interleaves these actions and the commits of the database's background
  thread in every order. Shown: nothing is ever read that was not applied; when no two writers of one
  entity overlap, the index and the committed database agree; when they overlap, the two can
  differ for good.
\<close>

section \<open>The two halves of a write\<close>

definition apply_index ::
  "(bytes \<Rightarrow> hash32) \<Rightarrow> (bytes \<Rightarrow> u64) \<Rightarrow> ('db, 'e::len word) tiered_store \<Rightarrow> 'e word signed_record \<Rightarrow>
   ('db, 'e word) tiered_store res" where
  "apply_index sha256 ahash st r =
     bind_res (content_hash sha256 (payload r)) (\<lambda>h.
     bind_res (hot_index_set (ts_hot_index st) (entity_id ahash h) (cache_of r)) (\<lambda>idx.
       Inr (st\<lparr>ts_hot_index := idx\<rparr>)))"

definition apply_send ::
  "('db, 'qs) cddb \<Rightarrow> (bytes \<Rightarrow> hash32) \<Rightarrow> (bytes \<Rightarrow> u64) \<Rightarrow> ('db, 'e::len word) tiered_store \<Rightarrow>
   'e word signed_record \<Rightarrow> bool \<times> ('db, 'e word) tiered_store" where
  "apply_send cd sha256 ahash st r =
     (let (sent, db) = cd_try_send cd (ts_db st) (ts_writer st) (insert_command sha256 ahash r)
      in (sent, st\<lparr>ts_db := db\<rparr>))"

text \<open>Run without interruption, the two halves are \<open>apply_signed_record\<close>.\<close>

lemma apply_halves:
  "tiered_apply_signed_record cd sha256 ahash st r =
     bind_res (apply_index sha256 ahash st r) (\<lambda>st'. Inr (snd (apply_send cd sha256 ahash st' r)))"
  by (cases "hot_index_set (ts_hot_index st) (entity_id ahash (key_of sha256 (payload r))) (cache_of r)")
    (simp_all add: tiered_apply_signed_record_def apply_index_def apply_send_def insert_command_def Let_def
      split: prod.splits)

section \<open>Interleaved execution\<close>

text \<open>
  \<open>cc_sending c t\<close> is the record that thread \<open>t\<close> has put into the index and not yet sent;
  \<open>cc_applied\<close> remembers every record some thread has begun to apply, for the statements.
\<close>

record ('db, 'w) conc =
  cc_store :: "('db, 'w) tiered_store"
  cc_sending :: "nat \<Rightarrow> 'w signed_record option"
  cc_applied :: "'w signed_record list"

definition conc_start :: "('db, 'e::len word) tiered_store \<Rightarrow> ('db, 'e word) conc" where
  "conc_start st = \<lparr>cc_store = st, cc_sending = (\<lambda>_. None), cc_applied = []\<rparr>"

datatype 'r label = Index_Set nat 'r | Send nat bool | Commit

inductive conc_step ::
  "('db, 'qs) cddb \<Rightarrow> (bytes \<Rightarrow> hash32) \<Rightarrow> (bytes \<Rightarrow> u64) \<Rightarrow> ('db \<Rightarrow> 'db) \<Rightarrow>
   ('db, 'e::len word) conc \<Rightarrow> 'e word signed_record label \<Rightarrow> ('db, 'e word) conc \<Rightarrow> bool"
  for cd sha256 ahash drain where
  index: "cc_sending c t = None \<Longrightarrow> apply_index sha256 ahash (cc_store c) r = Inr st \<Longrightarrow>
    conc_step cd sha256 ahash drain c (Index_Set t r)
      (c\<lparr>cc_store := st, cc_sending := (cc_sending c)(t := Some r), cc_applied := cc_applied c @ [r]\<rparr>)"
| send: "cc_sending c t = Some r \<Longrightarrow> apply_send cd sha256 ahash (cc_store c) r = (sent, st) \<Longrightarrow>
    conc_step cd sha256 ahash drain c (Send t sent)
      (c\<lparr>cc_store := st, cc_sending := (cc_sending c)(t := None)\<rparr>)"
| commit: "conc_step cd sha256 ahash drain c Commit (c\<lparr>cc_store := tiered_flush drain (cc_store c)\<rparr>)"

inductive_cases conc_index_E: "conc_step cd sha256 ahash drain c (Index_Set t r) c'"
inductive_cases conc_send_E: "conc_step cd sha256 ahash drain c (Send t sent) c'"
inductive_cases conc_commit_E: "conc_step cd sha256 ahash drain c Commit c'"

inductive conc_run ::
  "('db, 'qs) cddb \<Rightarrow> (bytes \<Rightarrow> hash32) \<Rightarrow> (bytes \<Rightarrow> u64) \<Rightarrow> ('db \<Rightarrow> 'db) \<Rightarrow>
   ('db, 'e::len word) conc \<Rightarrow> 'e word signed_record label list \<Rightarrow> ('db, 'e word) conc \<Rightarrow> bool"
  for cd sha256 ahash drain where
  run_nil: "conc_run cd sha256 ahash drain c [] c"
| run_snoc: "conc_run cd sha256 ahash drain c ls c1 \<Longrightarrow> conc_step cd sha256 ahash drain c1 l c2 \<Longrightarrow>
    conc_run cd sha256 ahash drain c (ls @ [l]) c2"

definition quiescent :: "('db, 'e::len word) conc \<Rightarrow> bool" where
  "quiescent c \<longleftrightarrow> (\<forall>t. cc_sending c t = None)"

definition entity_of :: "(bytes \<Rightarrow> hash32) \<Rightarrow> (bytes \<Rightarrow> u64) \<Rightarrow> ('e::len) word signed_record \<Rightarrow> usize" where
  "entity_of sha256 ahash r = entity_id ahash (key_of sha256 (payload r))"

definition slot_of :: "(bytes \<Rightarrow> hash32) \<Rightarrow> (bytes \<Rightarrow> u64) \<Rightarrow> ('e::len) word signed_record \<Rightarrow> nat" where
  "slot_of sha256 ahash r = key_slot ahash (key_of sha256 (payload r))"

definition row_of :: "('e::len) word signed_record \<Rightarrow> row" where
  "row_of r = (ucast (epoch_id r), record_type r, payload r)"

lemma insert_command_sel [simp]:
  "cmd_entity_id (insert_command sha256 ahash r) = entity_of sha256 ahash r"
  "cmd_epoch (insert_command sha256 ahash r) = ucast (epoch_id r)"
  "cmd_record_type (insert_command sha256 ahash r) = record_type r"
  "cmd_payload (insert_command sha256 ahash r) = payload r"
  by (simp_all add: insert_command_def entity_of_def)

lemma commit_insert: "commit (insert_command sha256 ahash r) rows = rows(entity_of sha256 ahash r \<mapsto> row_of r)"
  by (simp add: commit_def row_of_def)

lemma same_entity_same_slot:
  "entity_of sha256 ahash r = entity_of sha256 ahash r' \<Longrightarrow> slot_of sha256 ahash r = slot_of sha256 ahash r'"
  by (simp add: entity_of_def slot_of_def key_slot_def)

lemma apply_index_eq:
  assumes "tiered_wf st"
  shows "\<exists>st'. apply_index sha256 ahash st r = Inr st' \<and> tiered_wf st' \<and> ts_db st' = ts_db st \<and>
    ts_writer st' = ts_writer st \<and> tiered_peek st' = (tiered_peek st)(slot_of sha256 ahash r \<mapsto> r)"
  using assms
  by (simp add: apply_index_def tiered_wf_def tiered_peek_def hot_set_store peek_index_set slot_of_def)

lemma apply_send_eq:
  "apply_send cd sha256 ahash st r =
     (fst (cd_try_send cd (ts_db st) (ts_writer st) (insert_command sha256 ahash r)),
      st\<lparr>ts_db := snd (cd_try_send cd (ts_db st) (ts_writer st) (insert_command sha256 ahash r))\<rparr>)"
  by (simp add: apply_send_def split_def Let_def)

lemma apply_send_frame:
  assumes "apply_send cd sha256 ahash st r = (sent, st')"
  shows "tiered_wf st' \<longleftrightarrow> tiered_wf st" and "tiered_peek st' = tiered_peek st"
    and "cd_try_send cd (ts_db st) (ts_writer st) (insert_command sha256 ahash r) = (sent, ts_db st')"
  using assms by (auto simp: apply_send_def tiered_wf_def tiered_peek_def Let_def split: prod.splits)

lemma flush_frame [simp]:
  "tiered_wf (tiered_flush drain st) \<longleftrightarrow> tiered_wf st" "tiered_peek (tiered_flush drain st) = tiered_peek st"
  "ts_db (tiered_flush drain st) = drain (ts_db st)"
  by (simp_all add: tiered_flush_def tiered_wf_def tiered_peek_def)

text \<open>The rows once everything queued is committed.\<close>

definition settled :: "('db \<Rightarrow> usize \<rightharpoonup> row) \<Rightarrow> ('db \<Rightarrow> write_command list) \<Rightarrow> 'db \<Rightarrow> usize \<rightharpoonup> row" where
  "settled rows pending db = fold commit (pending db) (rows db)"

lemma settled_send:
  assumes "cddb_laws cd rows pending drain" and "apply_send cd sha256 ahash st r = (sent, st')"
  shows "settled rows pending (ts_db st') =
    (if sent then (settled rows pending (ts_db st))(entity_of sha256 ahash r \<mapsto> row_of r)
     else settled rows pending (ts_db st))"
  using try_send_rows [OF assms(1) apply_send_frame(3) [OF assms(2)]]
  by (simp add: settled_def commit_insert)

lemma settled_drain: "cddb_laws cd rows pending drain \<Longrightarrow> settled rows pending (drain db) = settled rows pending db"
  by (simp add: settled_def cddb_laws_def drain_commits_def)

lemma rows_drain: "cddb_laws cd rows pending drain \<Longrightarrow> rows (drain db) = settled rows pending db"
  by (simp add: settled_def drain_rows)

section \<open>Nothing out of thin air\<close>

text \<open>
  The invariant: what the index, the senders, the queue and the rows hold comes from a record
  that some thread applied, or, for the rows, from the database the run began with.
\<close>

definition sourced ::
  "(bytes \<Rightarrow> hash32) \<Rightarrow> (bytes \<Rightarrow> u64) \<Rightarrow> ('db \<Rightarrow> usize \<rightharpoonup> row) \<Rightarrow> ('db \<Rightarrow> write_command list) \<Rightarrow>
   (usize \<rightharpoonup> row) \<Rightarrow> ('db, 'e::len word) conc \<Rightarrow> bool" where
  "sourced sha256 ahash rows pending init c \<longleftrightarrow>
     tiered_wf (cc_store c) \<and>
     (\<forall>s r. tiered_peek (cc_store c) s = Some r \<longrightarrow> r \<in> set (cc_applied c) \<and> s = slot_of sha256 ahash r) \<and>
     (\<forall>t r. cc_sending c t = Some r \<longrightarrow> r \<in> set (cc_applied c)) \<and>
     set (pending (ts_db (cc_store c))) \<subseteq> insert_command sha256 ahash ` set (cc_applied c) \<and>
     (\<forall>i. rows (ts_db (cc_store c)) i = init i \<or>
          (\<exists>r \<in> set (cc_applied c). entity_of sha256 ahash r = i \<and> rows (ts_db (cc_store c)) i = Some (row_of r)))"

lemma fold_commit_cases:
  "fold commit cs rows i = rows i \<or>
   (\<exists>k \<in> set cs. cmd_entity_id k = i \<and> fold commit cs rows i = Some (cmd_epoch k, cmd_record_type k, cmd_payload k))"
proof (cases "filter (\<lambda>c. cmd_entity_id c = i) cs")
  case Nil
  then show ?thesis using fold_commit [of cs rows i] by simp
next
  case (Cons k ks)
  let ?k = "last (k # ks)"
  have "?k \<in> set (k # ks)" by (rule last_in_set) simp
  then have "?k \<in> set cs" and "cmd_entity_id ?k = i" unfolding Cons [symmetric] by simp_all
  moreover have "fold commit cs rows i = Some (cmd_epoch ?k, cmd_record_type ?k, cmd_payload ?k)"
    unfolding fold_commit Cons by (simp add: Let_def)
  ultimately show ?thesis by blast
qed

lemma sourced_step:
  assumes laws: "cddb_laws cd rows pending drain"
    and step: "conc_step cd sha256 ahash drain c l c'" and inv: "sourced sha256 ahash rows pending init c"
  shows "sourced sha256 ahash rows pending init c'"
  using step
proof cases
  case (index t r st)
  have "tiered_wf (cc_store c)" using inv by (simp add: sourced_def)
  from apply_index_eq [OF this, of sha256 ahash r] index(4) have st: "tiered_wf st" "ts_db st = ts_db (cc_store c)"
    "tiered_peek st = (tiered_peek (cc_store c))(slot_of sha256 ahash r \<mapsto> r)" by auto
  show ?thesis using inv unfolding index(2) sourced_def by (auto simp: st)
next
  case (send t r sent st)
  note frame = apply_send_frame [OF send(4)] try_send_rows [OF laws apply_send_frame(3) [OF send(4)]]
  have "r \<in> set (cc_applied c)" using inv send(3) by (simp add: sourced_def)
  with inv show ?thesis unfolding send(2) sourced_def by (auto simp: frame)
next
  case commit
  let ?db = "ts_db (cc_store c)"
  have drained: "rows (drain ?db) = fold commit (pending ?db) (rows ?db)" "pending (drain ?db) = []"
    using laws by (simp_all add: cddb_laws_def drain_commits_def)
  have "rows (drain ?db) i = init i \<or>
      (\<exists>r \<in> set (cc_applied c). entity_of sha256 ahash r = i \<and> rows (drain ?db) i = Some (row_of r))" for i
    using fold_commit_cases [of "pending ?db" "rows ?db" i] inv
    unfolding drained sourced_def by (fastforce simp: row_of_def)
  with inv show ?thesis unfolding commit(2) sourced_def by (simp add: drained)
qed

lemma sourced_run:
  assumes "cddb_laws cd rows pending drain" and "conc_run cd sha256 ahash drain c ls c'"
    and "sourced sha256 ahash rows pending init c"
  shows "sourced sha256 ahash rows pending init c'"
  using assms(2,3) by induction (auto intro: sourced_step [OF assms(1)])

lemma sourced_start:
  assumes "tiered_wf st" and "tiered_peek st = (\<lambda>_. None)" and "pending (ts_db st) = []"
  shows "sourced sha256 ahash rows pending (rows (ts_db st)) (conc_start st)"
  using assms by (simp add: sourced_def conc_start_def)

section \<open>Writers that do not overlap\<close>

text \<open>
  A step is orderly when it does not begin a write of an entity that another thread is in the middle of
  writing, and when the queue accepts what is sent.
\<close>

definition orderly :: "(bytes \<Rightarrow> hash32) \<Rightarrow> (bytes \<Rightarrow> u64) \<Rightarrow> ('db, 'e::len word) conc \<Rightarrow> 'e word signed_record label \<Rightarrow> bool" where
  "orderly sha256 ahash c l =
     (case l of
        Index_Set t r \<Rightarrow> (\<forall>t' r'. cc_sending c t' = Some r' \<longrightarrow> entity_of sha256 ahash r' \<noteq> entity_of sha256 ahash r)
      | Send t sent \<Rightarrow> sent
      | Commit \<Rightarrow> True)"

definition orderly_step ::
  "('db, 'qs) cddb \<Rightarrow> (bytes \<Rightarrow> hash32) \<Rightarrow> (bytes \<Rightarrow> u64) \<Rightarrow> ('db \<Rightarrow> 'db) \<Rightarrow> ('db, 'e::len word) conc \<Rightarrow> ('db, 'e word) conc \<Rightarrow> bool"
  where
  "orderly_step cd sha256 ahash drain c c' \<longleftrightarrow>
     (\<exists>l. conc_step cd sha256 ahash drain c l c' \<and> orderly sha256 ahash c l)"

text \<open>
  The invariant: at most one thread is writing an entity, and a record in the index is either
  still to be sent, or what its entity's row will be once the queue is committed.
\<close>

definition clear_of ::
  "(bytes \<Rightarrow> hash32) \<Rightarrow> (bytes \<Rightarrow> u64) \<Rightarrow> (nat \<Rightarrow> ('e::len) word signed_record option) \<Rightarrow> usize \<Rightarrow> bool" where
  "clear_of sha256 ahash sending i \<longleftrightarrow> (\<forall>t r. sending t = Some r \<longrightarrow> entity_of sha256 ahash r \<noteq> i)"

definition exclusive ::
  "(bytes \<Rightarrow> hash32) \<Rightarrow> (bytes \<Rightarrow> u64) \<Rightarrow> (nat \<Rightarrow> ('e::len) word signed_record option) \<Rightarrow> bool" where
  "exclusive sha256 ahash sending \<longleftrightarrow>
     (\<forall>t t' r r'. sending t = Some r \<longrightarrow> sending t' = Some r' \<longrightarrow>
        entity_of sha256 ahash r = entity_of sha256 ahash r' \<longrightarrow> t = t')"

definition backed ::
  "(bytes \<Rightarrow> hash32) \<Rightarrow> (bytes \<Rightarrow> u64) \<Rightarrow> (nat \<Rightarrow> ('e::len) word signed_record option) \<Rightarrow> (usize \<rightharpoonup> row) \<Rightarrow>
   'e word signed_record \<Rightarrow> bool" where
  "backed sha256 ahash sending rws r \<longleftrightarrow>
     (\<exists>t. sending t = Some r) \<or>
     clear_of sha256 ahash sending (entity_of sha256 ahash r) \<and> rws (entity_of sha256 ahash r) = Some (row_of r)"

definition in_step ::
  "(bytes \<Rightarrow> hash32) \<Rightarrow> (bytes \<Rightarrow> u64) \<Rightarrow> ('db \<Rightarrow> usize \<rightharpoonup> row) \<Rightarrow> ('db \<Rightarrow> write_command list) \<Rightarrow>
   ('db, 'e::len word) conc \<Rightarrow> bool" where
  "in_step sha256 ahash rows pending c \<longleftrightarrow>
     tiered_wf (cc_store c) \<and> exclusive sha256 ahash (cc_sending c) \<and>
     (\<forall>s r. tiered_peek (cc_store c) s = Some r \<longrightarrow> s = slot_of sha256 ahash r \<and>
        backed sha256 ahash (cc_sending c) (settled rows pending (ts_db (cc_store c))) r)"

lemma exclusive_begin:
  "exclusive sha256 ahash sending \<Longrightarrow> clear_of sha256 ahash sending (entity_of sha256 ahash r) \<Longrightarrow>
   exclusive sha256 ahash (sending(t := Some r))"
  unfolding exclusive_def clear_of_def by (metis fun_upd_apply option.inject)

lemma exclusive_end: "exclusive sha256 ahash sending \<Longrightarrow> exclusive sha256 ahash (sending(t := None))"
  unfolding exclusive_def by (metis fun_upd_apply option.distinct(1))

lemma backed_begin:
  "backed sha256 ahash sending rws r' \<Longrightarrow> sending t = None \<Longrightarrow>
   entity_of sha256 ahash r' \<noteq> entity_of sha256 ahash r \<Longrightarrow> backed sha256 ahash (sending(t := Some r)) rws r'"
  unfolding backed_def clear_of_def by (metis fun_upd_apply option.distinct(1) option.inject)

lemma backed_end:
  assumes "backed sha256 ahash sending rws r'" and "exclusive sha256 ahash sending" and "sending t = Some r"
  shows "backed sha256 ahash (sending(t := None)) (rws(entity_of sha256 ahash r \<mapsto> row_of r)) r'"
proof (cases "entity_of sha256 ahash r' = entity_of sha256 ahash r")
  case True
  with assms(1,3) obtain t' where "sending t' = Some r'" unfolding backed_def clear_of_def by metis
  with assms(2,3) True have "r' = r" unfolding exclusive_def by (metis option.inject)
  moreover have "clear_of sha256 ahash (sending(t := None)) (entity_of sha256 ahash r)"
    using assms(2,3) unfolding clear_of_def exclusive_def by (metis fun_upd_apply option.distinct(1))
  ultimately show ?thesis by (simp add: backed_def)
next
  case False
  with assms(1,3) show ?thesis
    unfolding backed_def clear_of_def by (metis fun_upd_apply option.distinct(1) option.inject)
qed

lemma in_step_step:
  assumes laws: "cddb_laws cd rows pending drain"
    and step: "conc_step cd sha256 ahash drain (c :: ('db, 'e::len word) conc) l c'" and "orderly sha256 ahash c l"
    and inv: "in_step sha256 ahash rows pending c"
  shows "in_step sha256 ahash rows pending c'"
  using step
proof cases
  case (index t r st)
  have "tiered_wf (cc_store c)" using inv by (simp add: in_step_def)
  from apply_index_eq [OF this, of sha256 ahash r] index(4) have st: "tiered_wf st" "ts_db st = ts_db (cc_store c)"
    "tiered_peek st = (tiered_peek (cc_store c))(slot_of sha256 ahash r \<mapsto> r)" by auto
  have "clear_of sha256 ahash (cc_sending c) (entity_of sha256 ahash r)"
    using assms(3) index(1) by (simp add: orderly_def clear_of_def)
  moreover have "entity_of sha256 ahash r' \<noteq> entity_of sha256 ahash r"
    if "slot_of sha256 ahash r' \<noteq> slot_of sha256 ahash r" for r' :: "'e word signed_record"
    using that same_entity_same_slot by metis
  moreover have "backed sha256 ahash ((cc_sending c)(t := Some r)) rws r" for rws
    by (auto simp: backed_def)
  ultimately show ?thesis
    using inv index(3) unfolding index(2) in_step_def
    by (auto simp: st exclusive_begin intro: backed_begin)
next
  case (send t r sent st)
  note frame = apply_send_frame(1,2) [OF send(4)]
  have "settled rows pending (ts_db st) = (settled rows pending (ts_db (cc_store c)))(entity_of sha256 ahash r \<mapsto> row_of r)"
    using settled_send [OF laws send(4)] assms(3) send(1) by (simp add: orderly_def)
  then show ?thesis
    using inv send(3) unfolding send(2) in_step_def
    by (auto simp: frame exclusive_end intro: backed_end)
next
  case commit
  with inv show ?thesis unfolding commit(2) in_step_def by (simp add: settled_drain [OF laws])
qed

lemma in_step_run:
  assumes "cddb_laws cd rows pending drain" and "(orderly_step cd sha256 ahash drain)\<^sup>*\<^sup>* c c'"
    and "in_step sha256 ahash rows pending c"
  shows "in_step sha256 ahash rows pending c'"
  using assms(2,3)
  by induction (auto simp: orderly_step_def intro: in_step_step [OF assms(1)])

lemma in_step_start:
  assumes "tiered_wf st" and "tiered_peek st = (\<lambda>_. None)"
  shows "in_step sha256 ahash rows pending (conc_start st)"
  using assms by (simp add: in_step_def conc_start_def exclusive_def)

section \<open>Properties\<close>

lemma conc_run_step: "conc_step cd sha256 ahash drain c l c' \<Longrightarrow> conc_run cd sha256 ahash drain c [l] c'"
  using run_snoc [OF run_nil] by fastforce

text \<open>The interleaving of two writers in which the second overtakes the first between its halves.\<close>

lemma overtaking_run:
  fixes st :: "('db, 'e::len word) tiered_store"
  assumes a: "apply_index sha256 ahash st r1 = Inr sta" and b: "apply_index sha256 ahash sta r2 = Inr stb"
    and c: "apply_send cd sha256 ahash stb r2 = (True, stc)" and d: "apply_send cd sha256 ahash stc r1 = (True, std)"
  shows "\<exists>c. conc_run cd sha256 ahash drain (conc_start st)
      [Index_Set 0 r1, Index_Set 1 r2, Send 1 True, Send 0 True, Commit] c \<and> quiescent c \<and>
    cc_store c = tiered_flush drain std"
proof -
  let ?step = "conc_step cd sha256 ahash drain"
  define c1 where "c1 = \<lparr>cc_store = sta, cc_sending = (\<lambda>_. None)(0 := Some r1), cc_applied = [r1]\<rparr>"
  define c2 where "c2 = c1\<lparr>cc_store := stb, cc_sending := (cc_sending c1)(1 := Some r2), cc_applied := [r1, r2]\<rparr>"
  define c3 where "c3 = c2\<lparr>cc_store := stc, cc_sending := (cc_sending c2)(1 := None)\<rparr>"
  define c4 where "c4 = c3\<lparr>cc_store := std, cc_sending := (cc_sending c3)(0 := None)\<rparr>"
  define c5 where "c5 = c4\<lparr>cc_store := tiered_flush drain std\<rparr>"
  have "?step (conc_start st) (Index_Set 0 r1) c1"
    using conc_step.index [of "conc_start st" 0 sha256 ahash r1 sta] a by (simp add: conc_start_def c1_def)
  moreover have "?step c1 (Index_Set 1 r2) c2"
    using conc_step.index [of c1 1 sha256 ahash r2 stb] b by (simp add: c1_def c2_def)
  moreover have "?step c2 (Send 1 True) c3"
    using conc_step.send [of c2 1 r2 cd sha256 ahash True stc] c by (simp add: c2_def c3_def)
  moreover have "?step c3 (Send 0 True) c4"
    using conc_step.send [of c3 0 r1 cd sha256 ahash True std] d by (simp add: c1_def c2_def c3_def c4_def)
  moreover have "?step c4 Commit c5"
    using conc_step.commit [of cd sha256 ahash drain c4] by (simp add: c4_def c5_def)
  ultimately have "conc_run cd sha256 ahash drain (conc_start st)
      ((((([] @ [Index_Set 0 r1]) @ [Index_Set 1 r2]) @ [Send 1 True]) @ [Send 0 True]) @ [Commit]) c5"
    by (blast intro: run_snoc run_nil)
  moreover have "quiescent c5"
    by (auto simp: quiescent_def c1_def c2_def c3_def c4_def c5_def)
  ultimately show ?thesis by (auto simp: c5_def)
qed

text \<open>
  No read returns anything that was not written. Take any interleaving of any number of writers
  and of the database's commits, from an empty index. In every state of it, an index read under a key
  \<open>h\<close> gives nothing or, whole and unchanged, a record that some thread applied under a key of
  the same slot; a session read of an entity gives what the database held for it at the start, or the
  row of a record that some thread applied under exactly that entity id.
\<close>

lemma concurrent_reads_return_applied_records:
  assumes "cddb_laws cd rows pending drain"
    and "tiered_wf (st :: ('db, 'e::len word) tiered_store)" and "tiered_peek st = (\<lambda>_. None)" and "pending (ts_db st) = []"
    and "conc_run cd sha256 ahash drain (conc_start st) ls c"
  shows "(\<exists>x. hot_index_get (ts_hot_index (cc_store c)) (entity_id ahash h) = Inr x \<and>
      (\<forall>y. x = Some y \<longrightarrow> record_of y \<in> set (cc_applied c) \<and>
        key_slot ahash (key_of sha256 (payload (record_of y))) = key_slot ahash h)) \<and>
    (let x = cold_read cd (cd_query_session cd (ts_db (cc_store c)) rt w) (entity_id ahash h)
     in x = map_option row_record (rows (ts_db st) (entity_id ahash h)) \<or>
        (\<exists>r \<in> set (cc_applied c). entity_id ahash (key_of sha256 (payload r)) = entity_id ahash h \<and>
           x = Some (r\<lparr>epoch_id := ucast (ucast (epoch_id r) :: u32), judge_signature := array_splat 0\<rparr>)))"
proof
  have inv: "sourced sha256 ahash rows pending (rows (ts_db st)) c"
    by (rule sourced_run [OF assms(1,5)], rule sourced_start) fact+
  then have idx: "index_wf (ts_hot_index (cc_store c))" by (simp add: sourced_def tiered_wf_def)
  have "record_of y \<in> set (cc_applied c) \<and> key_slot ahash (key_of sha256 (payload (record_of y))) = key_slot ahash h"
    if "table (ts_hot_index (cc_store c)) ! key_slot ahash h = Some y" for y
  proof -
    have "tiered_peek (cc_store c) (key_slot ahash h) = Some (record_of y)"
      using that by (simp add: tiered_peek_def peek_index_slot [OF idx])
    with inv show ?thesis by (auto simp: sourced_def slot_of_def)
  qed
  then show "\<exists>x. hot_index_get (ts_hot_index (cc_store c)) (entity_id ahash h) = Inr x \<and>
      (\<forall>y. x = Some y \<longrightarrow> record_of y \<in> set (cc_applied c) \<and>
        key_slot ahash (key_of sha256 (payload (record_of y))) = key_slot ahash h)"
    by (auto simp: hot_get_store [OF idx])
  have row: "row_record (row_of r) = r\<lparr>epoch_id := ucast (ucast (epoch_id r) :: u32), judge_signature := array_splat 0\<rparr>"
    for r :: "'e word signed_record"
    by (cases r) (simp add: row_record_def row_of_def)
  show "let x = cold_read cd (cd_query_session cd (ts_db (cc_store c)) rt w) (entity_id ahash h)
     in x = map_option row_record (rows (ts_db st) (entity_id ahash h)) \<or>
        (\<exists>r \<in> set (cc_applied c). entity_id ahash (key_of sha256 (payload r)) = entity_id ahash h \<and>
           x = Some (r\<lparr>epoch_id := ucast (ucast (epoch_id r) :: u32), judge_signature := array_splat 0\<rparr>))"
  proof -
    let ?i = "entity_id ahash h" and ?rows = "rows (ts_db (cc_store c))"
    have "?rows ?i = rows (ts_db st) ?i \<or>
        (\<exists>r \<in> set (cc_applied c). entity_of sha256 ahash r = ?i \<and> ?rows ?i = Some (row_of r))"
      using inv unfolding sourced_def by blast
    then show ?thesis
      unfolding cold_read_rows [OF assms(1)] Let_def entity_of_def
    proof (elim disjE bexE conjE)
      fix r
      assume "r \<in> set (cc_applied c)" "entity_id ahash (key_of sha256 (payload r)) = ?i" "?rows ?i = Some (row_of r)"
      then show "map_option row_record (?rows ?i) = map_option row_record (rows (ts_db st) ?i) \<or>
          (\<exists>r \<in> set (cc_applied c). entity_id ahash (key_of sha256 (payload r)) = ?i \<and>
             map_option row_record (?rows ?i) =
               Some (r\<lparr>epoch_id := ucast (ucast (epoch_id r) :: u32), judge_signature := array_splat 0\<rparr>))" by (intro disjI2 bexI [of _ r]) (simp_all add: row)
    qed simp
  qed
qed

text \<open>
  C11: Writers that do not overlap keep the two tiers in agreement: in any interleaving in which no
  thread begins to write an entity while another is between the two halves of a write of the
  same entity, and in which the queue accepts every command, once every write has finished each
  record in the index is also what the database holds for its entity after its queue is committed:
  a read from the index and a read past the index give the same payload and type.
\<close>

theorem orderly_writers_keep_tiers_in_agreement:
  assumes "cddb_laws cd rows pending drain"
    and "tiered_wf (st :: ('db, 'e::len word) tiered_store)" and "tiered_peek st = (\<lambda>_. None)"
    and "(orderly_step cd sha256 ahash drain)\<^sup>*\<^sup>* (conc_start st) c" and "quiescent c"
    and "tiered_get_record cd ahash (cc_store c) h m = Inr (Some r, st1, m\<lparr>cache_hits := cache_hits m + 1\<rparr>)"
  shows "\<exists>st2. tiered_get_record cd ahash (cold_view drain (cc_store c)) (key_of sha256 (payload r)) m =
    Inr (Some (r\<lparr>epoch_id := ucast (ucast (epoch_id r) :: u32), judge_signature := array_splat 0\<rparr>), st2,
         m\<lparr>cache_misses := cache_misses m + 1\<rparr>)"
proof -
  have inv: "in_step sha256 ahash rows pending c"
    by (rule in_step_run [OF assms(1,4)], rule in_step_start) fact+
  then have wf: "tiered_wf (cc_store c)" by (simp add: in_step_def)
  obtain y where y: "tiered_peek (cc_store c) (key_slot ahash h) = Some y"
  proof (cases "tiered_peek (cc_store c) (key_slot ahash h)")
    case None
    obtain w tls db where "get_worker cd (ts_route (cc_store c)) (ts_tls (cc_store c)) (ts_db (cc_store c)) = (w, tls, db)"
      by (cases "get_worker cd (ts_route (cc_store c)) (ts_tls (cc_store c)) (ts_db (cc_store c))")
    from tiered_get_miss [OF wf None this, of m] assms(6) have "inc_cache_misses m = m\<lparr>cache_hits := cache_hits m + 1\<rparr>"
      by simp
    then show ?thesis by (cases m) (simp add: inc_cache_misses_def)
  qed
  with tiered_get_hit [OF wf y, of cd m] assms(6) have "tiered_peek (cc_store c) (key_slot ahash h) = Some r" by simp
  with inv assms(5) have "settled rows pending (ts_db (cc_store c)) (entity_of sha256 ahash r) = Some (row_of r)"
    by (auto simp: in_step_def backed_def quiescent_def)
  moreover have "row_record (row_of r) = r\<lparr>epoch_id := ucast (ucast (epoch_id r) :: u32), judge_signature := array_splat 0\<rparr>"
    by (cases r) (simp add: row_record_def row_of_def)
  ultimately show ?thesis
    using tiered_get_cold_view [OF assms(1), of ahash "cc_store c" "key_of sha256 (payload r)" m]
    by (simp add: rows_drain [OF assms(1)] entity_of_def inc_cache_misses_def)
qed

theorem orderly_writers_keep_tiers_in_agreement_witness:
  "\<exists>c st2. (orderly_step (mem_cddb 4) sample_sha sample_ahash mem_drain)\<^sup>*\<^sup>* (conc_start (sample_tiered mem_empty)) c \<and>
     quiescent c \<and>
     tiered_get_record (mem_cddb 4) sample_ahash (cold_view mem_drain (cc_store c))
         (key_of sample_sha (payload (sample_record 1))) no_metrics =
       Inr (Some ((sample_record 1)\<lparr>epoch_id := ucast (ucast (epoch_id (sample_record 1)) :: u32),
         judge_signature := array_splat 0\<rparr>), st2, no_metrics\<lparr>cache_misses := 1\<rparr>)"
proof -
  let ?st = "sample_tiered mem_empty" and ?r = "sample_record 1"
  let ?step = "orderly_step (mem_cddb 4) sample_sha sample_ahash mem_drain"
  obtain sta where a: "apply_index sample_sha sample_ahash ?st ?r = Inr sta" "tiered_wf sta" "ts_db sta = mem_empty"
    "tiered_peek sta (slot_of sample_sha sample_ahash ?r) = Some ?r"
    using apply_index_eq [OF sample_tiered_wf [of mem_empty], of sample_sha sample_ahash ?r] by (auto simp: sample_tiered_def)
  obtain stb where b: "apply_send (mem_cddb 4) sample_sha sample_ahash sta ?r = (True, stb)"
    by (simp add: apply_send_eq a(3) mem_cddb_def mem_empty_def)
  define c1 where "c1 = \<lparr>cc_store = sta, cc_sending = (\<lambda>_. None)(0 := Some ?r), cc_applied = [?r]\<rparr>"
  define c2 where "c2 = c1\<lparr>cc_store := stb, cc_sending := (cc_sending c1)(0 := None)\<rparr>"
  have "?step (conc_start ?st) c1"
    using conc_step.index [of "conc_start ?st" 0 sample_sha sample_ahash ?r sta "mem_cddb 4" mem_drain] a(1)
    unfolding orderly_step_def by (intro exI [of _ "Index_Set 0 ?r"]) (simp add: conc_start_def c1_def orderly_def)
  moreover have "?step c1 c2"
    using conc_step.send [of c1 0 ?r "mem_cddb 4" sample_sha sample_ahash True stb mem_drain] b
    unfolding orderly_step_def by (intro exI [of _ "Send 0 True"]) (simp add: c1_def c2_def orderly_def)
  ultimately have run: "?step\<^sup>*\<^sup>* (conc_start ?st) c2" by auto
  have quiet: "quiescent c2" by (simp add: quiescent_def c1_def c2_def)
  have none: "tiered_peek ?st = (\<lambda>_. None)" by (auto simp: tiered_peek_def peek_index_def sample_tiered_def)
  have "tiered_get_record (mem_cddb 4) sample_ahash (cc_store c2) (key_of sample_sha (payload ?r)) no_metrics =
      Inr (Some ?r, cc_store c2, no_metrics\<lparr>cache_hits := cache_hits no_metrics + 1\<rparr>)"
    using tiered_get_hit [of stb sample_ahash "key_of sample_sha (payload ?r)" ?r "mem_cddb 4" no_metrics]
      apply_send_frame(1,2) [OF b] a(2,4) by (simp add: c2_def slot_of_def inc_cache_hits_def)
  from orderly_writers_keep_tiers_in_agreement [OF mem_cddb_laws sample_tiered_wf none run quiet this]
  show ?thesis using run quiet by (auto simp: no_metrics_def)
qed

text \<open>
  C25: Without that discipline the tiers can disagree for good. Two threads apply records of the same
  entity: the first stores into the index, the second stores and sends, then the first sends.
  Both sends are accepted, both calls return, the queue is committed -- and the index serves the
  second record while the database, and every read past the index, has the first.
\<close>

theorem overlapping_writers_can_diverge:
  fixes st :: "('db, 'e::len word) tiered_store"
  assumes "cddb_laws cd rows pending drain" and "tiered_wf st"
    and "key_of sha256 (payload r1) = h" and "key_of sha256 (payload r2) = h"
    and "fst (cd_try_send cd (ts_db st) (ts_writer st) (insert_command sha256 ahash r2))"
    and "fst (cd_try_send cd (snd (cd_try_send cd (ts_db st) (ts_writer st) (insert_command sha256 ahash r2)))
               (ts_writer st) (insert_command sha256 ahash r1))"
  shows "\<exists>c st1 st2. conc_run cd sha256 ahash drain (conc_start st)
      [Index_Set 0 r1, Index_Set 1 r2, Send 1 True, Send 0 True, Commit] c \<and> quiescent c \<and>
    tiered_get_record cd ahash (cc_store c) h m = Inr (Some r2, st1, inc_cache_hits m) \<and>
    tiered_get_record cd ahash (cold_view drain (cc_store c)) h m =
      Inr (Some (r1\<lparr>epoch_id := ucast (ucast (epoch_id r1) :: u32), judge_signature := array_splat 0\<rparr>), st2,
           inc_cache_misses m)"
proof -
  let ?e = "entity_id ahash h"
  obtain sta where a: "apply_index sha256 ahash st r1 = Inr sta" "tiered_wf sta" "ts_db sta = ts_db st"
    "ts_writer sta = ts_writer st"
    using apply_index_eq [OF assms(2)] by blast
  obtain stb where b: "apply_index sha256 ahash sta r2 = Inr stb" "tiered_wf stb" "ts_db stb = ts_db sta"
    "ts_writer stb = ts_writer sta" "tiered_peek stb = (tiered_peek sta)(slot_of sha256 ahash r2 \<mapsto> r2)"
    using apply_index_eq [OF a(2)] by blast
  obtain stc where c: "apply_send cd sha256 ahash stb r2 = (True, stc)" "ts_writer stc = ts_writer st"
    "ts_db stc = snd (cd_try_send cd (ts_db st) (ts_writer st) (insert_command sha256 ahash r2))"
    using assms(5) a(3,4) b(3,4) by (simp add: apply_send_eq)
  obtain std where d: "apply_send cd sha256 ahash stc r1 = (True, std)"
    using assms(6) c by (simp add: apply_send_eq)
  obtain c5 where run: "conc_run cd sha256 ahash drain (conc_start st)
      [Index_Set 0 r1, Index_Set 1 r2, Send 1 True, Send 0 True, Commit] c5" "quiescent c5"
    and c5_def: "cc_store c5 = tiered_flush drain std"
    using overtaking_run [OF a(1) b(1) c(1) d] by blast
  have "tiered_wf (cc_store c5)" and "tiered_peek (cc_store c5) (key_slot ahash h) = Some r2"
    using b assms(4) apply_send_frame(1,2) [OF c(1)] apply_send_frame(1,2) [OF d]
    by (simp_all add: c5_def slot_of_def)
  then have "tiered_get_record cd ahash (cc_store c5) h m = Inr (Some r2, cc_store c5, inc_cache_hits m)"
    by (rule tiered_get_hit)
  moreover have "settled rows pending (ts_db std) ?e = Some (row_of r1)"
    using settled_send [OF assms(1) d] assms(3) by (simp add: entity_of_def)
  then have "rows (drain (ts_db (cc_store c5))) ?e = Some (row_of r1)"
    by (simp add: rows_drain [OF assms(1)] settled_drain [OF assms(1)] c5_def)
  moreover have "row_record (row_of r1) = r1\<lparr>epoch_id := ucast (ucast (epoch_id r1) :: u32), judge_signature := array_splat 0\<rparr>"
    by (cases r1) (simp add: row_record_def row_of_def)
  ultimately show ?thesis
    using tiered_get_cold_view [OF assms(1), of ahash "cc_store c5" h m] run by auto
qed

text \<open>Two records under the same key.\<close>

definition sample_version :: "u8 \<Rightarrow> 64 word signed_record" where
  "sample_version v = (sample_record 1)\<lparr>payload := array_to_list (sample_sha [7]) @ [v]\<rparr>"

theorem overlapping_writers_can_diverge_witness:
  "\<exists>c st1 st2. conc_run (mem_cddb 4) sample_sha sample_ahash mem_drain (conc_start (sample_tiered mem_empty))
      [Index_Set 0 (sample_version 1), Index_Set 1 (sample_version 2), Send 1 True, Send 0 True, Commit] c \<and> quiescent c \<and>
    tiered_get_record (mem_cddb 4) sample_ahash (cc_store c) (sample_sha [7]) no_metrics =
      Inr (Some (sample_version 2), st1, inc_cache_hits no_metrics) \<and>
    tiered_get_record (mem_cddb 4) sample_ahash (cold_view mem_drain (cc_store c)) (sample_sha [7]) no_metrics =
      Inr (Some ((sample_version 1)\<lparr>epoch_id := ucast (ucast (epoch_id (sample_version 1)) :: u32),
        judge_signature := array_splat 0\<rparr>), st2, inc_cache_misses no_metrics)"
  by (rule overlapping_writers_can_diverge [OF mem_cddb_laws sample_tiered_wf])
    (simp_all add: sample_version_def sample_tiered_def mem_cddb_def mem_empty_def)

end
