(* ===== verification/Executor_Steps.thy ===== *)
theory Executor_Steps
  imports Threads Interleaving
begin

text \<open>
  \<open>L2Executor::get\<close> and \<open>put\<close> (src/src/storage.rs) taken apart into their atomic actions, for threads that run
  truly in parallel: the counters are atomic, the index is an array of atomic pointers, the queue of the
  database takes one command at a time, and between any two actions other threads and the database's
  dispatcher run. Each worker thread has its own worker cache (\<open>Threads\<close>). The dispatcher commits any
  number of queued commands at a time. A thread may also apply a record that the node has received from a peer.
  Registering a worker with the database takes a global lock (SPEC.md), so this action may have to wait: \<open>reg_free\<close>, a
  parameter, says when the lock is free. The other calls into cdDB (\<open>try_send\<close>, opening a session, reading) are
  documented not to block and are always possible. Shown: run without interruption the actions are \<open>l2_get\<close> and \<open>l2_put\<close>;
  a thread registers at most once; the counters add up in every interleaving.
\<close>

section \<open>The actions of a read below the counters\<close>

definition get_load :: "(bytes \<Rightarrow> u64) \<Rightarrow> ('db, 'w) tiered_store \<Rightarrow> hash32 \<Rightarrow> 'w cached_record option res" where
  "get_load ahash st h = hot_index_get (ts_hot_index st) (entity_id ahash h)"

definition cold_worker ::
  "('db, 'qs) cddb \<Rightarrow> ('db, 'w) tiered_store \<Rightarrow> arc \<times> ('db, 'w) tiered_store" where
  "cold_worker cd st =
     (case get_worker cd (ts_route st) (ts_tls st) (ts_db st) of
        (w, tls, db) \<Rightarrow> (w, st\<lparr>ts_tls := tls, ts_db := db\<rparr>))"

definition cold_session ::
  "('db, 'qs) cddb \<Rightarrow> (bytes \<Rightarrow> u64) \<Rightarrow> ('db, 'e::len word) tiered_store \<Rightarrow> arc \<Rightarrow> hash32 \<Rightarrow>
   'e word signed_record option" where
  "cold_session cd ahash st w h = cold_read cd (cd_query_session cd (ts_db st) (ts_route st) w) (entity_id ahash h)"

text \<open>Run without interruption, the actions are \<open>get_record\<close>.\<close>

lemma get_record_actions:
  "tiered_get_record cd ahash st h m =
     bind_res (get_load ahash st h) (\<lambda>x.
       case x of
         Some c \<Rightarrow> Inr (Some (record_of c), st, inc_cache_hits m)
       | None \<Rightarrow> (case cold_worker cd st of (w, st') \<Rightarrow> Inr (cold_session cd ahash st' w h, st', inc_cache_misses m)))"
  by (simp add: tiered_get_record_def get_load_def cold_worker_def cold_session_def Let_def split: prod.splits)

text \<open>
  The thread's cache has a worker of the store's route. Otherwise \<open>cold_worker\<close> registers a new one with the database, which
  takes the database's global lock (SPEC.md).
\<close>

definition knows_worker :: "('db, 'w) tiered_store \<Rightarrow> bool" where
  "knows_worker st \<longleftrightarrow> tls_key (ts_tls st) = ts_route st \<and> tls_worker (ts_tls st) \<noteq> None"

text \<open>The value of a record that was found.\<close>

definition found_value :: "('e::len) word signed_record option \<Rightarrow> bytes option res" where
  "found_value x = (case x of None \<Rightarrow> Inr None | Some r \<Rightarrow> bind_res (record_value r) (\<lambda>v. Inr (Some v)))"

section \<open>Threads\<close>

datatype answer = Got "bytes option" | Stored

text \<open>
  Where a thread stands in a call. The key of a \<open>put\<close> is kept until the broadcast; \<open>None\<close> is the
  application of a peer's record, which is neither counted nor broadcast here.
\<close>

datatype 'w exec_pc =
    Idle
  | Get_Start bytes
  | Get_Hit bytes "'w cached_record"
  | Get_Miss bytes
  | Get_Cold bytes
  | Get_Session bytes arc
  | Put_Start "bytes option" "'w signed_record"
  | Put_Indexed "bytes option" "'w signed_record"
  | Put_Sent bytes "'w signed_record"
  | Answer answer

datatype 'w call = Get_Call bytes | Put_Call bytes bytes | Apply_Call "'w signed_record"

datatype 'w action =
    Call nat "'w call"
  | Load nat
  | Count nat
  | Take_Worker nat
  | Session_Read nat
  | Index_Store nat "'w signed_record"
  | Queue_Send nat bool
  | Spawn_Broadcast nat
  | Return nat answer
  | Dispatch

record ('db, 'w) exec =
  ex_node :: "(('db, 'w) shared_store, 'w) node"
  ex_pc :: "nat \<Rightarrow> 'w exec_pc"

definition ex_view :: "nat \<Rightarrow> ('db, 'w) exec \<Rightarrow> ('db, 'w) tiered_store" where
  "ex_view t c = on_thread t (node_storage (ex_node c))"

definition put_view :: "nat \<Rightarrow> ('db, 'w) tiered_store \<Rightarrow> ('db, 'w) exec \<Rightarrow> ('db, 'w) exec" where
  "put_view t st c = c\<lparr>ex_node := (ex_node c)\<lparr>node_storage := off_thread t (node_storage (ex_node c)) st\<rparr>\<rparr>"

definition goto :: "nat \<Rightarrow> 'w exec_pc \<Rightarrow> ('db, 'w) exec \<Rightarrow> ('db, 'w) exec" where
  "goto t p c = c\<lparr>ex_pc := (ex_pc c)(t := p)\<rparr>"

definition count :: "(db_metrics \<Rightarrow> db_metrics) \<Rightarrow> ('db, 'w) exec \<Rightarrow> ('db, 'w) exec" where
  "count inc c = c\<lparr>ex_node := (ex_node c)\<lparr>node_metrics := inc (node_metrics (ex_node c))\<rparr>\<rparr>"

definition spawn_broadcast :: "bytes \<Rightarrow> 'w signed_record \<Rightarrow> ('db, 'w) exec \<Rightarrow> ('db, 'w) exec" where
  "spawn_broadcast key r c =
     (if starts_with key (as_bytes ''stress:'') then c
      else c\<lparr>ex_node := (ex_node c)\<lparr>node_broadcasts := node_broadcasts (ex_node c) @ [r]\<rparr>\<rparr>)"

definition dispatched :: "'db \<Rightarrow> ('db, 'w) exec \<Rightarrow> ('db, 'w) exec" where
  "dispatched db c =
     c\<lparr>ex_node := (ex_node c)\<lparr>node_storage := (node_storage (ex_node c))\<lparr>
       sh_store := (sh_store (node_storage (ex_node c)))\<lparr>ts_db := db\<rparr>\<rparr>\<rparr>\<rparr>"

inductive exec_step ::
  "('db, 'qs) cddb \<Rightarrow> (bytes \<Rightarrow> hash32) \<Rightarrow> (bytes \<Rightarrow> u64) \<Rightarrow> ('db \<Rightarrow> bool) \<Rightarrow> ('db \<Rightarrow> 'db \<Rightarrow> bool) \<Rightarrow>
   ('db, 'e::len word) exec \<Rightarrow> 'e word action \<Rightarrow> ('db, 'e word) exec \<Rightarrow> bool"
  for cd sha256 ahash reg_free dispatch where
  call_get: "ex_pc c t = Idle \<Longrightarrow>
    exec_step cd sha256 ahash reg_free dispatch c (Call t (Get_Call key)) (goto t (Get_Start key) (count inc_db_gets c))"
| load_hit: "ex_pc c t = Get_Start key \<Longrightarrow> get_load ahash (ex_view t c) (sha256 key) = Inr (Some r) \<Longrightarrow>
    exec_step cd sha256 ahash reg_free dispatch c (Load t) (goto t (Get_Hit key r) (put_view t (ex_view t c) c))"
| load_miss: "ex_pc c t = Get_Start key \<Longrightarrow> get_load ahash (ex_view t c) (sha256 key) = Inr None \<Longrightarrow>
    exec_step cd sha256 ahash reg_free dispatch c (Load t) (goto t (Get_Miss key) (put_view t (ex_view t c) c))"
| count_hit: "ex_pc c t = Get_Hit key r \<Longrightarrow> found_value (Some (record_of r)) = Inr v \<Longrightarrow>
    exec_step cd sha256 ahash reg_free dispatch c (Count t) (goto t (Answer (Got v)) (count inc_cache_hits c))"
| count_miss: "ex_pc c t = Get_Miss key \<Longrightarrow>
    exec_step cd sha256 ahash reg_free dispatch c (Count t) (goto t (Get_Cold key) (count inc_cache_misses c))"
| take_worker: "ex_pc c t = Get_Cold key \<Longrightarrow> cold_worker cd (ex_view t c) = (w, st) \<Longrightarrow>
    knows_worker (ex_view t c) \<or> reg_free (ts_db (ex_view t c)) \<Longrightarrow>
    exec_step cd sha256 ahash reg_free dispatch c (Take_Worker t) (goto t (Get_Session key w) (put_view t st c))"
| session_read: "ex_pc c t = Get_Session key w \<Longrightarrow>
    found_value (cold_session cd ahash (ex_view t c) w (sha256 key)) = Inr v \<Longrightarrow>
    exec_step cd sha256 ahash reg_free dispatch c (Session_Read t) (goto t (Answer (Got v)) c)"
| call_put: "ex_pc c t = Idle \<Longrightarrow>
    exec_step cd sha256 ahash reg_free dispatch c (Call t (Put_Call key val))
      (goto t (Put_Start (Some key) (kv_record sha256 key val)) (count inc_db_puts c))"
| call_apply: "ex_pc c t = Idle \<Longrightarrow>
    exec_step cd sha256 ahash reg_free dispatch c (Call t (Apply_Call r)) (goto t (Put_Start None r) c)"
| index_store: "ex_pc c t = Put_Start key r \<Longrightarrow> apply_index sha256 ahash (ex_view t c) r = Inr st \<Longrightarrow>
    exec_step cd sha256 ahash reg_free dispatch c (Index_Store t r) (goto t (Put_Indexed key r) (put_view t st c))"
| queue_send: "ex_pc c t = Put_Indexed key r \<Longrightarrow> apply_send cd sha256 ahash (ex_view t c) r = (sent, st) \<Longrightarrow>
    exec_step cd sha256 ahash reg_free dispatch c (Queue_Send t sent)
      (goto t (case key of Some k \<Rightarrow> Put_Sent k r | None \<Rightarrow> Answer Stored) (put_view t st c))"
| broadcast: "ex_pc c t = Put_Sent key r \<Longrightarrow>
    exec_step cd sha256 ahash reg_free dispatch c (Spawn_Broadcast t) (goto t (Answer Stored) (spawn_broadcast key r c))"
| return: "ex_pc c t = Answer a \<Longrightarrow>
    exec_step cd sha256 ahash reg_free dispatch c (Return t a) (goto t Idle c)"
| dispatch: "dispatch (ts_db (sh_store (node_storage (ex_node c)))) db \<Longrightarrow>
    exec_step cd sha256 ahash reg_free dispatch c Dispatch (dispatched db c)"

inductive exec_run ::
  "('db, 'qs) cddb \<Rightarrow> (bytes \<Rightarrow> hash32) \<Rightarrow> (bytes \<Rightarrow> u64) \<Rightarrow> ('db \<Rightarrow> bool) \<Rightarrow> ('db \<Rightarrow> 'db \<Rightarrow> bool) \<Rightarrow>
   ('db, 'e::len word) exec \<Rightarrow> 'e word action list \<Rightarrow> ('db, 'e word) exec \<Rightarrow> bool"
  for cd sha256 ahash reg_free dispatch where
  exec_nil: "exec_run cd sha256 ahash reg_free dispatch c [] c"
| exec_snoc: "exec_run cd sha256 ahash reg_free dispatch c es c1 \<Longrightarrow> exec_step cd sha256 ahash reg_free dispatch c1 e c2 \<Longrightarrow>
    exec_run cd sha256 ahash reg_free dispatch c (es @ [e]) c2"

text \<open>All threads idle on the node that \<open>main\<close> has built.\<close>

definition exec_start :: "('db, 'w) tiered_store \<Rightarrow> ('db, 'w) exec" where
  "exec_start st =
     \<lparr>ex_node = \<lparr>node_storage = share st, node_metrics = no_metrics, node_broadcasts = []\<rparr>, ex_pc = (\<lambda>t. Idle)\<rparr>"

section \<open>Frame lemmas\<close>

lemma on_off_thread [simp]: "on_thread t (off_thread t sh st) = st"
  by (simp add: on_thread_def off_thread_def)

lemma ex_pc_updates [simp]:
  "ex_pc (goto t p c) = (ex_pc c)(t := p)" "ex_pc (put_view t st c) = ex_pc c" "ex_pc (count inc c) = ex_pc c"
  "ex_pc (spawn_broadcast k r c) = ex_pc c" "ex_pc (dispatched db c) = ex_pc c"
  by (simp_all add: goto_def put_view_def count_def spawn_broadcast_def dispatched_def)

lemma ex_storage_updates [simp]:
  "node_storage (ex_node (goto t p c)) = node_storage (ex_node c)"
  "node_storage (ex_node (put_view t st c)) = off_thread t (node_storage (ex_node c)) st"
  "node_storage (ex_node (count inc c)) = node_storage (ex_node c)"
  "node_storage (ex_node (spawn_broadcast k r c)) = node_storage (ex_node c)"
  "node_storage (ex_node (dispatched db c)) =
     (node_storage (ex_node c))\<lparr>sh_store := (sh_store (node_storage (ex_node c)))\<lparr>ts_db := db\<rparr>\<rparr>"
  by (simp_all add: goto_def put_view_def count_def spawn_broadcast_def dispatched_def)

lemma ex_metrics_updates [simp]:
  "node_metrics (ex_node (goto t p c)) = node_metrics (ex_node c)"
  "node_metrics (ex_node (put_view t st c)) = node_metrics (ex_node c)"
  "node_metrics (ex_node (count inc c)) = inc (node_metrics (ex_node c))"
  "node_metrics (ex_node (spawn_broadcast k r c)) = node_metrics (ex_node c)"
  "node_metrics (ex_node (dispatched db c)) = node_metrics (ex_node c)"
  by (simp_all add: goto_def put_view_def count_def spawn_broadcast_def dispatched_def)

lemma ex_view_updates [simp]:
  "ex_view t (goto u p c) = ex_view t c" "ex_view t (count inc c) = ex_view t c" "ex_view t (put_view t st c) = st"
  by (simp_all add: ex_view_def)

lemma found_value_total: "\<exists>v. found_value x = Inr v"
proof (cases x)
  case (Some r)
  obtain v where "record_value r = Inr v" using record_value_total by blast
  with Some show ?thesis by (simp add: found_value_def)
qed (simp add: found_value_def)

section \<open>Runs\<close>

lemma exec_trans:
  assumes "exec_run cd sha256 ahash reg_free dispatch c es c1" and "exec_run cd sha256 ahash reg_free dispatch c1 es' c2"
  shows "exec_run cd sha256 ahash reg_free dispatch c (es @ es') c2"
  using assms(2,1) by induction (auto intro: exec_snoc simp flip: append_assoc)

lemma exec_single: "exec_step cd sha256 ahash reg_free dispatch c e c' \<Longrightarrow> exec_run cd sha256 ahash reg_free dispatch c [e] c'"
  using exec_snoc [OF exec_nil] by fastforce

lemma exec_cons:
  "exec_step cd sha256 ahash reg_free dispatch c e c1 \<Longrightarrow> exec_run cd sha256 ahash reg_free dispatch c1 es c2 \<Longrightarrow>
   exec_run cd sha256 ahash reg_free dispatch c (e # es) c2"
  using exec_trans [OF exec_single] by fastforce

lemma exec_split:
  assumes "exec_run cd sha256 ahash reg_free dispatch c (xs @ ys) c'"
  shows "\<exists>c1. exec_run cd sha256 ahash reg_free dispatch c xs c1 \<and> exec_run cd sha256 ahash reg_free dispatch c1 ys c'"
  using assms
proof (induction ys arbitrary: c' rule: rev_induct)
  case Nil
  then show ?case using exec_nil by fastforce
next
  case (snoc y ys)
  then obtain c2 where c2: "exec_run cd sha256 ahash reg_free dispatch c (xs @ ys) c2" "exec_step cd sha256 ahash reg_free dispatch c2 y c'"
    by (auto elim: exec_run.cases simp flip: append_assoc)
  from snoc.IH [OF c2(1)] exec_snoc [OF _ c2(2)] show ?case by blast
qed

text \<open>The thread that takes an action; the dispatcher is none of them.\<close>

fun actor :: "'w action \<Rightarrow> nat option" where
  "actor (Call t x) = Some t"
| "actor (Load t) = Some t"
| "actor (Count t) = Some t"
| "actor (Take_Worker t) = Some t"
| "actor (Session_Read t) = Some t"
| "actor (Index_Store t r) = Some t"
| "actor (Queue_Send t sent) = Some t"
| "actor (Spawn_Broadcast t) = Some t"
| "actor (Return t a) = Some t"
| "actor Dispatch = None"

lemma others_keep_pc:
  assumes "exec_step cd sha256 ahash reg_free dispatch c e c'" and "actor e \<noteq> Some t"
  shows "ex_pc c' t = ex_pc c t"
  using assms by cases auto

section \<open>Uninterrupted calls\<close>

lemma worker_get:
  "ss_get_record (worker_ops cd sha256 ahash background t) sh h m =
     bind_res (tiered_get_record cd ahash (on_thread t sh) h m) (\<lambda>(x, st, m'). Inr (x, off_thread t sh st, m'))"
  by (simp add: worker_ops_def tiered_ops_def)

lemma worker_apply:
  "ss_apply_signed_record (worker_ops cd sha256 ahash background t) sh r =
     bind_res (tiered_apply_signed_record cd sha256 ahash (on_thread t sh) r) (\<lambda>st. Inr (off_thread t sh st))"
  by (simp add: worker_ops_def tiered_ops_def)

lemma goto_idle: "ex_pc c t = Idle \<Longrightarrow> ex_pc c' = (ex_pc c)(t := p) \<Longrightarrow> goto t Idle c' = c\<lparr>ex_node := ex_node c'\<rparr>"
  by (cases c; cases c') (auto simp: goto_def fun_upd_idem)

lemma uninterrupted_hit:
  assumes idle: "ex_pc c t = Idle" and load: "get_load ahash (ex_view t c) (sha256 k) = Inr (Some r)"
    and val: "found_value (Some (record_of r)) = Inr v"
  shows "exec_run cd sha256 ahash reg_free dispatch c [Call t (Get_Call k), Load t, Count t, Return t (Got v)]
    (c\<lparr>ex_node := (ex_node c)\<lparr>node_storage := off_thread t (node_storage (ex_node c)) (ex_view t c),
       node_metrics := inc_cache_hits (inc_db_gets (node_metrics (ex_node c)))\<rparr>\<rparr>)"
proof -
  define c1 where "c1 = goto t (Get_Start k) (count inc_db_gets c)"
  define c2 where "c2 = goto t (Get_Hit k r) (put_view t (ex_view t c1) c1)"
  define c3 where "c3 = goto t (Answer (Got v)) (count inc_cache_hits c2)"
  have "exec_step cd sha256 ahash reg_free dispatch c (Call t (Get_Call k)) c1"
    unfolding c1_def by (rule call_get [OF idle])
  moreover have "exec_step cd sha256 ahash reg_free dispatch c1 (Load t) c2"
    unfolding c2_def by (rule load_hit [where key = k]) (simp_all add: c1_def load)
  moreover have "exec_step cd sha256 ahash reg_free dispatch c2 (Count t) c3"
    unfolding c3_def by (rule count_hit [where key = k and r = r]) (simp_all add: c2_def val)
  moreover have "exec_step cd sha256 ahash reg_free dispatch c3 (Return t (Got v)) (goto t Idle c3)"
    by (rule return) (simp add: c3_def)
  moreover have "goto t Idle c3 = c\<lparr>ex_node := ex_node c3\<rparr>"
    by (rule goto_idle [OF idle]) (simp add: c3_def c2_def c1_def)
  moreover have "ex_node c3 = (ex_node c)\<lparr>node_storage := off_thread t (node_storage (ex_node c)) (ex_view t c),
       node_metrics := inc_cache_hits (inc_db_gets (node_metrics (ex_node c)))\<rparr>"
    by (simp add: c3_def c2_def c1_def goto_def put_view_def count_def ex_view_def)
  ultimately show ?thesis by (auto intro!: exec_cons exec_nil)
qed

lemma uninterrupted_cold:
  assumes idle: "ex_pc c t = Idle" and load: "get_load ahash (ex_view t c) (sha256 k) = Inr None"
    and worker: "cold_worker cd (ex_view t c) = (w, st)" and free: "\<And>db. reg_free db"
    and val: "found_value (cold_session cd ahash st w (sha256 k)) = Inr v"
  shows "exec_run cd sha256 ahash reg_free dispatch c
    [Call t (Get_Call k), Load t, Count t, Take_Worker t, Session_Read t, Return t (Got v)]
    (c\<lparr>ex_node := (ex_node c)\<lparr>node_storage := off_thread t (node_storage (ex_node c)) st,
       node_metrics := inc_cache_misses (inc_db_gets (node_metrics (ex_node c)))\<rparr>\<rparr>)"
proof -
  define c1 where "c1 = goto t (Get_Start k) (count inc_db_gets c)"
  define c2 where "c2 = goto t (Get_Miss k) (put_view t (ex_view t c1) c1)"
  define c3 where "c3 = goto t (Get_Cold k) (count inc_cache_misses c2)"
  define c4 where "c4 = goto t (Get_Session k w) (put_view t st c3)"
  define c5 where "c5 = goto t (Answer (Got v)) c4"
  have "exec_step cd sha256 ahash reg_free dispatch c (Call t (Get_Call k)) c1"
    unfolding c1_def by (rule call_get [OF idle])
  moreover have "exec_step cd sha256 ahash reg_free dispatch c1 (Load t) c2"
    unfolding c2_def by (rule load_miss) (simp_all add: c1_def load)
  moreover have "exec_step cd sha256 ahash reg_free dispatch c2 (Count t) c3"
    unfolding c3_def by (rule count_miss) (simp add: c2_def)
  moreover have "exec_step cd sha256 ahash reg_free dispatch c3 (Take_Worker t) c4"
    unfolding c4_def by (rule take_worker) (simp_all add: c3_def c2_def c1_def worker free)
  moreover have "exec_step cd sha256 ahash reg_free dispatch c4 (Session_Read t) c5"
    unfolding c5_def by (rule session_read [where key = k and w = w]) (simp_all add: c4_def val)
  moreover have "exec_step cd sha256 ahash reg_free dispatch c5 (Return t (Got v)) (goto t Idle c5)"
    by (rule return) (simp add: c5_def)
  moreover have "goto t Idle c5 = c\<lparr>ex_node := ex_node c5\<rparr>"
    by (rule goto_idle [OF idle]) (simp add: c5_def c4_def c3_def c2_def c1_def)
  moreover have "ex_node c5 = (ex_node c)\<lparr>node_storage := off_thread t (node_storage (ex_node c)) st,
       node_metrics := inc_cache_misses (inc_db_gets (node_metrics (ex_node c)))\<rparr>"
    by (simp add: c5_def c4_def c3_def c2_def c1_def goto_def put_view_def count_def ex_view_def off_thread_def)
  ultimately show ?thesis by (auto intro!: exec_cons exec_nil)
qed

lemma uninterrupted_get:
  assumes idle: "ex_pc c t = Idle" and free: "\<And>db. reg_free db"
    and get: "l2_get sha256 (worker_ops cd sha256 ahash background t) (ex_node c) k = Inr (v, n)"
  shows "\<exists>es. exec_run cd sha256 ahash reg_free dispatch c (Call t (Get_Call k) # es @ [Return t (Got v)]) (c\<lparr>ex_node := n\<rparr>) \<and>
    (\<forall>e \<in> set es. actor e = Some t \<and> (\<forall>x. e \<noteq> Call t x))"
proof -
  let ?h = "sha256 k"
  obtain x where load: "get_load ahash (ex_view t c) ?h = Inr x"
    using get by (cases "get_load ahash (ex_view t c) ?h")
      (simp_all add: l2_get_def worker_get get_record_actions Let_def ex_view_def)
  show ?thesis
  proof (cases x)
    case (Some r)
    have "found_value (Some (record_of r)) = Inr v" and "n = (ex_node c)\<lparr>node_storage :=
        off_thread t (node_storage (ex_node c)) (ex_view t c),
        node_metrics := inc_cache_hits (inc_db_gets (node_metrics (ex_node c)))\<rparr>"
      using get load Some
      by (auto simp: l2_get_def worker_get get_record_actions Let_def ex_view_def found_value_def res_simps)
    with uninterrupted_hit [OF idle, of ahash sha256 k r v cd reg_free dispatch] load Some show ?thesis
      by (intro exI [of _ "[Load t, Count t]"]) simp
  next
    case None
    obtain w st where worker: "cold_worker cd (ex_view t c) = (w, st)" by (cases "cold_worker cd (ex_view t c)")
    have "found_value (cold_session cd ahash st w ?h) = Inr v" and "n = (ex_node c)\<lparr>node_storage :=
        off_thread t (node_storage (ex_node c)) st,
        node_metrics := inc_cache_misses (inc_db_gets (node_metrics (ex_node c)))\<rparr>"
      using get load None worker
      by (auto simp: l2_get_def worker_get get_record_actions Let_def ex_view_def found_value_def res_simps
          split: option.splits)
    with uninterrupted_cold [where reg_free = reg_free and dispatch = dispatch, OF idle _ worker free] load None show ?thesis
      by (intro exI [of _ "[Load t, Count t, Take_Worker t, Session_Read t]"]) simp
  qed
qed

lemma uninterrupted_put:
  assumes idle: "ex_pc c t = Idle"
    and put: "l2_put sha256 (worker_ops cd sha256 ahash background t) (ex_node c) k val = Inr n"
  shows "\<exists>es. exec_run cd sha256 ahash reg_free dispatch c (Call t (Put_Call k val) # es @ [Return t Stored]) (c\<lparr>ex_node := n\<rparr>) \<and>
    (\<forall>e \<in> set es. actor e = Some t \<and> (\<forall>x. e \<noteq> Call t x))"
proof -
  let ?r = "kv_record sha256 k val"
  obtain st where index: "apply_index sha256 ahash (ex_view t c) ?r = Inr st"
    using put by (cases "apply_index sha256 ahash (ex_view t c) ?r")
      (simp_all add: l2_put_def worker_apply apply_halves Let_def ex_view_def)
  obtain sent st2 where send: "apply_send cd sha256 ahash st ?r = (sent, st2)"
    by (cases "apply_send cd sha256 ahash st ?r")
  define c1 where "c1 = goto t (Put_Start (Some k) ?r) (count inc_db_puts c)"
  define c2 where "c2 = goto t (Put_Indexed (Some k) ?r) (put_view t st c1)"
  define c3 where "c3 = goto t (Put_Sent k ?r) (put_view t st2 c2)"
  define c4 where "c4 = goto t (Answer Stored) (spawn_broadcast k ?r c3)"
  have "exec_step cd sha256 ahash reg_free dispatch c (Call t (Put_Call k val)) c1"
    unfolding c1_def by (rule call_put [OF idle])
  moreover have "exec_step cd sha256 ahash reg_free dispatch c1 (Index_Store t ?r) c2"
    unfolding c2_def by (rule index_store) (simp_all add: c1_def index)
  moreover have "exec_step cd sha256 ahash reg_free dispatch c2 (Queue_Send t sent) c3"
    using queue_send [of c2 t "Some k" ?r cd sha256 ahash sent st2 reg_free dispatch] send by (simp add: c3_def c2_def)
  moreover have "exec_step cd sha256 ahash reg_free dispatch c3 (Spawn_Broadcast t) c4"
    unfolding c4_def by (rule broadcast) (simp add: c3_def)
  moreover have "exec_step cd sha256 ahash reg_free dispatch c4 (Return t Stored) (goto t Idle c4)"
    by (rule return) (simp add: c4_def)
  moreover have "goto t Idle c4 = c\<lparr>ex_node := ex_node c4\<rparr>"
    by (rule goto_idle [OF idle]) (simp add: c4_def c3_def c2_def c1_def)
  moreover have "ex_node c4 = n"
    using put index send
    by (auto simp: l2_put_def worker_apply apply_halves Let_def ex_view_def c4_def c3_def c2_def c1_def
        goto_def put_view_def count_def spawn_broadcast_def off_thread_def on_thread_def)
  ultimately have "exec_run cd sha256 ahash reg_free dispatch c
      (Call t (Put_Call k val) # [Index_Store t ?r, Queue_Send t sent, Spawn_Broadcast t] @ [Return t Stored]) (c\<lparr>ex_node := n\<rparr>)"
    by (auto intro!: exec_cons exec_nil)
  then show ?thesis by (intro exI [of _ "[Index_Store t ?r, Queue_Send t sent, Spawn_Broadcast t]"]) simp
qed

section \<open>No action panics\<close>

lemma ex_view_wf: "shared_wf (node_storage (ex_node c)) \<Longrightarrow> tiered_wf (ex_view t c)"
  by (simp add: ex_view_def on_thread_wf)

lemma ex_view_peek [simp]: "tiered_peek (ex_view t c) = shared_peek (node_storage (ex_node c))"
  by (simp add: ex_view_def)

lemma get_load_eq:
  assumes "tiered_wf st"
  shows "\<exists>x. get_load ahash st h = Inr x \<and> tiered_peek st (key_slot ahash h) = map_option record_of x"
  using assms by (auto simp: get_load_def tiered_wf_def tiered_peek_def hot_get_store peek_index_slot)

lemma cold_worker_frame:
  assumes "cold_worker cd st = (w, st')"
  shows "tiered_wf st \<Longrightarrow> tiered_wf st'" and "tiered_peek st' = tiered_peek st" and "ts_route st' = ts_route st"
  using assms by (auto simp: cold_worker_def tiered_wf_def tiered_peek_def intro: get_worker_wf split: prod.splits)

lemma dispatched_store [simp]:
  "shared_wf (sh\<lparr>sh_store := (sh_store sh)\<lparr>ts_db := db\<rparr>\<rparr>) = shared_wf sh"
  "shared_peek (sh\<lparr>sh_store := (sh_store sh)\<lparr>ts_db := db\<rparr>\<rparr>) = shared_peek sh"
  by (simp_all add: shared_wf_def shared_peek_def tiered_peek_def)

lemma exec_step_wf:
  assumes "exec_step cd sha256 ahash reg_free dispatch c e c'" and "shared_wf (node_storage (ex_node c))"
  shows "shared_wf (node_storage (ex_node c'))"
  using assms(1)
proof cases
  case (take_worker t key w st)
  with cold_worker_frame(1) [OF take_worker(4) ex_view_wf [OF assms(2)]] assms(2) show ?thesis
    by (auto intro: off_thread_wf)
next
  case (index_store t key r st)
  with apply_index_eq [OF ex_view_wf [OF assms(2)], of sha256 ahash t r] assms(2) show ?thesis
    by (auto intro: off_thread_wf)
next
  case (queue_send t key r sent st)
  with apply_send_frame(1) [OF queue_send(4)] ex_view_wf [OF assms(2)] assms(2) show ?thesis
    by (auto intro!: off_thread_wf)
qed (use assms(2) off_thread_wf [OF assms(2) ex_view_wf [OF assms(2)]] in simp_all)

lemma exec_run_wf:
  assumes "exec_run cd sha256 ahash reg_free dispatch c es c'" and "shared_wf (node_storage (ex_node c))"
  shows "shared_wf (node_storage (ex_node c'))"
  using assms by induction (auto intro: exec_step_wf)

lemma exec_start_wf: "tiered_wf st \<Longrightarrow> shared_wf (node_storage (ex_node (exec_start st)))"
  by (simp add: exec_start_def share_wf)

section \<open>Progress\<close>

text \<open>No action panics, so a thread can go on with its call, unless it is about to register while the lock is taken.\<close>

lemma own_step:
  assumes "shared_wf (node_storage (ex_node c))"
    and "\<And>key. ex_pc c t = Get_Cold key \<Longrightarrow> knows_worker (ex_view t c) \<or> reg_free (ts_db (ex_view t c))"
  shows "\<exists>e c'. actor e = Some t \<and> exec_step cd sha256 ahash reg_free dispatch c e c'"
proof (cases "ex_pc c t")
  case Idle
  then show ?thesis using call_apply [OF Idle] actor.simps(1) by blast
next
  case (Get_Start key)
  obtain x where "get_load ahash (ex_view t c) (sha256 key) = Inr x"
    using get_load_eq [OF ex_view_wf [OF assms(1)]] by blast
  then show ?thesis using load_hit [OF Get_Start] load_miss [OF Get_Start] actor.simps(2) by (cases x) blast+
next
  case (Get_Hit key r)
  then show ?thesis using found_value_total count_hit [OF Get_Hit] actor.simps(3) by metis
next
  case (Get_Miss key)
  then show ?thesis using count_miss [OF Get_Miss] actor.simps(3) by blast
next
  case (Get_Cold key)
  then show ?thesis using take_worker [where reg_free = reg_free, OF Get_Cold surjective_pairing assms(2) [OF Get_Cold]] actor.simps(4) by blast
next
  case (Get_Session key w)
  then show ?thesis using found_value_total session_read [OF Get_Session] actor.simps(5) by metis
next
  case (Put_Start key r)
  then show ?thesis
    using apply_index_eq [OF ex_view_wf [OF assms(1)]] index_store [OF Put_Start] actor.simps(6) by metis
next
  case (Put_Indexed key r)
  then show ?thesis using queue_send [OF Put_Indexed surjective_pairing] actor.simps(7) by blast
next
  case (Put_Sent key r)
  then show ?thesis using broadcast [OF Put_Sent] actor.simps(8) by blast
next
  case (Answer a)
  then show ?thesis using return [OF Answer] actor.simps(9) by blast
qed

definition own_actions :: "nat \<Rightarrow> 'w action list \<Rightarrow> 'w action list" where
  "own_actions t es = filter (\<lambda>e. actor e = Some t) es"

section \<open>Registration\<close>

lemma keeps_registration_refl [simp]: "keeps_registration st st"
  by (simp add: keeps_registration_def)

lemma actions_keep_registration:
  "cold_worker cd st = (w, st') \<Longrightarrow> keeps_registration st st'"
  "apply_index sha256 ahash st r = Inr st' \<Longrightarrow> keeps_registration st st'"
  "apply_send cd sha256 ahash st r = (sent, st') \<Longrightarrow> keeps_registration st st'"
  by (auto simp: keeps_registration_def cold_worker_def apply_index_def apply_send_def get_worker_hit res_simps Let_def
      split: prod.splits)

lemma put_view_registered:
  "registered t a (node_storage (ex_node c)) \<Longrightarrow> keeps_registration (ex_view u c) st \<Longrightarrow>
   registered t a (node_storage (ex_node (put_view u st c)))"
  by (simp add: ex_view_def off_thread_registered)

lemma exec_step_registered:
  assumes "exec_step cd sha256 ahash reg_free dispatch c e c'" and "registered t a (node_storage (ex_node c))"
  shows "registered t a (node_storage (ex_node c'))"
  using assms(1)
proof cases
  case (take_worker u key w st)
  then show ?thesis using put_view_registered [OF assms(2) actions_keep_registration(1) [OF take_worker(4)]] by simp
next
  case (index_store u key r st)
  then show ?thesis using put_view_registered [OF assms(2) actions_keep_registration(2) [OF index_store(4)]] by simp
next
  case (queue_send u key r sent st)
  then show ?thesis using put_view_registered [OF assms(2) actions_keep_registration(3) [OF queue_send(4)]] by simp
next
  case (load_hit u key r)
  then show ?thesis using put_view_registered [OF assms(2) keeps_registration_refl, of u] by simp
next
  case (load_miss u key)
  then show ?thesis using put_view_registered [OF assms(2) keeps_registration_refl, of u] by simp
qed (use assms(2) in \<open>simp_all add: registered_def\<close>)

lemma take_worker_registered:
  assumes "exec_step cd sha256 ahash reg_free dispatch c (Take_Worker t) c'" and "ex_pc c' t = Get_Session key a"
  shows "registered t a (node_storage (ex_node c'))"
  using assms(1)
proof cases
  case (take_worker key w st)
  obtain w' tls db where g: "get_worker cd (ts_route (ex_view t c)) (ts_tls (ex_view t c)) (ts_db (ex_view t c)) = (w', tls, db)"
    by (cases "get_worker cd (ts_route (ex_view t c)) (ts_tls (ex_view t c)) (ts_db (ex_view t c))")
  with take_worker get_worker_cached [OF g] assms(2) show ?thesis
    by (auto simp: cold_worker_def registered_def off_thread_def)
qed

lemma run_registered:
  assumes "exec_run cd sha256 ahash reg_free dispatch c es c'" and "registered t a (node_storage (ex_node c))"
  shows "registered t a (node_storage (ex_node c'))"
  using assms by induction (auto intro: exec_step_registered)

lemma ex_view_put_view: "ex_view u (put_view t (ex_view t c) c) = ex_view u c"
  by (simp add: ex_view_def on_thread_def off_thread_def)

lemma registered_worker:
  "registered t a (node_storage (ex_node c)) \<Longrightarrow> cold_worker cd (ex_view t c) = (a, ex_view t c) \<and> knows_worker (ex_view t c)"
  by (auto simp: registered_def ex_view_def on_thread_def cold_worker_def knows_worker_def get_worker_hit)

text \<open>
  C10: A thread registers with the database at most once. Let a thread take a worker for a cold read. However parallel
  threads and the dispatcher go on from there, when the thread reaches a cold read again there is exactly one way to
  go on: it gets the same worker from its cache, whether or not the registration lock is free, and neither the
  database, nor the index, nor any thread's cache changes.
\<close>

theorem threads_register_at_most_once:
  assumes first: "exec_step cd sha256 ahash reg_free dispatch c0 (Take_Worker t) c1"
    and worker: "ex_pc c1 t = Get_Session key1 w"
    and later: "exec_run cd sha256 ahash reg_free dispatch c1 es c2"
    and again: "ex_pc c2 t = Get_Cold key2"
  shows "\<exists>c3. (\<forall>c'. exec_step cd sha256 ahash reg_free dispatch c2 (Take_Worker t) c' \<longleftrightarrow> c' = c3) \<and>
    ex_pc c3 t = Get_Session key2 w \<and> (\<forall>u. ex_view u c3 = ex_view u c2)"
proof -
  have "registered t w (node_storage (ex_node c2))"
    using run_registered [OF later take_worker_registered [OF first worker]] .
  note cached = registered_worker [OF this, of cd]
  have "exec_step cd sha256 ahash reg_free dispatch c2 (Take_Worker t) c' \<longleftrightarrow>
      c' = goto t (Get_Session key2 w) (put_view t (ex_view t c2) c2)" for c'
    using again cached by (auto elim: exec_step.cases intro: take_worker)
  then show ?thesis by (intro exI [of _ "goto t (Get_Session key2 w) (put_view t (ex_view t c2) c2)"])
    (simp add: ex_view_put_view)
qed

text \<open>Thread 0 in the middle of a read, thread 1 about to write.\<close>

definition sample_exec :: "(mem_db, 64 word) exec" where
  "sample_exec = goto 1 (Put_Start (Some [7]) (kv_record sample_sha [7] [9])) (count inc_db_puts
     (goto 0 (Get_Start [7]) (count inc_db_gets (exec_start (sample_tiered mem_empty)))))"

lemma sample_exec_run:
  "exec_run (mem_cddb 4) sample_sha sample_ahash (\<lambda>_. True) dispatch (exec_start (sample_tiered mem_empty))
     [Call 0 (Get_Call [7]), Call 1 (Put_Call [7] [9])] sample_exec"
  unfolding sample_exec_def
  by (intro exec_cons [OF call_get exec_single [OF call_put]]) (simp_all add: exec_start_def)

lemma run_to_cold:
  assumes "ex_pc c t = Idle" and "get_load ahash (ex_view t c) (sha256 k) = Inr None"
  shows "\<exists>c'. exec_run cd sha256 ahash reg_free dispatch c [Call t (Get_Call k), Load t, Count t] c' \<and>
    ex_pc c' t = Get_Cold k \<and> ex_view t c' = ex_view t c"
proof -
  define c1 where "c1 = goto t (Get_Start k) (count inc_db_gets c)"
  define c2 where "c2 = goto t (Get_Miss k) (put_view t (ex_view t c1) c1)"
  have "exec_step cd sha256 ahash reg_free dispatch c (Call t (Get_Call k)) c1"
    unfolding c1_def by (rule call_get [OF assms(1)])
  moreover have "exec_step cd sha256 ahash reg_free dispatch c1 (Load t) c2"
    unfolding c2_def by (rule load_miss) (simp_all add: c1_def assms(2))
  moreover have "exec_step cd sha256 ahash reg_free dispatch c2 (Count t) (goto t (Get_Cold k) (count inc_cache_misses c2))"
    by (rule count_miss) (simp add: c2_def)
  ultimately have "exec_run cd sha256 ahash reg_free dispatch c [Call t (Get_Call k), Load t, Count t]
      (goto t (Get_Cold k) (count inc_cache_misses c2))" by (auto intro!: exec_cons exec_nil)
  then show ?thesis
    by (intro exI [of _ "goto t (Get_Cold k) (count inc_cache_misses c2)"]) (simp add: c2_def c1_def)
qed

theorem threads_register_at_most_once_witness:
  "\<exists>es c w c'. exec_run (mem_cddb 4) sample_sha sample_ahash (\<lambda>db. mem_workers db = 0) (\<lambda>db db'. db' = mem_drain db)
      (exec_start (sample_tiered mem_empty)) (es @ [Take_Worker 0] @ [Session_Read 0, Return 0 (Got None)] @ es) c \<and>
    exec_step (mem_cddb 4) sample_sha sample_ahash (\<lambda>db. mem_workers db = 0) (\<lambda>db db'. db' = mem_drain db) c (Take_Worker 0) c' \<and>
    ex_pc c' 0 = Get_Session [7] w \<and> ex_view 0 c' = ex_view 0 c"
proof -
  let ?step = "exec_step (mem_cddb 4) sample_sha sample_ahash (\<lambda>db. mem_workers db = 0) (\<lambda>db db'. db' = mem_drain db)"
  let ?run = "exec_run (mem_cddb 4) sample_sha sample_ahash (\<lambda>db. mem_workers db = 0) (\<lambda>db db'. db' = mem_drain db)"
  let ?es = "[Call 0 (Get_Call [7]), Load 0, Count 0]" and ?st = "sample_tiered mem_empty :: (mem_db, 64 word) tiered_store"
  let ?start = "exec_start ?st"
  have load: "get_load sample_ahash st (sample_sha [7]) = Inr None" if "ts_hot_index st = ts_hot_index ?st"
    for st :: "(mem_db, 64 word) tiered_store"
    using that get_load_eq [OF sample_tiered_wf [of mem_empty], of sample_ahash "sample_sha [7]"]
    by (auto simp: get_load_def tiered_peek_def peek_index_def sample_tiered_def)
  have start: "ex_view 0 ?start = ?st\<lparr>ts_tls := tls_init\<rparr>" by (simp add: ex_view_def on_thread_def exec_start_def share_def)
  then have view: "ts_hot_index (ex_view 0 ?start) = ts_hot_index ?st" by simp
  have "ex_pc ?start 0 = Idle" by (simp add: exec_start_def)
  from run_to_cold [OF this, of sample_ahash sample_sha "[7]", OF load [OF view]]
  obtain c0 where c0: "?run ?start ?es c0" "ex_pc c0 0 = Get_Cold [7]" "ex_view 0 c0 = ex_view 0 ?start" by blast
  note c0_view = c0(3) [unfolded start]
  obtain w st where st: "cold_worker (mem_cddb 4) (ex_view 0 c0) = (w, st)" by (cases "cold_worker (mem_cddb 4) (ex_view 0 c0)")
  define c1 where "c1 = goto 0 (Get_Session [7] w) (put_view 0 st c0)"
  have first: "?step c0 (Take_Worker 0) c1" unfolding c1_def 
    by (rule take_worker [OF c0(2) st]) (simp add: c0_view, simp add: sample_tiered_def mem_empty_def)
  have pc1: "ex_pc c1 0 = Get_Session [7] w" and view1: "ex_view 0 c1 = st" by (simp_all add: c1_def)
  have empty: "found_value (cold_session (mem_cddb 4) sample_ahash (ex_view 0 c1) w (sample_sha [7])) = Inr None"
    using st by (auto simp: view1 c0_view cold_worker_def get_worker_def sample_tiered_def mem_empty_def tls_init_def cold_session_def cold_read_def mem_cddb_def found_value_def)
  define c2 where "c2 = goto 0 Idle (goto 0 (Answer (Got None)) c1)"
  have mid: "?run c1 [Session_Read 0, Return 0 (Got None)] c2" unfolding c2_def
    by (intro exec_cons [OF session_read [where ?sha256.0 = sample_sha, OF pc1 empty] exec_single [OF return]]) simp
  have idle: "ex_pc c2 0 = Idle" by (simp add: c2_def)
  have view2: "ts_hot_index (ex_view 0 c2) = ts_hot_index ?st"
    using st c0_view by (auto simp: c2_def view1 cold_worker_def split: prod.splits)
  from run_to_cold [OF idle, of sample_ahash sample_sha "[7]", OF load [OF view2]]
  obtain c3 where c3: "?run c2 ?es c3" "ex_pc c3 0 = Get_Cold [7]" by blast
  from threads_register_at_most_once [OF first pc1 exec_trans [OF mid c3(1)] c3(2)]
  obtain c' where "?step c3 (Take_Worker 0) c'" "ex_pc c' 0 = Get_Session [7] w" "ex_view 0 c' = ex_view 0 c3" by blast
  moreover have "?run ?start (?es @ [Take_Worker 0] @ [Session_Read 0, Return 0 (Got None)] @ ?es) c3"
    by (intro exec_trans [OF c0(1)] exec_trans [OF exec_single [OF first]] exec_trans [OF mid c3(1)])
  ultimately show ?thesis by blast
qed

section \<open>The counters\<close>

fun is_get_call :: "'w action \<Rightarrow> bool" where
  "is_get_call (Call t (Get_Call key)) = True"
| "is_get_call e = False"

fun is_put_call :: "'w action \<Rightarrow> bool" where
  "is_put_call (Call t (Put_Call key val)) = True"
| "is_put_call e = False"

text \<open>Reads that are counted in \<open>db_gets\<close> and not yet as a hit or a miss.\<close>

fun uncounted_pc :: "'w exec_pc \<Rightarrow> bool" where
  "uncounted_pc (Get_Start key) = True"
| "uncounted_pc (Get_Hit key r) = True"
| "uncounted_pc (Get_Miss key) = True"
| "uncounted_pc p = False"

definition uncounted :: "('db, 'w) exec \<Rightarrow> nat set" where
  "uncounted c = {t. uncounted_pc (ex_pc c t)}"

lemma uncounted_goto [simp]:
  "uncounted (goto t p c) = (if uncounted_pc p then insert t (uncounted c) else uncounted c - {t})"
  by (auto simp: uncounted_def)

lemma uncounted_updates [simp]:
  "uncounted (put_view t st c) = uncounted c" "uncounted (count inc c) = uncounted c"
  "uncounted (spawn_broadcast k r c) = uncounted c" "uncounted (dispatched db c) = uncounted c"
  by (simp_all add: uncounted_def)

lemma uncounted_pc_I: "uncounted_pc (ex_pc c t) \<Longrightarrow> t \<in> uncounted c"
  and uncounted_pc_N: "\<not> uncounted_pc (ex_pc c t) \<Longrightarrow> uncounted c - {t} = uncounted c \<and> t \<notin> uncounted c"
  by (auto simp: uncounted_def)

lemma uncounted_pos:
  "uncounted_pc (ex_pc c t) \<Longrightarrow> finite (uncounted c) \<Longrightarrow> card (uncounted c) = Suc (card (uncounted c - {t}))"
  by (rule card.remove) (auto simp: uncounted_def)

definition counters_ok :: "'w action list \<Rightarrow> ('db, 'w) exec \<Rightarrow> bool" where
  "counters_ok es c \<longleftrightarrow>
     (let m = node_metrics (ex_node c)
      in finite (uncounted c) \<and> db_gets m = length (filter is_get_call es) \<and>
         db_puts m = length (filter is_put_call es) \<and>
         db_gets m = cache_hits m + cache_misses m + card (uncounted c))"

lemma counters_step:
  assumes "exec_step cd sha256 ahash reg_free dispatch c e c'" and "counters_ok es c"
  shows "counters_ok (es @ [e]) c'"
  using assms(1)
proof cases
  case (call_get t key)
  then show ?thesis using assms(2) uncounted_pc_N [of c t] by (simp add: counters_ok_def Let_def metric_incs)
next
  case (count_hit t key r v)
  then show ?thesis using assms(2) uncounted_pos [of c t] by (auto simp: counters_ok_def Let_def metric_incs)
next
  case (count_miss t key)
  then show ?thesis using assms(2) uncounted_pos [of c t] by (auto simp: counters_ok_def Let_def metric_incs)
qed (use assms(2) uncounted_pc_I [of c] uncounted_pc_N [of c] in
      \<open>auto simp: counters_ok_def Let_def metric_incs insert_absorb split: option.splits\<close>)

lemma counters_run:
  assumes "exec_run cd sha256 ahash reg_free dispatch c es c'" and "counters_ok [] c"
  shows "counters_ok es c'"
  using assms by induction (auto intro: counters_step)

text \<open>
  C32: The counters add up in every interleaving. Whatever parallel threads have done since the start,
  \<open>db_gets\<close> is the number of \<open>get\<close> calls, \<open>db_puts\<close> the number of \<open>put\<close> calls, and \<open>db_gets\<close> exceeds the sum of \<open>cache_hits\<close> and
  \<open>cache_misses\<close> exactly by the number of reads between their first and second counter; once every thread is idle, every
  read has been counted as either a hit or a miss.
\<close>

theorem counters_add_up_in_every_interleaving:
  assumes "exec_run cd sha256 ahash reg_free dispatch (exec_start st) es c"
  shows "db_gets (node_metrics (ex_node c)) = length (filter is_get_call es) \<and>
    db_puts (node_metrics (ex_node c)) = length (filter is_put_call es) \<and>
    finite (uncounted c) \<and>
    db_gets (node_metrics (ex_node c)) =
      cache_hits (node_metrics (ex_node c)) + cache_misses (node_metrics (ex_node c)) + card (uncounted c) \<and>
    ((\<forall>t. ex_pc c t = Idle) \<longrightarrow> db_gets (node_metrics (ex_node c)) =
      cache_hits (node_metrics (ex_node c)) + cache_misses (node_metrics (ex_node c)))"
proof -
  have "counters_ok [] (exec_start st)"
    by (simp add: counters_ok_def exec_start_def uncounted_def no_metrics_def)
  from counters_run [OF assms this] show ?thesis by (auto simp: counters_ok_def Let_def uncounted_def)
qed

theorem counters_add_up_in_every_interleaving_witness:
  "db_gets (node_metrics (ex_node sample_exec)) = 1 \<and> db_puts (node_metrics (ex_node sample_exec)) = 1 \<and>
   cache_hits (node_metrics (ex_node sample_exec)) = 0 \<and> card (uncounted sample_exec) = 1"
proof -
  have "uncounted sample_exec = {0}" by (simp add: sample_exec_def) (auto simp: uncounted_def exec_start_def)
  with counters_add_up_in_every_interleaving [OF sample_exec_run] show ?thesis by simp
qed

section \<open>The executor's functions as uninterrupted calls\<close>

lemma uninterrupted_apply:
  assumes idle: "ex_pc c t = Idle"
    and applied: "ss_apply_signed_record (worker_ops cd sha256 ahash background t) (node_storage (ex_node c)) r = Inr sh"
  shows "\<exists>es. exec_run cd sha256 ahash reg_free dispatch c (Call t (Apply_Call r) # es @ [Return t Stored])
      (c\<lparr>ex_node := (ex_node c)\<lparr>node_storage := sh\<rparr>\<rparr>) \<and> (\<forall>e \<in> set es. actor e = Some t \<and> (\<forall>x. e \<noteq> Call t x))"
proof -
  obtain st where index: "apply_index sha256 ahash (ex_view t c) r = Inr st"
    using applied by (cases "apply_index sha256 ahash (ex_view t c) r")
      (simp_all add: worker_apply apply_halves ex_view_def)
  obtain sent st2 where send: "apply_send cd sha256 ahash st r = (sent, st2)"
    by (cases "apply_send cd sha256 ahash st r")
  define c1 where "c1 = goto t (Put_Start None r) c"
  define c2 where "c2 = goto t (Put_Indexed None r) (put_view t st c1)"
  define c3 where "c3 = goto t (Answer Stored) (put_view t st2 c2)"
  have "exec_step cd sha256 ahash reg_free dispatch c (Call t (Apply_Call r)) c1"
    unfolding c1_def by (rule call_apply [OF idle])
  moreover have "exec_step cd sha256 ahash reg_free dispatch c1 (Index_Store t r) c2"
    unfolding c2_def by (rule index_store) (simp_all add: c1_def index)
  moreover have "exec_step cd sha256 ahash reg_free dispatch c2 (Queue_Send t sent) c3"
    using queue_send [of c2 t None r cd sha256 ahash sent st2 reg_free dispatch] send by (simp add: c3_def c2_def)
  moreover have "exec_step cd sha256 ahash reg_free dispatch c3 (Return t Stored) (goto t Idle c3)"
    by (rule return) (simp add: c3_def)
  moreover have "goto t Idle c3 = c\<lparr>ex_node := ex_node c3\<rparr>"
    by (rule goto_idle [OF idle]) (simp add: c3_def c2_def c1_def)
  moreover have "ex_node c3 = (ex_node c)\<lparr>node_storage := sh\<rparr>"
    using applied index send
    by (auto simp: worker_apply apply_halves ex_view_def c3_def c2_def c1_def goto_def put_view_def off_thread_def)
  ultimately have "exec_run cd sha256 ahash reg_free dispatch c
      (Call t (Apply_Call r) # [Index_Store t r, Queue_Send t sent] @ [Return t Stored])
      (c\<lparr>ex_node := (ex_node c)\<lparr>node_storage := sh\<rparr>\<rparr>)"
    by (auto intro!: exec_cons exec_nil)
  then show ?thesis by (intro exI [of _ "[Index_Store t r, Queue_Send t sent]"]) simp
qed

text \<open>A thread that runs alone has no choice until it returns.\<close>

lemma own_step_unique:
  assumes "exec_step cd sha256 ahash reg_free dispatch c e1 c1" and "exec_step cd sha256 ahash reg_free dispatch c e2 c2"
    and "actor e1 = Some t" and "actor e2 = Some t" and "ex_pc c t \<noteq> Idle"
  shows "e1 = e2 \<and> c1 = c2"
  using assms(1) by cases ((use assms(2) in \<open>cases; use assms(3-5) in auto\<close>)+)

lemma exec_step_call_unique:
  assumes "exec_step cd sha256 ahash reg_free dispatch c (Call t x) c1" and "exec_step cd sha256 ahash reg_free dispatch c (Call t x) c2"
  shows "c1 = c2"
  using assms(1) by cases ((use assms(2) in \<open>cases; auto\<close>)+)

lemma exec_run_nil: "exec_run cd sha256 ahash reg_free dispatch c [] c' \<Longrightarrow> c' = c"
  by (cases rule: exec_run.cases) auto

lemma exec_consE:
  assumes "exec_run cd sha256 ahash reg_free dispatch c (e # es) c'"
  obtains c1 where "exec_step cd sha256 ahash reg_free dispatch c e c1" "exec_run cd sha256 ahash reg_free dispatch c1 es c'"
proof -
  obtain c1 where c1: "exec_run cd sha256 ahash reg_free dispatch c [e] c1" "exec_run cd sha256 ahash reg_free dispatch c1 es c'"
    using exec_split [of cd sha256 ahash reg_free dispatch c "[e]" es c'] assms by auto
  from c1(1) have "exec_step cd sha256 ahash reg_free dispatch c e c1"
    by cases (auto dest: exec_run_nil)
  then show thesis using c1(2) by (rule that)
qed

lemma own_step_busy:
  assumes "exec_step cd sha256 ahash reg_free dispatch c e c'" and "actor e = Some t" and "\<forall>x. e \<noteq> Call t x"
  shows "ex_pc c t \<noteq> Idle"
  using assms by cases auto

lemma own_run_unique:
  assumes "exec_run cd sha256 ahash reg_free dispatch c es1 c1" and "exec_run cd sha256 ahash reg_free dispatch c es2 c2"
    and "\<forall>e \<in> set es1. actor e = Some t \<and> (\<forall>x. e \<noteq> Call t x)" and "\<forall>e \<in> set es2. actor e = Some t \<and> (\<forall>x. e \<noteq> Call t x)"
    and "ex_pc c1 t = Idle" and "ex_pc c2 t = Idle"
  shows "es1 = es2 \<and> c1 = c2"
  using assms
proof (induction es1 arbitrary: c es2)
  case Nil
  have c: "c1 = c" using exec_run_nil [OF Nil.prems(1)] .
  show ?case
  proof (cases es2)
    case Nil2: Nil
    then have "c2 = c" using exec_run_nil Nil.prems(2) by metis
    with c Nil2 show ?thesis by simp
  next
    case (Cons e es)
    with Nil.prems c obtain c' where "exec_step cd sha256 ahash reg_free dispatch c e c'" by (auto elim: exec_consE)
    with own_step_busy [OF this, of t] Nil.prems c Cons show ?thesis by simp
  qed
next
  case (Cons e es)
  obtain c' where step: "exec_step cd sha256 ahash reg_free dispatch c e c'" and run: "exec_run cd sha256 ahash reg_free dispatch c' es c1"
    using Cons.prems(1) by (rule exec_consE)
  have busy: "ex_pc c t \<noteq> Idle" using own_step_busy [OF step, of t] Cons.prems(3) by fastforce
  then obtain e2 es' where es2: "es2 = e2 # es'" using Cons.prems(2,6) by (cases es2) (auto dest: exec_run_nil)
  obtain c'' where step2: "exec_step cd sha256 ahash reg_free dispatch c e2 c''" and run2: "exec_run cd sha256 ahash reg_free dispatch c'' es' c2"
    using Cons.prems(2) unfolding es2 by (rule exec_consE)
  have "e = e2" "c' = c''" using own_step_unique [OF step step2 _ _ busy] Cons.prems(3,4) by (auto simp: es2)
  with Cons.IH [OF run] run2 Cons.prems(3-6) show ?case by (simp add: es2)
qed

lemma call_run_unique:
  assumes "exec_run cd sha256 ahash reg_free dispatch c (Call t x # es1) c1" and "exec_run cd sha256 ahash reg_free dispatch c (Call t x # es2) c2"
    and "\<forall>e \<in> set es1. actor e = Some t \<and> (\<forall>x. e \<noteq> Call t x)" and "\<forall>e \<in> set es2. actor e = Some t \<and> (\<forall>x. e \<noteq> Call t x)"
    and "ex_pc c1 t = Idle" and "ex_pc c2 t = Idle"
  shows "es1 = es2 \<and> c1 = c2"
proof -
  obtain d1 where 1: "exec_step cd sha256 ahash reg_free dispatch c (Call t x) d1" "exec_run cd sha256 ahash reg_free dispatch d1 es1 c1"
    using assms(1) by (rule exec_consE)
  obtain d2 where 2: "exec_step cd sha256 ahash reg_free dispatch c (Call t x) d2" "exec_run cd sha256 ahash reg_free dispatch d2 es2 c2"
    using assms(2) by (rule exec_consE)
  show ?thesis
    using own_run_unique [OF 1(2) _ assms(3-6)] 2(2) exec_step_call_unique [OF 1(1) 2(1)] by simp
qed

lemmas worker_get_ok = cached_store.l2_get_ok [OF worker_ops_cached]

lemmas worker_put_ok = cached_store.l2_put_ok [OF worker_ops_cached]

lemmas worker_apply_ok = total_store.apply_total [OF cached_store.axioms(1) [OF worker_ops_cached]]

text \<open>
  The actions are the executor. When a thread makes a call and no other thread runs until the call
  has returned, the outcome is that of the functions that the rest of the development uses: the same answer
  and the same node as \<open>l2_get\<close> and \<open>l2_put\<close> on the thread's view of the store, and the same store as
  \<open>apply_signed_record\<close> for a peer's record.
\<close>

lemma uninterrupted_calls_are_the_executor:
  fixes c :: "('db, 'e::len word) exec"
  assumes "shared_wf (node_storage (ex_node c))" and "ex_pc c t = Idle" and "\<And>db. reg_free db"
    and "exec_run cd sha256 ahash reg_free dispatch c (Call t x # es) c'"
    and "\<forall>e \<in> set es. actor e = Some t \<and> (\<forall>y. e \<noteq> Call t y)" and "ex_pc c' t = Idle"
  shows "case x of
      Get_Call k \<Rightarrow> \<exists>v n. l2_get sha256 (worker_ops cd sha256 ahash background t) (ex_node c) k = Inr (v, n) \<and>
        last es = Return t (Got v) \<and> c' = c\<lparr>ex_node := n\<rparr>
    | Put_Call k val \<Rightarrow> \<exists>n. l2_put sha256 (worker_ops cd sha256 ahash background t) (ex_node c) k val = Inr n \<and>
        last es = Return t Stored \<and> c' = c\<lparr>ex_node := n\<rparr>
    | Apply_Call r \<Rightarrow> \<exists>sh. ss_apply_signed_record (worker_ops cd sha256 ahash background t) (node_storage (ex_node c)) r = Inr sh \<and>
        last es = Return t Stored \<and> c' = c\<lparr>ex_node := (ex_node c)\<lparr>node_storage := sh\<rparr>\<rparr>"
proof (cases x)
  case (Get_Call k)
  obtain v n where get: "l2_get sha256 (worker_ops cd sha256 ahash background t) (ex_node c) k = Inr (v, n)"
    using worker_get_ok [OF assms(1), of sha256 cd ahash background t k] by (elim exE conjE)
  from uninterrupted_get [where reg_free = reg_free and dispatch = dispatch, OF assms(2,3) get] obtain es2 where
    "exec_run cd sha256 ahash reg_free dispatch c (Call t x # es2 @ [Return t (Got v)]) (c\<lparr>ex_node := n\<rparr>)"
    and "\<forall>e \<in> set es2. actor e = Some t \<and> (\<forall>y. e \<noteq> Call t y)" unfolding Get_Call by blast
  with call_run_unique [OF assms(4) this(1) assms(5) _ assms(6)] get assms(2) show ?thesis by (simp add: Get_Call)
next
  case (Put_Call k val)
  obtain n where put: "l2_put sha256 (worker_ops cd sha256 ahash background t) (ex_node c) k val = Inr n"
    using worker_put_ok [OF assms(1)] by blast
  from uninterrupted_put [OF assms(2) put, of reg_free dispatch] obtain es2 where
    "exec_run cd sha256 ahash reg_free dispatch c (Call t x # es2 @ [Return t Stored]) (c\<lparr>ex_node := n\<rparr>)"
    and "\<forall>e \<in> set es2. actor e = Some t \<and> (\<forall>y. e \<noteq> Call t y)" unfolding Put_Call by blast
  with call_run_unique [OF assms(4) this(1) assms(5) _ assms(6)] put assms(2) show ?thesis by (simp add: Put_Call)
next
  case (Apply_Call r)
  obtain sh where applied: "ss_apply_signed_record (worker_ops cd sha256 ahash background t) (node_storage (ex_node c)) r = Inr sh"
    using worker_apply_ok [OF assms(1)] by blast
  from uninterrupted_apply [OF assms(2) applied, of reg_free dispatch] obtain es2 where
    "exec_run cd sha256 ahash reg_free dispatch c (Call t x # es2 @ [Return t Stored]) (c\<lparr>ex_node := (ex_node c)\<lparr>node_storage := sh\<rparr>\<rparr>)"
    and "\<forall>e \<in> set es2. actor e = Some t \<and> (\<forall>y. e \<noteq> Call t y)" unfolding Apply_Call by blast
  with call_run_unique [OF assms(4) this(1) assms(5) _ assms(6)] applied assms(2) show ?thesis by (simp add: Apply_Call)
qed

end
