(* ===== verification/Linearizability.thy ===== *)
theory Linearizability
  imports Executor_Steps
begin

text \<open>
  The reads and writes of parallel threads (\<open>Executor_Steps\<close>) against a sequential specification. Abstractly the
  tiered store is an array of registers, one per slot of the hot index, over the rows that the database held at the start: a
  write sets the register of its record's slot, a read of a key returns the register's value, or that of the
  recovered row of the key's entity while the register is empty. Shown: every call takes effect at one point between its
  call and its return, a \<open>put\<close> when the pointer in the index is exchanged, and a \<open>get\<close> answers what the
  specification holds at its point, although it looks at the index and at the database at different times. What is assumed
  is that a query session reads committed rows (\<open>cddb_laws\<close>) and that the dispatcher commits the accepted writes in order.
\<close>

section \<open>The sequential specification\<close>

fun apply_store :: "(bytes \<Rightarrow> hash32) \<Rightarrow> (bytes \<Rightarrow> u64) \<Rightarrow> ('e::len) word action \<Rightarrow>
    (nat \<rightharpoonup> 'e word signed_record) \<Rightarrow> (nat \<rightharpoonup> 'e word signed_record)" where
  "apply_store sha256 ahash (Index_Store t r) regs = regs(slot_of sha256 ahash r \<mapsto> r)"
| "apply_store sha256 ahash e regs = regs"

definition registers :: "(bytes \<Rightarrow> hash32) \<Rightarrow> (bytes \<Rightarrow> u64) \<Rightarrow> ('e::len) word action list \<Rightarrow> nat \<rightharpoonup> 'e word signed_record" where
  "registers sha256 ahash es = fold (apply_store sha256 ahash) es Map.empty"

definition spec_record :: "(bytes \<Rightarrow> hash32) \<Rightarrow> (bytes \<Rightarrow> u64) \<Rightarrow> (usize \<rightharpoonup> row) \<Rightarrow> (nat \<rightharpoonup> ('e::len) word signed_record) \<Rightarrow>
    bytes \<Rightarrow> 'e word signed_record option" where
  "spec_record sha256 ahash recovered regs k =
     (case regs (key_slot ahash (sha256 k)) of
        Some r \<Rightarrow> Some r
      | None \<Rightarrow> map_option row_record (recovered (entity_id ahash (sha256 k))))"

definition spec_get :: "(bytes \<Rightarrow> hash32) \<Rightarrow> (bytes \<Rightarrow> u64) \<Rightarrow> (usize \<rightharpoonup> row) \<Rightarrow> ('e::len) word action list \<Rightarrow> bytes \<Rightarrow> bytes option res" where
  "spec_get sha256 ahash recovered es k = found_value (spec_record sha256 ahash recovered (registers sha256 ahash es) k)"

text \<open>The records stored in a history, and those that one thread has stored.\<close>

fun stored :: "'w action list \<Rightarrow> 'w signed_record list" where
  "stored [] = []"
| "stored (Index_Store t r # es) = r # stored es"
| "stored (e # es) = stored es"

definition stores_of :: "nat \<Rightarrow> 'w action list \<Rightarrow> 'w signed_record list" where
  "stores_of t es = stored (own_actions t es)"

lemma stored_append [simp]: "stored (xs @ ys) = stored xs @ stored ys"
  by (induction xs rule: stored.induct) simp_all

lemma stores_of_append [simp]: "stores_of t (xs @ ys) = stores_of t xs @ stores_of t ys"
  by (simp add: stores_of_def own_actions_def)

lemma stores_of_other [simp]: "actor e \<noteq> Some t \<Longrightarrow> stores_of t [e] = []"
  by (simp add: stores_of_def own_actions_def)

lemma stores_of_single [simp]: "stores_of t [Index_Store t r] = [r]" "stored [e] = [] \<Longrightarrow> stores_of t [e] = []"
  by (simp_all add: stores_of_def own_actions_def)

lemma stored_in: "r \<in> set (stored es) \<Longrightarrow> \<exists>t xs ys. es = xs @ Index_Store t r # ys"
proof (induction es rule: stored.induct)
  case (2 t r' es)
  then show ?case by (metis append_Cons append_Nil set_ConsD stored.simps(2))
qed (simp, metis append_Cons stored.simps)+

lemma registers_snoc: "registers sha256 ahash (es @ [e]) = apply_store sha256 ahash e (registers sha256 ahash es)"
  by (simp add: registers_def)

lemma registers_store [simp]:
  "registers sha256 ahash (es @ [Index_Store t r]) = (registers sha256 ahash es)(slot_of sha256 ahash r \<mapsto> r)"
  by (simp add: registers_snoc)

lemma registers_none:
  "registers sha256 ahash es s = None \<Longrightarrow> r \<in> set (stored es) \<Longrightarrow> slot_of sha256 ahash r \<noteq> s"
proof (induction es rule: rev_induct)
  case (snoc e es)
  then show ?case by (cases e) (auto simp: registers_snoc split: if_splits)
qed simp

text \<open>What a row of the database says about a key is what the record it was made from says.\<close>

lemma found_value_row: "found_value (Some (row_record (row_of r) :: ('e::len) word signed_record)) = found_value (Some r)"
  by (simp add: found_value_def record_value_def row_record_def row_of_def)

section \<open>What an action does to the index and the database\<close>

definition ex_db :: "('db, 'w) exec \<Rightarrow> 'db" where
  "ex_db c = ts_db (sh_store (node_storage (ex_node c)))"

lemma ex_view_db [simp]: "ts_db (ex_view t c) = ex_db c"
  by (simp add: ex_view_def on_thread_def ex_db_def)

lemma ex_db_updates [simp]:
  "ex_db (goto t p c) = ex_db c" "ex_db (put_view t st c) = ts_db st" "ex_db (count inc c) = ex_db c"
  "ex_db (spawn_broadcast k r c) = ex_db c" "ex_db (dispatched db c) = db"
  by (simp_all add: ex_db_def off_thread_def)

abbreviation ex_index :: "('db, 'e::len word) exec \<Rightarrow> nat \<rightharpoonup> 'e word signed_record" where
  "ex_index c \<equiv> shared_peek (node_storage (ex_node c))"

lemma step_index:
  assumes "exec_step cd sha256 ahash reg_free dispatch c e c'" and "shared_wf (node_storage (ex_node c))"
  shows "ex_index c' = apply_store sha256 ahash e (ex_index c)"
  using assms(1)
proof cases
  case (take_worker t key w st)
  then show ?thesis using cold_worker_frame(2) [OF take_worker(4)] by simp
next
  case (index_store t key r st)
  then show ?thesis using apply_index_eq [OF ex_view_wf [OF assms(2)], of sha256 ahash t r] by auto
next
  case (queue_send t key r sent st)
  then show ?thesis using apply_send_frame(2) [OF queue_send(4)] by simp
qed simp_all

lemma cold_worker_rows:
  assumes "cddb_laws cd rows pending drain" and "cold_worker cd st = (w, st')"
  shows "rows (ts_db st') = rows (ts_db st)" and "pending (ts_db st') = pending (ts_db st)"
  using assms(2) get_worker_rows [OF assms(1)] by (auto simp: cold_worker_def split: prod.splits)

lemma cold_session_rows:
  assumes "cddb_laws cd rows pending drain"
  shows "cold_session cd ahash st w h = map_option row_record (rows (ts_db st) (entity_id ahash h))"
  by (simp add: cold_session_def cold_read_rows [OF assms])

text \<open>The dispatcher commits accepted writes in order, any number of them at a time.\<close>

definition dispatcher_commits ::
  "('db \<Rightarrow> usize \<rightharpoonup> row) \<Rightarrow> ('db \<Rightarrow> write_command list) \<Rightarrow> ('db \<Rightarrow> 'db \<Rightarrow> bool) \<Rightarrow> bool" where
  "dispatcher_commits rows pending dispatch \<longleftrightarrow>
     (\<forall>db db'. dispatch db db' \<longrightarrow>
        (\<exists>n. rows db' = fold commit (take n (pending db)) (rows db) \<and> pending db' = drop n (pending db)))"

text \<open>Working off the whole queue is one way to do so.\<close>

lemma drain_dispatches: "cddb_laws cd rows pending drain \<Longrightarrow> dispatcher_commits rows pending (\<lambda>db db'. db' = drain db)"
  by (auto simp: dispatcher_commits_def cddb_laws_def drain_commits_def intro!: exI [of _ "length (pending _)"])

section \<open>Where rows come from\<close>

text \<open>
  Every record in the queue or about to be sent was stored in the index before, and every row of the
  database is a recovered one or that of a record stored before.
\<close>

definition rows_stored ::
  "(bytes \<Rightarrow> hash32) \<Rightarrow> (bytes \<Rightarrow> u64) \<Rightarrow> ('db \<Rightarrow> usize \<rightharpoonup> row) \<Rightarrow> ('db \<Rightarrow> write_command list) \<Rightarrow> (usize \<rightharpoonup> row) \<Rightarrow>
   ('e::len) word action list \<Rightarrow> ('db, 'e word) exec \<Rightarrow> bool" where
  "rows_stored sha256 ahash rows pending recovered es c \<longleftrightarrow>
     (\<forall>t key r. ex_pc c t = Put_Indexed key r \<longrightarrow> r \<in> set (stored es)) \<and>
     set (pending (ex_db c)) \<subseteq> insert_command sha256 ahash ` set (stored es) \<and>
     (\<forall>i. rows (ex_db c) i = recovered i \<or>
        (\<exists>r \<in> set (stored es). entity_of sha256 ahash r = i \<and> rows (ex_db c) i = Some (row_of r)))"

lemma rows_stored_mono:
  assumes "rows_stored sha256 ahash rows pending recovered es c"
    and "rows (ex_db c') = rows (ex_db c)" and "pending (ex_db c') = pending (ex_db c)"
    and "\<And>t key r. ex_pc c' t = Put_Indexed key r \<Longrightarrow> ex_pc c t = Put_Indexed key r \<or> r \<in> set (stored (es @ [e]))"
  shows "rows_stored sha256 ahash rows pending recovered (es @ [e]) c'"
proof -
  have "r \<in> set (stored (es @ [e]))" if "ex_pc c' t = Put_Indexed key r" for t key r
    using assms(4) [OF that] assms(1) by (auto simp: rows_stored_def)
  with assms(1-3) show ?thesis unfolding rows_stored_def by auto
qed

lemma rows_stored_send:
  assumes laws: "cddb_laws cd rows pending drain"
    and inv: "rows_stored sha256 ahash rows pending recovered es c"
    and pc: "ex_pc c t = Put_Indexed key r" and send: "apply_send cd sha256 ahash (ex_view t c) r = (sent, st)"
    and p: "\<And>key r. p \<noteq> Put_Indexed key r"
  shows "rows_stored sha256 ahash rows pending recovered (es @ [Queue_Send t sent]) (goto t p (put_view t st c))"
proof -
  note db = try_send_rows [OF laws apply_send_frame(3) [OF send], unfolded ex_view_db]
  have "r \<in> set (stored es)" using inv pc by (auto simp: rows_stored_def)
  with inv p show ?thesis unfolding rows_stored_def by (auto simp: db)
qed

lemma rows_stored_dispatch:
  assumes disp: "dispatcher_commits rows pending dispatch"
    and inv: "rows_stored sha256 ahash rows pending recovered es c" and db: "dispatch (ex_db c) db"
  shows "rows_stored sha256 ahash rows pending recovered (es @ [Dispatch]) (dispatched db c)"
proof -
  obtain n where n: "rows db = fold commit (take n (pending (ex_db c))) (rows (ex_db c))"
    "pending db = drop n (pending (ex_db c))"
    using disp db unfolding dispatcher_commits_def by blast
  have queued: "set (take n (pending (ex_db c))) \<subseteq> insert_command sha256 ahash ` set (stored es)"
    "set (drop n (pending (ex_db c))) \<subseteq> insert_command sha256 ahash ` set (stored es)"
    using inv set_take_subset set_drop_subset unfolding rows_stored_def by fastforce+
  have "rows db i = recovered i \<or>
      (\<exists>r \<in> set (stored es). entity_of sha256 ahash r = i \<and> rows db i = Some (row_of r))" for i
    using fold_commit_cases [of "take n (pending (ex_db c))" "rows (ex_db c)" i] inv queued(1)
    unfolding n rows_stored_def by (fastforce simp: row_of_def)
  with inv queued(2) show ?thesis unfolding rows_stored_def by (simp add: n(2))
qed

lemma rows_stored_step:
  assumes laws: "cddb_laws cd rows pending drain" "dispatcher_commits rows pending dispatch"
    and step: "exec_step cd sha256 ahash reg_free dispatch c e c'"
    and inv: "rows_stored sha256 ahash rows pending recovered es c"
  shows "rows_stored sha256 ahash rows pending recovered (es @ [e]) c'"
  using step
proof cases
  case (take_worker t key w st)
  then show ?thesis using cold_worker_rows [OF laws(1) take_worker(4)]
    by (intro rows_stored_mono [OF inv]) (auto split: if_splits)
next
  case (index_store t key r st)
  then show ?thesis
    by (intro rows_stored_mono [OF inv]) (auto simp: apply_index_def res_simps split: if_splits)
next
  case (queue_send t key r sent st)
  then show ?thesis
    unfolding queue_send(1,2) by (intro rows_stored_send [OF laws(1) inv queue_send(3,4)]) (auto split: option.splits)
next
  case (dispatch db)
  then show ?thesis using rows_stored_dispatch [OF laws(2) inv] by (simp add: ex_db_def)
qed (use inv in \<open>auto intro!: rows_stored_mono [OF inv] split: if_splits\<close>)

section \<open>The point where a call takes effect\<close>

fun put_of :: "(bytes \<Rightarrow> hash32) \<Rightarrow> ('e::len) word call \<Rightarrow> (bytes option \<times> 'e word signed_record) option" where
  "put_of sha256 (Get_Call key) = None"
| "put_of sha256 (Put_Call key val) = Some (Some key, kv_record sha256 key val)"
| "put_of sha256 (Apply_Call r) = Some (None, r)"

text \<open>A point \<open>past\<close> since the call at which \<open>P\<close> holds of the history up to there.\<close>

definition at_some_point :: "'w action list \<Rightarrow> 'w action list \<Rightarrow> ('w action list \<Rightarrow> bool) \<Rightarrow> bool" where
  "at_some_point before since P \<longleftrightarrow> (\<exists>m1 m2. since = m1 @ m2 \<and> P (before @ m1))"

lemma at_some_point_mono: "at_some_point before since P \<Longrightarrow> at_some_point before (since @ es) P"
  unfolding at_some_point_def by (metis append_assoc)

lemma at_some_point_now: "P (before @ since) \<Longrightarrow> at_some_point before since P"
  by (auto simp: at_some_point_def)

definition call_ok ::
  "(bytes \<Rightarrow> hash32) \<Rightarrow> (bytes \<Rightarrow> u64) \<Rightarrow> (usize \<rightharpoonup> row) \<Rightarrow> nat \<Rightarrow> ('e::len) word call \<Rightarrow> 'e word action list \<Rightarrow> 'e word action list \<Rightarrow>
   'e word exec_pc \<Rightarrow> bool" where
  "call_ok sha256 ahash recovered t x before since p =
     (let at = at_some_point before since;
          regs = registers sha256 ahash;
          slot = (\<lambda>k. key_slot ahash (sha256 k))
      in case p of
           Idle \<Rightarrow> True
         | Get_Start k \<Rightarrow> x = Get_Call k \<and> stores_of t since = []
         | Get_Hit k r \<Rightarrow> x = Get_Call k \<and> stores_of t since = [] \<and> at (\<lambda>h. regs h (slot k) = Some (record_of r))
         | Get_Miss k \<Rightarrow> x = Get_Call k \<and> stores_of t since = [] \<and> at (\<lambda>h. regs h (slot k) = None)
         | Get_Cold k \<Rightarrow> x = Get_Call k \<and> stores_of t since = [] \<and> at (\<lambda>h. regs h (slot k) = None)
         | Get_Session k w \<Rightarrow> x = Get_Call k \<and> stores_of t since = [] \<and> at (\<lambda>h. regs h (slot k) = None)
         | Put_Start key r \<Rightarrow> put_of sha256 x = Some (key, r) \<and> stores_of t since = []
         | Put_Indexed key r \<Rightarrow> put_of sha256 x = Some (key, r) \<and> stores_of t since = [r]
         | Put_Sent key r \<Rightarrow> put_of sha256 x = Some (Some key, r) \<and> stores_of t since = [r]
         | Answer (Got v) \<Rightarrow> (\<exists>k. x = Get_Call k \<and> stores_of t since = [] \<and>
             at (\<lambda>h. spec_get sha256 ahash recovered h k = Inr v))
         | Answer Stored \<Rightarrow> (\<exists>key r. put_of sha256 x = Some (key, r) \<and> stores_of t since = [r]))"

lemma call_ok_others:
  assumes "call_ok sha256 ahash recovered t x before since p" and "actor e \<noteq> Some t"
  shows "call_ok sha256 ahash recovered t x before (since @ [e]) p"
  using assms by (auto simp: call_ok_def Let_def split: exec_pc.splits answer.splits intro: at_some_point_mono)

text \<open>
  The cold path. At some point since the call the register was empty; what the session finds later is
  the recovered row, which is what the specification held at that point, or the row of a record that
  was stored after it, which the register held right then.
\<close>

lemma cold_read_point:
  fixes before since :: "('e::len) word action list"
  assumes empty: "at_some_point before since (\<lambda>h. registers sha256 ahash h (key_slot ahash (sha256 k)) = None)"
    and inv: "rows_stored sha256 ahash rows pending recovered (before @ since) c"
  shows "at_some_point before since (\<lambda>h. spec_get sha256 ahash recovered h k =
    found_value (map_option row_record (rows (ex_db c) (entity_id ahash (sha256 k))) :: 'e word signed_record option))"
proof -
  let ?i = "entity_id ahash (sha256 k)" and ?s = "key_slot ahash (sha256 k)"
  obtain m1 m2 where m: "since = m1 @ m2" and none: "registers sha256 ahash (before @ m1) ?s = None"
    using empty by (auto simp: at_some_point_def)
  have "rows (ex_db c) ?i = recovered ?i \<or> (\<exists>r \<in> set (stored (before @ since)).
      entity_of sha256 ahash r = ?i \<and> rows (ex_db c) ?i = Some (row_of r))"
    using inv by (simp add: rows_stored_def)
  then show ?thesis
  proof (elim disjE bexE conjE)
    assume "rows (ex_db c) ?i = recovered ?i"
    with none have "spec_get sha256 ahash recovered (before @ m1) k =
        found_value (map_option row_record (rows (ex_db c) ?i) :: 'e word signed_record option)"
      by (simp add: spec_get_def spec_record_def)
    with m show ?thesis by (auto simp: at_some_point_def)
  next
    fix r :: "'e word signed_record"
    assume r: "r \<in> set (stored (before @ since))" "entity_of sha256 ahash r = ?i" "rows (ex_db c) ?i = Some (row_of r)"
    have slot: "slot_of sha256 ahash r = ?s" using r(2) by (simp add: slot_of_def key_slot_def entity_of_def)
    with registers_none [OF none, of r] r(1) m have "r \<in> set (stored m2)" by auto
    then obtain t xs ys where m2: "m2 = xs @ Index_Store t r # ys" using stored_in by blast
    let ?p = "m1 @ xs @ [Index_Store t r]"
    have "registers sha256 ahash (before @ ?p) ?s = Some r"
      using registers_store [of sha256 ahash "before @ m1 @ xs" t r] slot by simp
    then have "spec_get sha256 ahash recovered (before @ ?p) k = found_value (Some r)"
      by (simp add: spec_get_def spec_record_def)
    moreover have "since = ?p @ ys" by (simp add: m m2)
    ultimately show ?thesis
      unfolding at_some_point_def r(3) by (intro exI [of _ ?p] exI [of _ ys]) (simp add: found_value_row)
  qed
qed

lemma call_ok_own:
  assumes laws: "cddb_laws cd rows pending drain" and step: "exec_step cd sha256 ahash reg_free dispatch c e c'"
    and own: "actor e = Some t" "\<forall>y. e \<noteq> Call t y" and wf: "shared_wf (node_storage (ex_node c))"
    and index: "ex_index c = registers sha256 ahash (before @ since)"
    and inv: "rows_stored sha256 ahash rows pending recovered (before @ since) c"
    and ok: "call_ok sha256 ahash recovered t x before since (ex_pc c t)"
  shows "call_ok sha256 ahash recovered t x before (since @ [e]) (ex_pc c' t)"
  using step
proof cases
  case (load_hit u key r)
  then have "registers sha256 ahash (before @ since) (key_slot ahash (sha256 key)) = Some (record_of r)"
    using get_load_eq [OF ex_view_wf [OF wf], of ahash u "sha256 key"] index by auto
  then have "at_some_point before since (\<lambda>h. registers sha256 ahash h (key_slot ahash (sha256 key)) = Some (record_of r))"
    by (rule at_some_point_now)
  then show ?thesis using load_hit ok own by (auto simp: call_ok_def Let_def intro!: at_some_point_mono)
next
  case (load_miss u key)
  then have "registers sha256 ahash (before @ since) (key_slot ahash (sha256 key)) = None"
    using get_load_eq [OF ex_view_wf [OF wf], of ahash u "sha256 key"] index by auto
  then have "at_some_point before since (\<lambda>h. registers sha256 ahash h (key_slot ahash (sha256 key)) = None)"
    by (rule at_some_point_now)
  then show ?thesis using load_miss ok own by (auto simp: call_ok_def Let_def intro!: at_some_point_mono)
next
  case (count_hit u key r v)
  then have "at_some_point before since (\<lambda>h. registers sha256 ahash h (key_slot ahash (sha256 key)) = Some (record_of r))"
    using ok own by (simp add: call_ok_def)
  then have "at_some_point before since (\<lambda>h. spec_get sha256 ahash recovered h key = Inr v)"
    using count_hit(4) by (auto simp: at_some_point_def spec_get_def spec_record_def)
  then show ?thesis using count_hit ok own by (auto simp: call_ok_def Let_def intro!: at_some_point_mono)
next
  case (session_read u key w v)
  then have "at_some_point before since (\<lambda>h. registers sha256 ahash h (key_slot ahash (sha256 key)) = None)"
    using ok own by (simp add: call_ok_def)
  from cold_read_point [OF this inv] session_read(4)
  have "at_some_point before since (\<lambda>h. spec_get sha256 ahash recovered h key = Inr v)"
    by (simp add: cold_session_rows [OF laws])
  then show ?thesis using session_read ok own by (auto simp: call_ok_def Let_def intro!: at_some_point_mono)
qed (use ok own in \<open>auto simp: call_ok_def Let_def intro!: at_some_point_mono split: option.splits\<close>)

section \<open>All calls of a run\<close>

definition calls_ok ::
  "(bytes \<Rightarrow> hash32) \<Rightarrow> (bytes \<Rightarrow> u64) \<Rightarrow> (usize \<rightharpoonup> row) \<Rightarrow> ('e::len) word action list \<Rightarrow> ('db, 'e word) exec \<Rightarrow> bool" where
  "calls_ok sha256 ahash recovered es c \<longleftrightarrow>
     (\<forall>t x pre mid. es = pre @ Call t x # mid \<and> (\<forall>y. Call t y \<notin> set mid) \<longrightarrow>
        call_ok sha256 ahash recovered t x (pre @ [Call t x]) mid (ex_pc c t))"

lemma call_ok_called:
  assumes "exec_step cd sha256 ahash reg_free dispatch c (Call t x) c'"
  shows "call_ok sha256 ahash recovered t x before [] (ex_pc c' t)"
  using assms by cases (simp_all add: call_ok_def stores_of_def own_actions_def)

lemma calls_ok_step:
  assumes laws: "cddb_laws cd rows pending drain" and step: "exec_step cd sha256 ahash reg_free dispatch c e c'"
    and wf: "shared_wf (node_storage (ex_node c))" and index: "ex_index c = registers sha256 ahash es"
    and inv: "rows_stored sha256 ahash rows pending recovered es c" and ok: "calls_ok sha256 ahash recovered es c"
  shows "calls_ok sha256 ahash recovered (es @ [e]) c'"
  unfolding calls_ok_def
proof (intro allI impI, elim conjE)
  fix t x pre mid
  assume hist: "es @ [e] = pre @ Call t x # mid" and quiet: "\<forall>y. Call t y \<notin> set mid"
  show "call_ok sha256 ahash recovered t x (pre @ [Call t x]) mid (ex_pc c' t)"
  proof (cases mid rule: rev_cases)
    case Nil
    then show ?thesis using hist call_ok_called step by auto
  next
    case (snoc m e')
    then have es: "es = (pre @ [Call t x]) @ m" "e' = e" using hist by auto
    have before: "call_ok sha256 ahash recovered t x (pre @ [Call t x]) m (ex_pc c t)"
      using ok quiet unfolding calls_ok_def es snoc by auto
    show ?thesis
    proof (cases "actor e = Some t")
      case True
      with call_ok_own [OF laws step True _ wf index [unfolded es] inv [unfolded es] before] quiet
      show ?thesis unfolding snoc es by auto
    next
      case False
      with call_ok_others [OF before False] others_keep_pc [OF step False] show ?thesis unfolding snoc es by simp
    qed
  qed
qed

lemma run_invariants:
  assumes laws: "cddb_laws cd rows pending drain" "dispatcher_commits rows pending dispatch"
    and run: "exec_run cd sha256 ahash reg_free dispatch (exec_start st) es c"
    and start: "tiered_wf st" "tiered_peek st = Map.empty" "pending (ts_db st) = []"
  shows "ex_index c = registers sha256 ahash es \<and> rows_stored sha256 ahash rows pending (rows (ts_db st)) es c \<and>
    calls_ok sha256 ahash (rows (ts_db st)) es c"
  using run
proof (induction "exec_start st" es c)
  case exec_nil
  show ?case using start
    by (simp add: registers_def rows_stored_def calls_ok_def ex_db_def exec_start_def share_def shared_peek_def)
next
  case (exec_snoc es c1 e c2)
  have wf: "shared_wf (node_storage (ex_node c1))"
    using exec_run_wf [OF exec_snoc.hyps(1) exec_start_wf [OF start(1)]] .
  show ?case
    using exec_snoc.hyps(2) step_index [OF exec_snoc.hyps(3) wf] rows_stored_step [OF laws exec_snoc.hyps(3)]
      calls_ok_step [OF laws(1) exec_snoc.hyps(3) wf] by (simp add: registers_snoc)
qed

lemma completed_call:
  fixes st :: "('db, 'e::len word) tiered_store"
  assumes "cddb_laws cd rows pending drain" and "dispatcher_commits rows pending dispatch"
    and "tiered_wf st" and "tiered_peek st = Map.empty" and "pending (ts_db st) = []"
    and "exec_run cd sha256 ahash reg_free dispatch (exec_start st) (pre @ Call t x # mid @ [Return t a]) c"
    and "\<forall>y. Call t y \<notin> set mid"
  shows "call_ok sha256 ahash (rows (ts_db st)) t x (pre @ [Call t x]) mid (Answer a)"
proof -
  obtain c1 where run: "exec_run cd sha256 ahash reg_free dispatch (exec_start st) (pre @ Call t x # mid) c1"
    and "exec_run cd sha256 ahash reg_free dispatch c1 [Return t a] c"
    using exec_split [of cd sha256 ahash reg_free dispatch _ "pre @ Call t x # mid" "[Return t a]"] assms(6) by auto
  then have "exec_step cd sha256 ahash reg_free dispatch c1 (Return t a) c" by (auto elim: exec_consE dest: exec_run_nil)
  then have "ex_pc c1 t = Answer a" by cases simp
  then show ?thesis
    using run_invariants [OF assms(1,2) run assms(3-5)] assms(7) unfolding calls_ok_def by metis
qed

text \<open>
  C4: The executor is linearizable. Threads run \<open>get\<close>, \<open>put\<close> and the application of peers' records in
  parallel on a store that was just opened, and the dispatcher commits whenever it likes. Every call that
  has returned took effect at one point of the history between its call and its return: a \<open>put\<close> stored its
  record into the index exactly once, and a \<open>get\<close> of a key stored nothing and answered what the
  sequential specification holds for the key at that point, namely the value of the record last stored in the
  key's slot, or that of the recovered row when there is none. This holds for a \<open>get\<close> that misses in the index and reads the database later, too.
\<close>

theorem executor_is_linearizable:
  fixes st :: "('db, 'e::len word) tiered_store"
  assumes "cddb_laws cd rows pending drain" and "dispatcher_commits rows pending dispatch"
    and "tiered_wf st" and "tiered_peek st = Map.empty" and "pending (ts_db st) = []"
    and "exec_run cd sha256 ahash reg_free dispatch (exec_start st) (pre @ Call t x # mid @ [Return t a]) c"
    and "\<forall>y. Call t y \<notin> set mid"
  shows "case x of
      Get_Call k \<Rightarrow> stores_of t mid = [] \<and> (\<exists>v m1 m2. a = Got v \<and> mid = m1 @ m2 \<and>
        spec_get sha256 ahash (rows (ts_db st)) (pre @ Call t x # m1) k = Inr v)
    | Put_Call k val \<Rightarrow> a = Stored \<and> stores_of t mid = [kv_record sha256 k val]
    | Apply_Call r \<Rightarrow> a = Stored \<and> stores_of t mid = [r]"
  using completed_call [OF assms]
  by (cases x) (auto simp: call_ok_def at_some_point_def split: answer.splits)

lemma stores_of_alone: "\<forall>e \<in> set es. actor e = Some t \<Longrightarrow> stores_of t es = stored es"
  by (simp add: stores_of_def own_actions_def)

lemma registers_stored:
  "registers sha256 ahash es = fold (\<lambda>r regs. regs(slot_of sha256 ahash r \<mapsto> r)) (stored es) Map.empty"
proof (induction es rule: rev_induct)
  case (snoc e es)
  then show ?case by (cases e) (simp_all add: registers_snoc)
qed (simp add: registers_def)

text \<open>One thread puts a value, then another gets it.\<close>

lemma sample_fresh: "tiered_peek (sample_tiered mem_empty) = Map.empty" "mem_queue (ts_db (sample_tiered mem_empty)) = []"
  by (auto simp: tiered_peek_def peek_index_def sample_tiered_def mem_empty_def)

lemma sample_put_get_run:
  "\<exists>es1 es2 v c. exec_run (mem_cddb 4) sample_sha sample_ahash (\<lambda>_. True) (\<lambda>db db'. db' = mem_drain db) (exec_start (sample_tiered mem_empty))
      (Call 1 (Put_Call [7] [9]) # es1 @ Return 1 Stored # Call 0 (Get_Call [7]) # es2 @ [Return 0 (Got v)]) c \<and>
    (\<forall>e \<in> set es1. actor e = Some 1 \<and> (\<forall>y. e \<noteq> Call 1 y)) \<and> (\<forall>e \<in> set es2. actor e = Some 0 \<and> (\<forall>y. e \<noteq> Call 0 y))"
proof -
  let ?c = "exec_start (sample_tiered mem_empty)" and ?d = "\<lambda>db db'. db' = mem_drain db"
  let ?run = "exec_run (mem_cddb 4) sample_sha sample_ahash (\<lambda>_. True) ?d"
  let ?ops = "worker_ops (mem_cddb 4) sample_sha sample_ahash mem_drain"
  have wf: "shared_wf (node_storage (ex_node ?c))" by (rule exec_start_wf [OF sample_tiered_wf])
  have idle: "ex_pc ?c t = Idle" for t by (simp add: exec_start_def)
  obtain n1 where n1: "l2_put sample_sha (?ops 1) (ex_node ?c) [7] [9] = Inr n1" "shared_wf (node_storage n1)"
    using worker_put_ok [OF wf] by blast
  let ?c1 = "?c\<lparr>ex_node := n1\<rparr>"
  obtain es1 where run1: "?run ?c (Call 1 (Put_Call [7] [9]) # es1 @ [Return 1 Stored]) ?c1"
    and own1: "\<forall>e \<in> set es1. actor e = Some 1 \<and> (\<forall>y. e \<noteq> Call 1 y)"
    using uninterrupted_put [OF idle n1(1), of "\<lambda>_. True" ?d] by auto
  obtain v n2 where "l2_get sample_sha (?ops 0) n1 [7] = Inr (v, n2)"
    using worker_get_ok [OF n1(2), of sample_sha "mem_cddb 4" sample_ahash mem_drain 0 "[7]"] by (elim exE conjE)
  then obtain es2 where run2: "?run ?c1 (Call 0 (Get_Call [7]) # es2 @ [Return 0 (Got v)]) (?c1\<lparr>ex_node := n2\<rparr>)"
    and own2: "\<forall>e \<in> set es2. actor e = Some 0 \<and> (\<forall>y. e \<noteq> Call 0 y)"
    using uninterrupted_get [where reg_free = "\<lambda>_. True" and c = ?c1 and t = 0 and dispatch = ?d and n = n2 and v = v and
        ?sha256.0 = sample_sha and cd = "mem_cddb 4" and ahash = sample_ahash and background = mem_drain and k = "[7]"] idle by auto
  from exec_trans [OF run1 run2] own1 own2 show ?thesis by auto
qed

theorem executor_is_linearizable_witness:
  "\<exists>es1 es2 c. exec_run (mem_cddb 4) sample_sha sample_ahash (\<lambda>_. True) (\<lambda>db db'. db' = mem_drain db) (exec_start (sample_tiered mem_empty))
     (Call 1 (Put_Call [7] [9]) # es1 @ Return 1 Stored # Call 0 (Get_Call [7]) # es2 @ [Return 0 (Got (Some [9]))]) c"
proof -
  let ?r = "kv_record sample_sha [7] [9] :: 64 word signed_record"
  let ?run = "exec_run (mem_cddb 4) sample_sha sample_ahash (\<lambda>_. True) (\<lambda>db db'. db' = mem_drain db) (exec_start (sample_tiered mem_empty))"
  note lin = executor_is_linearizable [OF mem_cddb_laws drain_dispatches [OF mem_cddb_laws] sample_tiered_wf sample_fresh]
  obtain es1 es2 v c where run: "?run (Call 1 (Put_Call [7] [9]) # es1 @ Return 1 Stored # Call 0 (Get_Call [7]) # es2 @ [Return 0 (Got v)]) c"
    and own: "\<forall>e \<in> set es1. actor e = Some 1 \<and> (\<forall>y. e \<noteq> Call 1 y)" "\<forall>e \<in> set es2. actor e = Some 0 \<and> (\<forall>y. e \<noteq> Call 0 y)"
    using sample_put_get_run by blast
  let ?pre = "Call 1 (Put_Call [7] [9]) # es1 @ [Return 1 Stored]"
  have run': "?run (?pre @ Call 0 (Get_Call [7]) # es2 @ [Return 0 (Got v)]) c" using run by simp
  then obtain c1 where run1: "?run ([] @ ?pre) c1" using exec_split [OF run'] by auto
  from lin [OF run1] own(1) have "stores_of 1 es1 = [?r]" by auto
  then have stored1: "stored es1 = [?r]" using stores_of_alone own(1) by metis
  have "\<forall>y. Call 0 y \<notin> set es2" using own(2) by blast
  from lin [OF run' this, unfolded call.case] obtain m1 m2 where m: "es2 = m1 @ m2" "stores_of 0 es2 = []"
    and v: "spec_get sample_sha sample_ahash (mem_rows_of (ts_db (sample_tiered mem_empty))) (?pre @ Call 0 (Get_Call [7]) # m1) [7] = Inr v"
    by blast
  have "stored es2 = []" using m(2) stores_of_alone own(2) by metis
  then have "stored m1 = []" using m(1) by simp
  with v stored1 have "v = Some [9]"
    by (simp add: spec_get_def spec_record_def registers_stored slot_of_def found_value_def)
  with run show ?thesis by auto
qed

section \<open>No stale reads\<close>

lemma registers_after:
  "\<exists>r' \<in> set (r # stored h2). registers sha256 ahash (h1 @ Index_Store t r # h2) (slot_of sha256 ahash r) = Some r' \<and>
     slot_of sha256 ahash r' = slot_of sha256 ahash r"
proof (induction h2 rule: rev_induct)
  case (snoc e h2)
  have "registers sha256 ahash (h1 @ Index_Store t r # h2 @ [e]) =
      apply_store sha256 ahash e (registers sha256 ahash (h1 @ Index_Store t r # h2))"
    using registers_snoc [of sha256 ahash "h1 @ Index_Store t r # h2" e] by simp
  with snoc show ?case by (cases e) auto
qed (use registers_store in \<open>simp\<close>)

lemma stores_of_in: "r \<in> set (stores_of t es) \<Longrightarrow> \<exists>xs ys. es = xs @ Index_Store t r # ys"
proof -
  assume "r \<in> set (stores_of t es)"
  then obtain u xs ys where "own_actions t es = xs @ Index_Store u r # ys"
    using stored_in unfolding stores_of_def by blast
  then have "Index_Store u r \<in> set (own_actions t es)" by simp
  then have "Index_Store t r \<in> set es" by (auto simp: own_actions_def)
  then show ?thesis by (rule split_list)
qed

text \<open>
  C6: Reads are never stale. When a \<open>put\<close> of a key has returned, a \<open>get\<close> of that key that some thread
  calls afterwards answers the value of that \<open>put\<close>, or that of a record which was stored into the key's slot after the
  record of that \<open>put\<close> was; never an older one, whether the record has reached the database or not, and however the threads
  and the dispatcher interleave.
\<close>

theorem reads_are_never_stale:
  fixes st :: "('db, 'e::len word) tiered_store"
  assumes laws: "cddb_laws cd rows pending drain" "dispatcher_commits rows pending dispatch"
    and start: "tiered_wf st" "tiered_peek st = Map.empty" "pending (ts_db st) = []"
    and run: "exec_run cd sha256 ahash reg_free dispatch (exec_start st)
      (pre @ Call t (Put_Call k val) # mid1 @ Return t a # mid2 @ Call u (Get_Call k) # mid3 @ [Return u (Got v)]) c"
    and quiet: "\<forall>y. Call t y \<notin> set mid1" "\<forall>y. Call u y \<notin> set mid3"
  shows "\<exists>xs ys r. mid1 = xs @ Index_Store t (kv_record sha256 k val) # ys \<and>
    r \<in> set (kv_record sha256 k val # stored (ys @ mid2 @ mid3)) \<and>
    slot_of sha256 ahash r = key_slot ahash (sha256 k) \<and> found_value (Some r) = Inr v"
proof -
  let ?kv = "kv_record sha256 k val :: 'e word signed_record"
  let ?s = "key_slot ahash (sha256 k)"
  obtain c1 where "exec_run cd sha256 ahash reg_free dispatch (exec_start st) (pre @ Call t (Put_Call k val) # mid1 @ [Return t a]) c1"
    using exec_split [of cd sha256 ahash reg_free dispatch _ "pre @ Call t (Put_Call k val) # mid1 @ [Return t a]"] run by force
  from completed_call [OF laws start this quiet(1)] have "?kv \<in> set (stores_of t mid1)"
    by (auto simp: call_ok_def split: answer.splits)
  then obtain xs ys where put: "mid1 = xs @ Index_Store t ?kv # ys" using stores_of_in by blast
  let ?pre = "pre @ Call t (Put_Call k val) # mid1 @ Return t a # mid2"
  have "exec_run cd sha256 ahash reg_free dispatch (exec_start st) (?pre @ Call u (Get_Call k) # mid3 @ [Return u (Got v)]) c"
    using run by simp
  from completed_call [OF laws start this quiet(2)] obtain m1 m2 where m: "mid3 = m1 @ m2"
    and v: "spec_get sha256 ahash (rows (ts_db st)) (?pre @ Call u (Get_Call k) # m1) k = Inr v"
    by (auto simp: call_ok_def at_some_point_def)
  have slot: "slot_of sha256 ahash ?kv = ?s" by (simp add: slot_of_def)
  from registers_after [of ?kv "ys @ Return t a # mid2 @ Call u (Get_Call k) # m1" sha256 ahash
      "pre @ Call t (Put_Call k val) # xs" t]
  obtain r where "r \<in> set (?kv # stored (ys @ mid2 @ m1))" "slot_of sha256 ahash r = ?s"
    "registers sha256 ahash (?pre @ Call u (Get_Call k) # m1) ?s = Some r"
    unfolding slot put by auto
  with v put m show ?thesis by (auto simp: spec_get_def spec_record_def)
qed

theorem reads_are_never_stale_witness:
  "\<exists>es1 es2 v c r. exec_run (mem_cddb 4) sample_sha sample_ahash (\<lambda>_. True) (\<lambda>db db'. db' = mem_drain db) (exec_start (sample_tiered mem_empty))
      (Call 1 (Put_Call [7] [9]) # es1 @ Return 1 Stored # Call 0 (Get_Call [7]) # es2 @ [Return 0 (Got v)]) c \<and>
    slot_of sample_sha sample_ahash r = key_slot sample_ahash (sample_sha [7]) \<and>
    found_value (Some (r :: 64 word signed_record)) = Inr v"
proof -
  obtain es1 es2 v c where run: "exec_run (mem_cddb 4) sample_sha sample_ahash (\<lambda>_. True) (\<lambda>db db'. db' = mem_drain db)
      (exec_start (sample_tiered mem_empty))
      ([] @ Call 1 (Put_Call [7] [9]) # es1 @ Return 1 Stored # [] @ Call 0 (Get_Call [7]) # es2 @ [Return 0 (Got v)]) c"
    and own: "\<forall>e \<in> set es1. actor e = Some 1 \<and> (\<forall>y. e \<noteq> Call 1 y)" "\<forall>e \<in> set es2. actor e = Some 0 \<and> (\<forall>y. e \<noteq> Call 0 y)"
    using sample_put_get_run by auto
  from own have "\<forall>y. Call 1 y \<notin> set es1" "\<forall>y. Call 0 y \<notin> set es2" by blast+
  from reads_are_never_stale [OF mem_cddb_laws drain_dispatches [OF mem_cddb_laws] sample_tiered_wf sample_fresh run this] run
  show ?thesis by auto
qed

end
