(* ===== verification/Durability.thy ===== *)
theory Durability
  imports Startup Interleaving
begin

text \<open>
  What a server on the tiered store leaves behind for the next one. A request handler changes the database in one
  way only, by sending the command of a \<open>SET\<close>; the rows that the database will hold once its queue is worked off
  (\<open>settled\<close>) follow the accepted commands. The next process starts with an empty index and reads
  those rows, but it looks for them under other entity ids: an entity id is the hash of \<open>AHasher::default()\<close>, whose keys
  ahash 0.8 draws at random when a process first uses them. So there are two hash functions here, one of the process that
  writes and one of the process that reads. Shown: what a \<open>GET\<close> after a restart answers depends on whether the two agree on the key.
\<close>

section \<open>The store under one operation\<close>

lemma tiered_get_rows:
  assumes "cddb_laws cd rows pending drain" and "tiered_get_record cd ahash st h m = Inr (x, st', m')"
  shows "rows (ts_db st') = rows (ts_db st)" and "pending (ts_db st') = pending (ts_db st)"
  using assms(2) get_worker_rows [OF assms(1)]
  by (auto simp: tiered_get_record_def res_simps Let_def split: option.splits prod.splits)

lemma tiered_apply_rows:
  assumes "cddb_laws cd rows pending drain" and "tiered_wf st"
    and "tiered_apply_signed_record cd sha256 ahash st r = Inr st'"
  shows "rows (ts_db st') = rows (ts_db st)"
    and "settled rows pending (ts_db st') =
      (if fst (cd_try_send cd (ts_db st) (ts_writer st) (insert_command sha256 ahash r))
       then (settled rows pending (ts_db st))(entity_of sha256 ahash r \<mapsto> row_of r)
       else settled rows pending (ts_db st))"
proof -
  obtain st1 where st1: "apply_index sha256 ahash st r = Inr st1" "ts_db st1 = ts_db st" "ts_writer st1 = ts_writer st"
    using apply_index_eq [OF assms(2)] by blast
  obtain sent where send: "apply_send cd sha256 ahash st1 r = (sent, st')"
    using assms(3) st1(1) by (cases "apply_send cd sha256 ahash st1 r") (simp add: apply_halves)
  note sending = apply_send_frame(3) [OF send, unfolded st1(2,3)]
  show "rows (ts_db st') = rows (ts_db st)" using try_send_rows(1) [OF assms(1) sending] .
  show "settled rows pending (ts_db st') =
      (if fst (cd_try_send cd (ts_db st) (ts_writer st) (insert_command sha256 ahash r))
       then (settled rows pending (ts_db st))(entity_of sha256 ahash r \<mapsto> row_of r)
       else settled rows pending (ts_db st))"
    using settled_send [OF assms(1) send] sending by (simp add: st1(2))
qed

section \<open>The store under one request\<close>

abbreviation sv_store :: "(('db, 'e::len word) tiered_store, 'e word, 'tx) server \<Rightarrow> ('db, 'e word) tiered_store" where
  "sv_store sv \<equiv> node_storage (sv_node sv)"

abbreviation key_entity :: "(bytes \<Rightarrow> hash32) \<Rightarrow> (bytes \<Rightarrow> u64) \<Rightarrow> string \<Rightarrow> usize" where
  "key_entity sha256 ahash key \<equiv> entity_id ahash (sha256 (as_bytes key))"

abbreviation name_slot :: "(bytes \<Rightarrow> hash32) \<Rightarrow> (bytes \<Rightarrow> u64) \<Rightarrow> string \<Rightarrow> nat" where
  "name_slot sha256 ahash key \<equiv> key_slot ahash (sha256 (as_bytes key))"

lemma kv_entity [simp]:
  "entity_of sha256 ahash (kv_record sha256 k v) = entity_id ahash (sha256 k)"
  "key_of sha256 (array_to_list (sha256 k) @ v) = sha256 k"
  by (simp_all add: entity_of_def)

text \<open>What a \<open>SET\<close> that reaches the store does.\<close>

lemma store_and_ack_effect:
  fixes sv :: "(('db, 'e::len word) tiered_store, 'e word, 'tx) server"
  assumes laws: "cddb_laws cd rows pending drain" and wf: "tiered_wf (sv_store sv)"
    and ack: "store_and_ack sha256 (tiered_ops cd sha256 ahash background) key val sv = Inr sv'"
  shows "rows (ts_db (sv_store sv')) = rows (ts_db (sv_store sv)) \<and>
    settled rows pending (ts_db (sv_store sv')) =
      (if fst (cd_try_send cd (ts_db (sv_store sv)) (ts_writer (sv_store sv))
            (insert_command sha256 ahash (kv_record sha256 (as_bytes key) val :: 'e word signed_record)))
       then (settled rows pending (ts_db (sv_store sv)))
         (key_entity sha256 ahash key \<mapsto> row_of (kv_record sha256 (as_bytes key) val :: 'e word signed_record))
       else settled rows pending (ts_db (sv_store sv))) \<and>
    tiered_peek (sv_store sv') = (tiered_peek (sv_store sv))(name_slot sha256 ahash key \<mapsto> kv_record sha256 (as_bytes key) val)"
proof -
  obtain st where st: "tiered_apply_signed_record cd sha256 ahash (sv_store sv) (kv_record sha256 (as_bytes key) val) = Inr st"
    "sv_store sv' = st"
    using ack by (auto simp: store_and_ack_def l2_put_def Let_def res_simps tiered_ops_def split: if_splits)
  have "tiered_peek st = (tiered_peek (sv_store sv))(name_slot sha256 ahash key \<mapsto> kv_record sha256 (as_bytes key) val)"
    using tiered_apply_total [OF wf, of cd sha256 ahash "kv_record sha256 (as_bytes key) val"] st(1) by auto
  with tiered_apply_rows [OF laws wf st(1)] show ?thesis by (simp add: st(2))
qed

text \<open>All that a request can do to the store is to put a key.\<close>

definition puts_avoid :: "(string \<Rightarrow> bool) \<Rightarrow> gateway_request list \<Rightarrow> bool" where
  "puts_avoid bad reqs \<longleftrightarrow> (\<forall>req \<in> set reqs. case req_cmd req of Put key val \<Rightarrow> \<not> bad key | _ \<Rightarrow> True)"

lemma puts_avoid_simps [simp]:
  "puts_avoid bad []"
  "puts_avoid bad (req # reqs) \<longleftrightarrow> (case req_cmd req of Put key val \<Rightarrow> \<not> bad key | _ \<Rightarrow> True) \<and> puts_avoid bad reqs"
  by (simp_all add: puts_avoid_def)

lemma puts_avoid_append: "puts_avoid bad (xs @ ys) \<longleftrightarrow> puts_avoid bad xs \<and> puts_avoid bad ys"
  by (auto simp: puts_avoid_def)

lemma handle_put_store:
  assumes "handle_put sha256 ops tx_send en peer key val sv = Inr sv'"
  shows "sv_node sv' = sv_node sv \<or>
    (\<exists>sv1. sv_node sv1 = sv_node sv \<and> store_and_ack sha256 ops key val sv1 = Inr sv')"
proof -
  obtain mac where "mac_of_key key = Inr mac" using mac_of_key_total by blast
  from assms show ?thesis
    by (auto simp: handle_put_def forward_vm_eq [OF \<open>mac_of_key key = Inr mac\<close>] split: if_splits option.splits
        intro: exI [of _ "sv\<lparr>sv_serial_txs := _, sv_send_errors := _\<rparr>"])
qed

lemma request_effect:
  fixes sv :: "(('db, 'e::len word) tiered_store, 'e word, 'tx) server"
  assumes laws: "cddb_laws cd rows pending drain" and wf: "tiered_wf (sv_store sv)"
    and handled: "handle_request sha256 (tiered_ops cd sha256 ahash background) tx_send en w req sv = Inr sv'"
  shows "rows (ts_db (sv_store sv')) = rows (ts_db (sv_store sv)) \<and>
    (puts_avoid (\<lambda>k. key_entity sha256 ahash k = i) [req] \<longrightarrow>
      settled rows pending (ts_db (sv_store sv')) i = settled rows pending (ts_db (sv_store sv)) i) \<and>
    (puts_avoid (\<lambda>k. name_slot sha256 ahash k = s) [req] \<longrightarrow> tiered_peek (sv_store sv') s = tiered_peek (sv_store sv) s)"
proof (cases "req_cmd req")
  case (Get key)
  then obtain x st m where get: "tiered_get_record cd ahash (sv_store sv) (sha256 (as_bytes key))
      (inc_db_gets (node_metrics (sv_node sv))) = Inr (x, st, m)" "sv_store sv' = st"
    using handled by (auto simp: handle_request_def handle_get_def l2_get_def Let_def res_simps tiered_ops_def respond_def
        split: option.splits)
  moreover have "tiered_peek st = tiered_peek (sv_store sv)"
    using tiered_get_frame [OF wf, of cd ahash "sha256 (as_bytes key)" "inc_db_gets (node_metrics (sv_node sv))"] get(1)
    by (auto simp: tiered_peek_def)
  ultimately show ?thesis using tiered_get_rows [OF laws get(1)] by (simp add: settled_def)
next
  case (Put key val)
  with handled consider "sv_node sv' = sv_node sv"
    | sv1 where "sv_node sv1 = sv_node sv" "store_and_ack sha256 (tiered_ops cd sha256 ahash background) key val sv1 = Inr sv'"
    using handle_put_store [of sha256 _ tx_send en _ key val sv sv'] by (auto simp: handle_request_def)
  then show ?thesis
  proof cases
    case 2
    with store_and_ack_effect [OF laws _ 2(2)] wf Put show ?thesis by (simp add: puts_avoid_def)
  qed simp
qed (use handled in \<open>auto simp: handle_request_def\<close>)

lemma serve_effect:
  fixes sv :: "(('db, 'e::len word) tiered_store, 'e word, 'tx) server"
  assumes laws: "cddb_laws cd rows pending drain"
  shows "tiered_wf (sv_store sv) \<Longrightarrow>
    serve sha256 (tiered_ops cd sha256 ahash background) tx_send en w reqs sv = Inr sv' \<Longrightarrow>
    tiered_wf (sv_store sv') \<and> rows (ts_db (sv_store sv')) = rows (ts_db (sv_store sv)) \<and>
    (puts_avoid (\<lambda>k. key_entity sha256 ahash k = i) reqs \<longrightarrow>
      settled rows pending (ts_db (sv_store sv')) i = settled rows pending (ts_db (sv_store sv)) i) \<and>
    (puts_avoid (\<lambda>k. name_slot sha256 ahash k = s) reqs \<longrightarrow> tiered_peek (sv_store sv') s = tiered_peek (sv_store sv) s)"
proof (induction reqs arbitrary: sv)
  case (Cons req reqs)
  then obtain sv1 where sv1: "handle_request sha256 (tiered_ops cd sha256 ahash background) tx_send en w req sv = Inr sv1"
    "serve sha256 (tiered_ops cd sha256 ahash background) tx_send en w reqs sv1 = Inr sv'"
    by (auto simp: res_simps)
  have "tiered_wf (sv_store sv1)"
    using tiered.handle_request_ok [OF Cons.prems(1), of sha256 cd sha256 ahash background tx_send en w req] sv1(1) by auto
  with Cons.IH [OF this sv1(2)] request_effect [OF laws Cons.prems(1) sv1(1), of i s] show ?case
    by simp
qed simp

section \<open>Restart\<close>

text \<open>The next process finds what the write-ahead log and the committed columns hold: all that was queued.\<close>

definition recovered_from :: "('db \<Rightarrow> usize \<rightharpoonup> row) \<Rightarrow> ('db \<Rightarrow> 'db) \<Rightarrow> 'db \<Rightarrow> 'db \<Rightarrow> bool" where
  "recovered_from rows drain old new \<longleftrightarrow> rows new = rows (drain old)"

lemma main_tiered_fresh:
  assumes "main_tiered resolve cli tel_init seccomp bind_ok cd new_std parse_pk open_serial args fs = Inr (Started b)"
  shows "tiered_wf (sv_store (bt_server b))" and "tiered_peek (sv_store (bt_server b)) = Map.empty"
    and "sv_responses (bt_server b) = []"
  using main_boot_started [OF assms [unfolded main_tiered_def]]
  by (auto simp: start_node_def start_tiered_def dest: tiered_new_wf [OF _ tls_wf_init])

lemma set_settles:
  fixes sv :: "(('db, 'e::len word) tiered_store, 'e word, 'tx) server"
  assumes laws: "cddb_laws cd rows pending drain" and wf: "tiered_wf (sv_store sv)"
    and plain: "\<not> starts_with key ''vm:'' \<or> sv_serial_txs sv = []"
    and accepted: "fst (cd_try_send cd (ts_db (sv_store sv)) (ts_writer (sv_store sv))
      (insert_command sha256 ahash (kv_record sha256 (as_bytes key) val :: 'e word signed_record)))"
    and later: "puts_avoid (\<lambda>k. key_entity sha256 ahash k = key_entity sha256 ahash key) reqs"
    and served: "serve sha256 (tiered_ops cd sha256 ahash background) tx_send en w
      (\<lparr>req_cmd = Put key val, req_peer_addr = p\<rparr> # reqs) sv = Inr sv'"
  shows "settled rows pending (ts_db (sv_store sv')) (key_entity sha256 ahash key) =
    Some (row_of (kv_record sha256 (as_bytes key) val :: 'e word signed_record))"
proof -
  let ?ops = "tiered_ops cd sha256 ahash background :: (('db, 'e word) tiered_store, 'e word) state_store"
  from served plain obtain sv1 where sv1: "store_and_ack sha256 ?ops key val sv = Inr sv1"
    "serve sha256 ?ops tx_send en w reqs sv1 = Inr sv'"
    by (auto simp: handle_request_def handle_put_def res_simps)
  have "tiered_wf (sv_store sv1)"
    using tiered.store_and_ack_ok [OF wf, of sha256 cd sha256 ahash background key val] sv1(1) by auto
  from serve_effect [OF laws this sv1(2)] later store_and_ack_effect [OF laws wf sv1(1)] accepted
  show ?thesis by simp
qed

text \<open>A \<open>GET\<close> of a key that is not in the index: the value in the row of its entity id, if there is one.\<close>

lemma cold_get:
  fixes sv :: "(('db, 'e::len word) tiered_store, 'e word, 'tx) server"
  assumes laws: "cddb_laws cd rows pending drain" and wf: "tiered_wf (sv_store sv)"
    and none: "tiered_peek (sv_store sv) (name_slot sha256 ahash key) = None"
  shows "\<exists>sv' v. serve sha256 (tiered_ops cd sha256 ahash background) tx_send en w [\<lparr>req_cmd = Get key, req_peer_addr = p\<rparr>] sv = Inr sv' \<and>
    sv_responses sv' = sv_responses sv @ [BulkString v] \<and>
    (case rows (ts_db (sv_store sv)) (key_entity sha256 ahash key) of
       None \<Rightarrow> v = None
     | Some row \<Rightarrow> \<exists>b. v = Some b \<and> record_value (row_record row :: 'e word signed_record) = Inr b)"
proof (cases "rows (ts_db (sv_store sv)) (key_entity sha256 ahash key)")
  case None
  with tiered_get_cold [OF laws wf none, of "inc_db_gets (node_metrics (sv_node sv))"] show ?thesis
    by (auto simp: handle_request_def handle_get_def l2_get_def Let_def tiered_ops_def)
next
  case (Some row)
  obtain b where "record_value (row_record row :: 'e word signed_record) = Inr b" using record_value_total by blast
  with Some tiered_get_cold [OF laws wf none, of "inc_db_gets (node_metrics (sv_node sv))"] show ?thesis
    by (auto simp: handle_request_def handle_get_def l2_get_def Let_def tiered_ops_def)
qed

lemma row_record_kv: "row_record (row_of (kv_record sha256 k v :: ('e::len) word signed_record)) = (kv_record sha256 k v :: 'e word signed_record)"
  by (simp add: row_record_def row_of_def kv_record_def)

text \<open>
  C3: What a restart keeps depends on the keys of the hash. A server is started and handles any requests, then a \<open>SET\<close> of a
  key that is not addressed to a serial port, whose command the database accepts, then any requests. The process ends, and
  another one is started, with any settings and its own hash keys, on a database that has recovered every queued write. After any requests
  that set no key in the same cache slot, a \<open>GET\<close> of the key is answered. If both processes give the key the same entity id
  and it was not set again, the answer is exactly the bytes that were set. If the new process gives it an id under which neither
  the database of the first process nor its clients had written anything, the answer is nil: the acknowledged and
  recovered \<open>SET\<close> cannot be read any more.
\<close>

theorem restart_needs_the_same_hash_keys:
  fixes b b2 :: "(('db, 'e::len word) tiered_store, 'e word, 'tx, 'pk, 'sys) booted"
  assumes laws: "cddb_laws cd rows pending drain"
    and first: "main_tiered resolve cli tel_init seccomp bind_ok cd new_std parse_pk open_serial args fs = Inr (Started b)"
    and before: "serve sha256 (tiered_ops cd sha256 ahash1 background) tx_send (bt_vm_scripts b) w reqs1 (bt_server b) = Inr sv1"
    and plain: "\<not> starts_with key ''vm:'' \<or> sv_serial_txs (bt_server b) = []"
    and accepted: "fst (cd_try_send cd (ts_db (sv_store sv1)) (ts_writer (sv_store sv1))
      (insert_command sha256 ahash1 (kv_record sha256 (as_bytes key) val :: 'e word signed_record)))"
    and after: "serve sha256 (tiered_ops cd sha256 ahash1 background) tx_send (bt_vm_scripts b) w
      (\<lparr>req_cmd = Put key val, req_peer_addr = p\<rparr> # reqs2) sv1 = Inr sv2"
    and second: "main_tiered resolve2 cli2 tel_init2 seccomp2 bind_ok2 cd new_std2 parse_pk2 open_serial2 args2 fs2 =
      Inr (Started b2)"
    and recovered: "recovered_from rows drain (ts_db (sv_store sv2)) (ts_db (sv_store (bt_server b2)))"
    and avoid3: "puts_avoid (\<lambda>k. name_slot sha256 ahash2 k = name_slot sha256 ahash2 key) reqs3"
  shows "\<exists>sv3 answers v. serve sha256 (tiered_ops cd sha256 ahash2 background) tx_send (bt_vm_scripts b2) w2
      (reqs3 @ [\<lparr>req_cmd = Get key, req_peer_addr = p2\<rparr>]) (bt_server b2) = Inr sv3 \<and>
    length answers = length reqs3 \<and> sv_responses sv3 = answers @ [BulkString v] \<and>
    (key_entity sha256 ahash2 key = key_entity sha256 ahash1 key \<and>
       puts_avoid (\<lambda>k. key_entity sha256 ahash1 k = key_entity sha256 ahash1 key) reqs2 \<longrightarrow> v = Some val) \<and>
    (settled rows pending (ts_db (sv_store (bt_server b))) (key_entity sha256 ahash2 key) = None \<and>
       puts_avoid (\<lambda>k. key_entity sha256 ahash1 k = key_entity sha256 ahash2 key)
         (reqs1 @ \<lparr>req_cmd = Put key val, req_peer_addr = p\<rparr> # reqs2) \<longrightarrow> v = None)"
proof -
  let ?ops = "tiered_ops cd sha256 ahash2 background :: (('db, 'e word) tiered_store, 'e word) state_store"
  let ?row = "row_of (kv_record sha256 (as_bytes key) val :: 'e word signed_record)"
  let ?e1 = "key_entity sha256 ahash1 key" and ?e2 = "key_entity sha256 ahash2 key"
  note run1 = serve_effect [OF laws main_tiered_fresh(1) [OF first] before]
  then have wf1: "tiered_wf (sv_store sv1)" by blast
  note run2 = serve_effect [OF laws wf1 after]
  have plain1: "\<not> starts_with key ''vm:'' \<or> sv_serial_txs sv1 = []" using plain serve_serial [OF before] by auto
  have rows2: "rows (ts_db (sv_store (bt_server b2))) = settled rows pending (ts_db (sv_store sv2))"
    using recovered rows_drain [OF laws] by (auto simp: recovered_from_def)
  note fresh = main_tiered_fresh [OF second]
  obtain sv answers where sv: "serve sha256 ?ops tx_send (bt_vm_scripts b2) w2 reqs3 (bt_server b2) = Inr sv"
    "sv_responses sv = answers" "length answers = length reqs3"
    using tiered.serve_ok [OF fresh(1)] fresh(3) by fastforce
  from serve_effect [OF laws fresh(1) sv(1), of ?e2 "name_slot sha256 ahash2 key"]
  have "tiered_wf (sv_store sv)" "tiered_peek (sv_store sv) (name_slot sha256 ahash2 key) = None"
    and rows3: "rows (ts_db (sv_store sv)) = settled rows pending (ts_db (sv_store sv2))"
    using avoid3 fresh(2) rows2 by simp_all
  from cold_get [where ?sha256.0 = sha256 and ahash = ahash2 and key = key, OF laws this(1,2)] obtain sv3 v where
    sv3: "serve sha256 ?ops tx_send (bt_vm_scripts b2) w2 [\<lparr>req_cmd = Get key, req_peer_addr = p2\<rparr>] sv = Inr sv3"
      "sv_responses sv3 = sv_responses sv @ [BulkString v]"
    and v: "case settled rows pending (ts_db (sv_store sv2)) ?e2 of None \<Rightarrow> v = None
      | Some row \<Rightarrow> \<exists>b. v = Some b \<and> record_value (row_record row :: 'e word signed_record) = Inr b"
    unfolding rows3 by blast
  have "v = Some val" if "?e2 = ?e1" and "puts_avoid (\<lambda>k. key_entity sha256 ahash1 k = ?e1) reqs2"
    using set_settles [OF laws wf1 plain1 accepted that(2) after] that(1) v by (simp add: row_record_kv)
  moreover have "v = None" if "settled rows pending (ts_db (sv_store (bt_server b))) ?e2 = None"
    and "puts_avoid (\<lambda>k. key_entity sha256 ahash1 k = ?e2) (reqs1 @ \<lparr>req_cmd = Put key val, req_peer_addr = p\<rparr> # reqs2)"
    using run1 [of ?e2] run2 [of ?e2] that v by (simp add: puts_avoid_append)
  ultimately show ?thesis using sv sv3 by (auto simp: serve_append)
qed

text \<open>A server on the in-memory database, restarted on what its predecessor has queued.\<close>

definition sample_restart :: "mem_db \<Rightarrow> ((mem_db, 64 word) tiered_store, 64 word, gateway_frame list, string, string) booted" where
  "sample_restart db =
     start_node (syscall_filter sample_seccomp) Some (\<lambda>p baud. []) (load_settings empty_settings) (sample_tiered db)"

lemma sample_restart_main:
  "main_tiered sample_resolve (\<lambda>args. Some (False, empty_settings)) (\<lambda>_. True) sample_seccomp True (mem_cddb 4) (\<lambda>_. db) Some
     (\<lambda>p baud. []) [''server_go''] sample_fs = Inr (Started (sample_restart db))"
  by (simp add: main_tiered_def main_boot_def subcommand_def start_tiered_def tiered_new_def mem_cddb_def
      hot_index_new_store sample_tiered_def sample_restart_def)

lemma sample_restart_sel [simp]:
  "sv_store (bt_server (sample_restart db)) = sample_tiered db" "sv_serial_txs (bt_server (sample_restart db)) = []"
  "bt_vm_scripts (sample_restart db) = False" "ts_db (sample_tiered db) = db"
  by (simp_all add: sample_restart_def start_node_def serial_txs_of_eq load_settings_def empty_settings_def
      or_default_def load_security_def default_false_def sample_tiered_def)

text \<open>Hash keys of the next process, under which the sample keys get other ids.\<close>

definition rekeyed_ahash :: "bytes \<Rightarrow> u64" where
  "rekeyed_ahash b = sample_ahash b + 1"

lemma rekeyed_entity: "key_entity sample_sha rekeyed_ahash ''k'' \<noteq> key_entity sample_sha sample_ahash ''k''"
  by (simp add: entity_id_def rekeyed_ahash_def)

theorem restart_needs_the_same_hash_keys_witness:
  "\<exists>sv2 sv3 sv4. serve sample_sha (tiered_ops (mem_cddb 4) sample_sha sample_ahash mem_drain) record_tx False 0
      [\<lparr>req_cmd = Put ''k'' [72, 105], req_peer_addr = None\<rparr>] (bt_server (sample_restart mem_empty)) = Inr sv2 \<and>
    serve sample_sha (tiered_ops (mem_cddb 4) sample_sha sample_ahash mem_drain) record_tx False 0
      [\<lparr>req_cmd = Get ''k'', req_peer_addr = None\<rparr>] (bt_server (sample_restart (mem_drain (ts_db (sv_store sv2))))) = Inr sv3 \<and>
    sv_responses sv3 = [BulkString (Some [72, 105])] \<and>
    serve sample_sha (tiered_ops (mem_cddb 4) sample_sha rekeyed_ahash mem_drain) record_tx False 0
      [\<lparr>req_cmd = Get ''k'', req_peer_addr = None\<rparr>] (bt_server (sample_restart (mem_drain (ts_db (sv_store sv2))))) = Inr sv4 \<and>
    sv_responses sv4 = [BulkString None]"
proof -
  let ?ops = "tiered_ops (mem_cddb 4) sample_sha sample_ahash mem_drain :: ((mem_db, 64 word) tiered_store, 64 word) state_store"
  let ?b = "sample_restart mem_empty" and ?set = "\<lparr>req_cmd = Put ''k'' [72, 105], req_peer_addr = None\<rparr>"
  have before: "serve sample_sha ?ops record_tx (bt_vm_scripts ?b) 0 [] (bt_server ?b) = Inr (bt_server ?b)" by simp
  have "tiered_wf (sv_store (bt_server ?b))" by simp
  from tiered.serve_ok [OF this, of sample_sha "mem_cddb 4" sample_sha sample_ahash mem_drain record_tx False 0 "[?set]"]
  obtain sv2 where sv2: "serve sample_sha ?ops record_tx (bt_vm_scripts ?b) 0 [?set] (bt_server ?b) = Inr sv2" by auto
  have accepted: "fst (cd_try_send (mem_cddb 4) (ts_db (sv_store (bt_server ?b))) (ts_writer (sv_store (bt_server ?b)))
      (insert_command sample_sha sample_ahash (kv_record sample_sha (as_bytes ''k'') [72, 105] :: 64 word signed_record)))"
    by (simp add: mem_cddb_def mem_empty_def)
  have plain: "\<not> starts_with ''k'' ''vm:'' \<or> sv_serial_txs (bt_server ?b) = []" by simp
  have recovered: "recovered_from mem_rows_of mem_drain (ts_db (sv_store sv2))
      (ts_db (sv_store (bt_server (sample_restart (mem_drain (ts_db (sv_store sv2)))))))"
    by (simp add: recovered_from_def)
  note restart = restart_needs_the_same_hash_keys [OF mem_cddb_laws sample_restart_main before plain accepted sv2
      sample_restart_main recovered puts_avoid_simps(1), where ?w2.0 = 0 and ?p2.0 = None]
  have fresh: "settled mem_rows_of mem_queue (ts_db (sv_store (bt_server ?b))) i = None" for i
    by (simp add: settled_def mem_empty_def)
  from restart [of sample_ahash] have "\<exists>sv3. serve sample_sha ?ops record_tx False 0 [\<lparr>req_cmd = Get ''k'', req_peer_addr = None\<rparr>]
      (bt_server (sample_restart (mem_drain (ts_db (sv_store sv2))))) = Inr sv3 \<and> sv_responses sv3 = [BulkString (Some [72, 105])]"
    by auto
  moreover from restart [of rekeyed_ahash] fresh rekeyed_entity
  have "\<exists>sv4. serve sample_sha (tiered_ops (mem_cddb 4) sample_sha rekeyed_ahash mem_drain) record_tx False 0
      [\<lparr>req_cmd = Get ''k'', req_peer_addr = None\<rparr>] (bt_server (sample_restart (mem_drain (ts_db (sv_store sv2))))) = Inr sv4 \<and>
      sv_responses sv4 = [BulkString None]"
    by (auto simp del: serve.simps)
  ultimately show ?thesis using sv2 by auto
qed

end
