(* ===== verification/Fast_Path.thy ===== *)
theory Fast_Path
  imports Tiered_Store
begin

text \<open>
  \<open>get_record_from_route\<close> (src/src/storage.rs) against its specification: the read path that goes
  through cached column pointers returns the same as a look-up of the committed row, for any
  sequence of reads on any routes. What it relies on in cdDB is stated as \<open>column_laws\<close>: a
  partition's columns stay at their addresses, and the entity pointer of a committed row leads
  to the row's elements in them. The proof rests on the invariant that cached column pointers
  belong to the cached route, which is why both functions must reset them when the route changes.
\<close>

section \<open>What the code relies on\<close>

text \<open>\<open>cp\<close>, \<open>ce\<close> and \<open>ct\<close> give the addresses of the three columns of a route.\<close>

definition columns_stay ::
  "('db, 'qs) cddb_columns \<Rightarrow> ('db \<Rightarrow> arc \<Rightarrow> usize \<rightharpoonup> row) \<Rightarrow> (arc \<Rightarrow> arc) \<Rightarrow> (arc \<Rightarrow> arc) \<Rightarrow> (arc \<Rightarrow> arc) \<Rightarrow> bool"
  where
  "columns_stay cd rows cp ce ct \<longleftrightarrow>
     (\<forall>db rt w.
        (\<forall>c. cd_get_column_blob cd db rt ''payload'' w = Some c \<longrightarrow> c = cp rt) \<and>
        (\<forall>c. cd_get_column_int cd db rt ''epoch'' w = Some c \<longrightarrow> c = ce rt) \<and>
        (\<forall>c. cd_get_column_int cd db rt ''type'' w = Some c \<longrightarrow> c = ct rt) \<and>
        (rows db rt \<noteq> Map.empty \<longrightarrow>
           cd_get_column_blob cd db rt ''payload'' w \<noteq> None \<and>
           cd_get_column_int cd db rt ''epoch'' w \<noteq> None \<and> cd_get_column_int cd db rt ''type'' w \<noteq> None))"

definition pointers_lead_to_rows ::
  "('db, 'qs) cddb_columns \<Rightarrow> ('db \<Rightarrow> arc \<Rightarrow> usize \<rightharpoonup> row) \<Rightarrow> (arc \<Rightarrow> arc) \<Rightarrow> (arc \<Rightarrow> arc) \<Rightarrow> (arc \<Rightarrow> arc) \<Rightarrow> bool"
  where
  "pointers_lead_to_rows cd rows cp ce ct \<longleftrightarrow>
     (\<forall>db rt i. case rows db rt i of
        None \<Rightarrow> cd_shared_pointer cd db rt i = None
      | Some (e, t, p) \<Rightarrow>
          (\<exists>ptr a b c. cd_shared_pointer cd db rt i = Some ptr \<and>
             ptr ''payload'' = Some a \<and> ptr ''epoch'' = Some b \<and> ptr ''type'' = Some c \<and>
             cd_blob_element cd db (cp rt) a = Some p \<and> cd_int_element cd db (ce rt) b = Some e \<and>
             cd_int_element cd db (ct rt) c = Some t))"

definition reads_keep_rows :: "('db, 'qs) cddb_columns \<Rightarrow> ('db \<Rightarrow> arc \<Rightarrow> usize \<rightharpoonup> row) \<Rightarrow> bool" where
  "reads_keep_rows cd rows \<longleftrightarrow>
     (\<forall>db rt i. rows (snd (cd_register_worker cd db rt)) = rows db \<and>
        rows (cd_track_hit cd db rt i) = rows db \<and>
        cd_blob_element cd (cd_track_hit cd db rt i) = cd_blob_element cd db \<and>
        cd_int_element cd (cd_track_hit cd db rt i) = cd_int_element cd db)"

definition column_laws ::
  "('db, 'qs) cddb_columns \<Rightarrow> ('db \<Rightarrow> arc \<Rightarrow> usize \<rightharpoonup> row) \<Rightarrow> (arc \<Rightarrow> arc) \<Rightarrow> (arc \<Rightarrow> arc) \<Rightarrow> (arc \<Rightarrow> arc) \<Rightarrow> bool"
  where
  "column_laws cd rows cp ce ct \<longleftrightarrow>
     columns_stay cd rows cp ce ct \<and> pointers_lead_to_rows cd rows cp ce ct \<and> reads_keep_rows cd rows"

section \<open>The invariant\<close>

definition cols_wf :: "(arc \<Rightarrow> arc) \<Rightarrow> (arc \<Rightarrow> arc) \<Rightarrow> (arc \<Rightarrow> arc) \<Rightarrow> tls_worker_cache \<Rightarrow> bool" where
  "cols_wf cp ce ct tls \<longleftrightarrow>
     col_payload tls \<in> {None, Some (cp (tls_key tls))} \<and>
     col_epoch tls \<in> {None, Some (ce (tls_key tls))} \<and>
     col_type tls \<in> {None, Some (ct (tls_key tls))}"

text \<open>A thread state ready for a read on \<open>route\<close>: rows as given, a worker cached, columns of the route.\<close>

definition ready ::
  "('db \<Rightarrow> arc \<Rightarrow> usize \<rightharpoonup> row) \<Rightarrow> (arc \<Rightarrow> arc) \<Rightarrow> (arc \<Rightarrow> arc) \<Rightarrow> (arc \<Rightarrow> arc) \<Rightarrow> (arc \<Rightarrow> usize \<rightharpoonup> row) \<Rightarrow> arc \<Rightarrow>
   'db thread_state \<Rightarrow> bool" where
  "ready rows cp ce ct rws route th \<longleftrightarrow>
     rows (th_db th) = rws \<and> tls_key (th_tls th) = route \<and> tls_worker (th_tls th) \<noteq> None \<and>
     cols_wf cp ce ct (th_tls th)"

lemma cols_wf_init [simp]: "cols_wf cp ce ct tls_init" and cols_wf_switch [simp]: "cols_wf cp ce ct (tls_switch r w)"
  by (simp_all add: cols_wf_def tls_init_def tls_switch_def)

lemma ensure_route_ready:
  assumes "column_laws cd rows cp ce ct" and "tls_wf (th_tls th)" and "cols_wf cp ce ct (th_tls th)" and "route \<noteq> 0"
  shows "ready rows cp ce ct (rows (th_db th)) route (ensure_route cd route th)"
proof -
  have "rows (snd (cd_register_worker cd (th_db th) route)) = rows (th_db th)"
    using assms(1) by (simp add: column_laws_def reads_keep_rows_def)
  with assms(2-4) show ?thesis
    by (auto simp: ensure_route_def ready_def tls_wf_def split: prod.splits)
qed

lemma ensure_payload_ready:
  assumes "column_laws cd rows cp ce ct" and "ready rows cp ce ct rws route th"
  shows "\<exists>th'. ensure_payload cd route th = Inr th' \<and> ready rows cp ce ct rws route th' \<and>
    (rws route \<noteq> Map.empty \<longrightarrow> col_payload (th_tls th') = Some (cp route))"
  using assms
  by (fastforce simp: ensure_payload_def fetch_column_def ready_def cols_wf_def column_laws_def columns_stay_def
      pin_call_def Let_def)

lemma ensure_epoch_ready:
  assumes "column_laws cd rows cp ce ct" and "ready rows cp ce ct rws route th"
  shows "\<exists>th'. ensure_epoch cd route th = Inr th' \<and> ready rows cp ce ct rws route th' \<and>
    (rws route \<noteq> Map.empty \<longrightarrow> col_epoch (th_tls th') = Some (ce route)) \<and>
    col_payload (th_tls th') = col_payload (th_tls th)"
  using assms
  by (fastforce simp: ensure_epoch_def fetch_column_def ready_def cols_wf_def column_laws_def columns_stay_def
      pin_call_def Let_def)

lemma ensure_type_ready:
  assumes "column_laws cd rows cp ce ct" and "ready rows cp ce ct rws route th"
  shows "\<exists>th'. ensure_type cd route th = Inr th' \<and> ready rows cp ce ct rws route th' \<and>
    (rws route \<noteq> Map.empty \<longrightarrow> col_type (th_tls th') = Some (ct route)) \<and>
    col_payload (th_tls th') = col_payload (th_tls th) \<and> col_epoch (th_tls th') = col_epoch (th_tls th)"
  using assms
  by (fastforce simp: ensure_type_def fetch_column_def ready_def cols_wf_def column_laws_def columns_stay_def
      pin_call_def Let_def)

lemma pointer_cases:
  assumes "column_laws cd rows cp ce ct"
  shows "case rows db rt i of
        None \<Rightarrow> cd_shared_pointer cd db rt i = None
      | Some (e, t, p) \<Rightarrow>
          (\<exists>ptr a b c. cd_shared_pointer cd db rt i = Some ptr \<and>
             ptr ''payload'' = Some a \<and> ptr ''epoch'' = Some b \<and> ptr ''type'' = Some c \<and>
             cd_blob_element cd db (cp rt) a = Some p \<and> cd_int_element cd db (ce rt) b = Some e \<and>
             cd_int_element cd db (ct rt) c = Some t)"
  using assms unfolding column_laws_def pointers_lead_to_rows_def by blast

lemma pinned_read_row:
  assumes "column_laws cd rows cp ce ct"
  shows "\<exists>th'. pinned_read cd route i w (cp route) (ce route) (ct route) th =
      (map_option row_record (rows (th_db th) route i), th') \<and>
    rows (th_db th') = rows (th_db th) \<and> th_tls th' = th_tls th"
proof -
  have keep: "rows (cd_track_hit cd (th_db th) route i) = rows (th_db th)"
    "cd_blob_element cd (cd_track_hit cd (th_db th) route i) = cd_blob_element cd (th_db th)"
    "cd_int_element cd (cd_track_hit cd (th_db th) route i) = cd_int_element cd (th_db th)"
    using assms by (simp_all add: column_laws_def reads_keep_rows_def)
  show ?thesis
    using pointer_cases [OF assms, of "th_db th" route i]
    by (auto simp: pinned_read_def read_columns_def row_record_def keep split: option.splits)
qed

lemma get_record_from_route_row:
  assumes laws: "column_laws cd rows cp ce ct" and "route \<noteq> 0"
    and "tls_wf (th_tls th)" and "cols_wf cp ce ct (th_tls th)"
  shows "\<exists>th'. get_record_from_route cd route i th = Inr (map_option row_record (rows (th_db th) route i), th') \<and>
    rows (th_db th') = rows (th_db th) \<and> tls_wf (th_tls th') \<and> cols_wf cp ce ct (th_tls th')"
proof -
  let ?rws = "rows (th_db th)"
  obtain th1 where 1: "ensure_payload cd route (ensure_route cd route th) = Inr th1" "ready rows cp ce ct ?rws route th1"
    "?rws route \<noteq> Map.empty \<longrightarrow> col_payload (th_tls th1) = Some (cp route)"
    using ensure_payload_ready [OF laws ensure_route_ready [OF laws assms(3,4,2)]] by blast
  obtain th2 where 2: "ensure_epoch cd route th1 = Inr th2" "ready rows cp ce ct ?rws route th2"
    "?rws route \<noteq> Map.empty \<longrightarrow> col_epoch (th_tls th2) = Some (ce route)" "col_payload (th_tls th2) = col_payload (th_tls th1)"
    using ensure_epoch_ready [OF laws 1(2)] by blast
  obtain th3 where 3: "ensure_type cd route th2 = Inr th3" "ready rows cp ce ct ?rws route th3"
    "?rws route \<noteq> Map.empty \<longrightarrow> col_type (th_tls th3) = Some (ct route)"
    "col_payload (th_tls th3) = col_payload (th_tls th2)" "col_epoch (th_tls th3) = col_epoch (th_tls th2)"
    using ensure_type_ready [OF laws 2(2)] by blast
  have run: "get_record_from_route cd route i th = read_resolved cd route i th3"
    by (simp add: get_record_from_route_def 1(1) 2(1) 3(1))
  obtain w where w: "tls_worker (th_tls th3) = Some w" and wf3: "tls_wf (th_tls th3)" "cols_wf cp ce ct (th_tls th3)"
    and rows3: "rows (th_db th3) = ?rws" and key: "tls_key (th_tls th3) = route"
    using 3(2) by (auto simp: ready_def tls_wf_def)
  show ?thesis
  proof (cases "col_payload (th_tls th3) = None \<or> col_epoch (th_tls th3) = None \<or> col_type (th_tls th3) = None")
    case True
    then have "?rws route = Map.empty" using 1(3) 2(3,4) 3(3-5) by auto
    with True show ?thesis
      using wf3 rows3 by (auto simp: run read_resolved_def split: option.splits)
  next
    case False
    then have "col_payload (th_tls th3) = Some (cp route)" "col_epoch (th_tls th3) = Some (ce route)"
      "col_type (th_tls th3) = Some (ct route)"
      using wf3(2) key by (auto simp: cols_wf_def)
    then show ?thesis
      using pinned_read_row [OF laws, of route i w th3] wf3 rows3 w by (auto simp: run read_resolved_def)
  qed
qed

section \<open>Properties\<close>

text \<open>A thread's reads, one after the other.\<close>

fun read_all ::
  "('db, 'qs) cddb_columns \<Rightarrow> (arc \<times> usize) list \<Rightarrow> 'db thread_state \<Rightarrow>
   (('e::len) word signed_record option list \<times> 'db thread_state) res" where
  "read_all cd [] th = Inr ([], th)"
| "read_all cd ((rt, i) # qs) th =
     bind_res (get_record_from_route cd rt i th) (\<lambda>(x, th1).
     bind_res (read_all cd qs th1) (\<lambda>(xs, th2). Inr (x # xs, th2)))"

lemma read_all_rows:
  assumes "column_laws cd rows cp ce ct" and "tls_wf (th_tls th)" and "cols_wf cp ce ct (th_tls th)"
    and "0 \<notin> fst ` set qs"
  shows "\<exists>th'. read_all cd qs th =
    Inr (map (\<lambda>(rt, i). map_option row_record (rows (th_db th) rt i)) qs :: ('e::len) word signed_record option list, th')"
  using assms(2-4)
proof (induction qs arbitrary: th)
  case Nil
  then show ?case by simp
next
  case (Cons q qs)
  obtain rt i where q: "q = (rt, i)" by (cases q)
  obtain th1 where th1: "get_record_from_route cd rt i th =
      Inr (map_option row_record (rows (th_db th) rt i) :: 'e word signed_record option, th1)"
    "rows (th_db th1) = rows (th_db th)" "tls_wf (th_tls th1)" "cols_wf cp ce ct (th_tls th1)"
    using get_record_from_route_row [OF assms(1)] Cons.prems q by fastforce
  then show ?case using Cons.IH [OF th1(3,4)] Cons.prems(3) q by auto
qed

text \<open>
  C12: The cached read path is correct: starting from an empty thread-local cache, any sequence of
  \<open>get_record_from_route\<close> calls, on any routes in any order, returns for every call exactly the
  committed row of the entity in the partition of that route (\<open>None\<close> when there is none), as a
  record with a zeroed signature: column pointers cached for one route are never used on another.
\<close>

theorem get_record_from_route_reads_committed_rows:
  assumes "column_laws cd rows cp ce ct" and "th_tls th = tls_init" and "0 \<notin> fst ` set qs"
  shows "\<exists>th'. read_all cd qs th =
    Inr (map (\<lambda>(rt, i). case rows (th_db th) rt i of
           None \<Rightarrow> None
         | Some (e, t, p) \<Rightarrow> Some \<lparr>epoch_id = ucast e, payload = p, judge_signature = array_splat 0,
                                  record_type = t\<rparr>) qs :: ('e::len) word signed_record option list, th')"
proof -
  have "(map_option row_record x :: 'e word signed_record option) = (case x of None \<Rightarrow> None
      | Some (e, t, p) \<Rightarrow> Some \<lparr>epoch_id = ucast e, payload = p, judge_signature = array_splat 0, record_type = t\<rparr>)" for x
    by (auto simp: row_record_def split: option.splits)
  note as_record = this
  have "tls_wf (th_tls th)" and "cols_wf cp ce ct (th_tls th)" by (simp_all add: assms(2))
  from read_all_rows [OF assms(1) this assms(3), where 'e = 'e] show ?thesis unfolding as_record .
qed

text \<open>Two partitions, at the routes 2 and 3, in one in-memory database.\<close>

record two_db =
  two_a :: "(usize \<times> row) list"
  two_b :: "(usize \<times> row) list"
  two_workers :: nat

definition two_lookup :: "two_db \<Rightarrow> arc \<Rightarrow> usize \<rightharpoonup> row" where
  "two_lookup db rt = (if rt = 2 then map_of (two_a db) else if rt = 3 then map_of (two_b db) else Map.empty)"

definition two_col :: "arc \<Rightarrow> arc \<Rightarrow> arc" where
  "two_col k rt = (if rt = 2 then k else k + 1)"

definition two_columns :: "(two_db, unit) cddb_columns" where
  "two_columns =
     \<lparr>cd_register_partition = (\<lambda>db p. (1, db)),
      cd_register_partition_with_wal = (\<lambda>db p wal. (1, db)),
      cd_get_route = (\<lambda>db p. Some 2),
      cd_try_send = (\<lambda>db wr c. (False, db)),
      cd_register_worker = (\<lambda>db rt. (of_nat (two_workers db), db\<lparr>two_workers := Suc (two_workers db)\<rparr>)),
      cd_query_session = (\<lambda>db rt w. ()),
      cd_get_blob = (\<lambda>s i a. None), cd_get_int = (\<lambda>s i a. None), cd_entities_iter = (\<lambda>s. []),
      cd_get_column_blob = (\<lambda>db rt a w. Some rt),
      cd_get_column_int = (\<lambda>db rt a w. Some (two_col (if a = ''epoch'' then 10 else 20) rt)),
      cd_shared_pointer = (\<lambda>db rt i. if two_lookup db rt i = None then None else Some (\<lambda>a. Some i)),
      cd_track_hit = (\<lambda>db rt i. db),
      cd_blob_element = (\<lambda>db c i. map_option (\<lambda>(e, t, p). p) (two_lookup db c i)),
      cd_int_element = (\<lambda>db c i.
         if c = 10 then map_option (\<lambda>(e, t, p). e) (map_of (two_a db) i)
         else if c = 11 then map_option (\<lambda>(e, t, p). e) (map_of (two_b db) i)
         else if c = 20 then map_option (\<lambda>(e, t, p). t) (map_of (two_a db) i)
         else map_option (\<lambda>(e, t, p). t) (map_of (two_b db) i))\<rparr>"

lemma two_columns_laws: "column_laws two_columns two_lookup (\<lambda>rt. rt) (two_col 10) (two_col 20)"
proof -
  have "columns_stay two_columns two_lookup (\<lambda>rt. rt) (two_col 10) (two_col 20)"
    by (simp add: columns_stay_def two_columns_def)
  moreover have "pointers_lead_to_rows two_columns two_lookup (\<lambda>rt. rt) (two_col 10) (two_col 20)"
    by (auto simp: pointers_lead_to_rows_def two_columns_def two_lookup_def two_col_def split: option.splits)
  moreover have "reads_keep_rows two_columns two_lookup"
    by (simp add: reads_keep_rows_def two_columns_def two_lookup_def fun_eq_iff)
  ultimately show ?thesis by (simp add: column_laws_def)
qed

theorem get_record_from_route_reads_committed_rows_witness:
  "\<exists>th'. read_all two_columns [(2, 5), (3, 5), (2, 6)]
      \<lparr>th_tls = tls_init, th_db = \<lparr>two_a = [(5, 1, 100, [7])], two_b = [(5, 2, 100, [8])], two_workers = 0\<rparr>, th_pins = []\<rparr> =
    Inr ([Some \<lparr>epoch_id = 1 :: u64, payload = [7], judge_signature = array_splat 0, record_type = 100\<rparr>,
          Some \<lparr>epoch_id = 2, payload = [8], judge_signature = array_splat 0, record_type = 100\<rparr>, None], th')"
  using get_record_from_route_reads_committed_rows [OF two_columns_laws, of
      "\<lparr>th_tls = tls_init, th_db = \<lparr>two_a = [(5, 1, 100, [7])], two_b = [(5, 2, 100, [8])], two_workers = 0\<rparr>, th_pins = []\<rparr>"
      "[(2, 5), (3, 5), (2, 6)]", where 'e = 64]
  by (simp add: two_lookup_def del: read_all.simps)

end
