(* ===== verification/Unit_Tests.thy ===== *)
theory Unit_Tests
  imports Tiered_Store
begin

text \<open>
  The unit tests of src/src/storage.rs, run on the model: each test is a function that gives \<open>Inr ()\<close> when it
  passes and a panic when an assertion or an \<open>unwrap\<close> fails. Epoch ids are 64-bit here; the database of the
  second test is a parameter. Shown: both tests pass, the second one exactly because \<open>flush\<close> sleeps long
  enough for the database to commit.
\<close>

section \<open>The tests\<close>

text \<open>\<open>assert_eq!(a, b)\<close>\<close>

definition assert_eq :: "'a \<Rightarrow> 'a \<Rightarrow> unit res" where
  "assert_eq a b = (if a = b then Inr () else Inl Assertion_Failed)"

lemma assert_eq_same [simp]: "assert_eq a a = Inr ()"
  by (simp add: assert_eq_def)

definition test_cached :: "64 word \<Rightarrow> bytes \<Rightarrow> 64 word cached_record" where
  "test_cached e p =
     \<lparr>cached_epoch_id = e, cached_record_type = 100, cached_judge_signature = array_splat 0, cached_payload = p\<rparr>"

definition test_global_hot_index :: "unit res" where
  "test_global_hot_index =
     bind_res (hot_index_new 4) (\<lambda>index.
     bind_res (hot_index_set index 5 (test_cached 1 [1, 2, 3])) (\<lambda>index.
     bind_res (hot_index_get index 5) (\<lambda>x.
     bind_res (unwrap x) (\<lambda>fetched.
     bind_res (assert_eq (cached_epoch_id fetched) 1) (\<lambda>_.
     bind_res (hot_index_set index 9 (test_cached 2 [4, 5, 6])) (\<lambda>index.
     bind_res (hot_index_get index 5) (\<lambda>x.
     bind_res (unwrap x) (\<lambda>fetched2.
       assert_eq (cached_epoch_id fetched2) 2))))))))"

definition test_signed :: "64 word signed_record" where
  "test_signed = \<lparr>epoch_id = 42, payload = [1, 2, 3], judge_signature = array_splat 0, record_type = 10\<rparr>"

definition test_tiered_get_by_epoch ::
  "('db, 'qs) cddb \<Rightarrow> (bytes \<Rightarrow> hash32) \<Rightarrow> (bytes \<Rightarrow> u64) \<Rightarrow> ('db \<Rightarrow> 'db) \<Rightarrow> 'db \<Rightarrow> tls_worker_cache \<Rightarrow> unit res" where
  "test_tiered_get_by_epoch cd sha256 ahash background db tls =
     bind_res (tiered_new cd (array_splat 0) 512 db tls ''test'' None) (\<lambda>store.
     bind_res (tiered_apply_signed_record cd sha256 ahash store test_signed) (\<lambda>store.
     case tiered_get_by_epoch cd (tiered_flush background store) 42 of
       (records, store) \<Rightarrow>
         bind_res (assert_eq (length records) 1) (\<lambda>_.
         bind_res (index records 0) (\<lambda>r.
           assert_eq (payload r) [1, 2, 3]))))"

section \<open>Lemmas\<close>

lemma hot_index_new_4: "hot_index_new 4 = Inr \<lparr>table = [None, None, None, None], idx_mask = 3\<rparr>"
proof -
  have "is_power_of_two (4 :: usize)"
    unfolding is_power_of_two_iff by (intro exI [of _ 2]) simp
  moreover have "replicate 4 None = [None, None, None, None]" by (simp add: eval_nat_numeral)
  ultimately show ?thesis by (simp add: hot_index_new_def push_empties_eq)
qed

lemma hot_test_passes: "test_global_hot_index = Inr ()"
  by (simp add: test_global_hot_index_def hot_index_new_4 hot_index_set_def hot_index_get_def hot_slot_def
      test_cached_def assign_def index_def)

text \<open>What \<open>get_by_epoch\<close> returns when the partition has no row, or only the row of the test.\<close>

lemma by_epoch_none:
  assumes "cddb_laws cd rows pending drain" and "rows (ts_db st) = Map.empty"
  shows "fst (tiered_get_by_epoch cd (st :: ('db, 64 word) tiered_store) 42) = []"
  using by_epoch_exact [OF assms(1), of st 42] assms(2) by auto

lemma by_epoch_one:
  assumes "cddb_laws cd rows pending drain" and "rows (ts_db st) = [i \<mapsto> (42, 10, [1, 2, 3])]"
  shows "fst (tiered_get_by_epoch cd (st :: ('db, 64 word) tiered_store) 42) = [test_signed]"
proof -
  have "{j. \<exists>e t p. rows (ts_db st) j = Some (e, t, p) \<and> ucast e = (42 :: 64 word)} = {i}"
    using assms(2) by (auto split: if_splits)
  then obtain ids where ids: "distinct ids" "set ids = {i}"
    "fst (tiered_get_by_epoch cd st 42) = map (\<lambda>j. row_record (the (rows (ts_db st) j))) ids"
    using by_epoch_exact [OF assms(1), of st 42] by auto
  then have "ids = [i]" by (cases ids; cases "tl ids") auto
  with ids(3) assms(2) show ?thesis by (simp add: row_record_def test_signed_def)
qed

text \<open>The second test, once the store is built and the record applied.\<close>

lemma epoch_test_eq:
  assumes "tiered_new cd (array_splat 0) 512 db tls ''test'' None = Inr st"
    and "tiered_apply_signed_record cd sha256 ahash st test_signed = Inr st1"
  shows "test_tiered_get_by_epoch cd sha256 ahash background db tls =
    (case fst (tiered_get_by_epoch cd (tiered_flush background st1) 42) of
       [r] \<Rightarrow> assert_eq (payload r) [1, 2, 3] | _ \<Rightarrow> Inl Assertion_Failed)"
  by (auto simp: test_tiered_get_by_epoch_def assms assert_eq_def index_def split: prod.splits list.splits)

section \<open>The tests pass\<close>

text \<open>
  The repository's own unit tests pass on the model, for every database that keeps its laws: on a new
  partition that accepts the write, the epoch test passes when the dispatcher works off its queue during the sleep of \<open>flush\<close>;
  \<open>flush\<close> itself waits for nothing, and had the dispatcher not run by then, the test would panic.
\<close>

lemma unit_tests_pass_if_flush_sleeps_long_enough:
  assumes "cddb_laws cd rows pending drain" and "tls_wf tls"
    and "cd_register_partition_with_wal cd db ''test'' None = (writer, db1)" and "cd_get_route cd db1 ''test'' = Some route"
    and "rows db1 = Map.empty" and "pending db1 = []"
    and "fst (cd_try_send cd db1 writer (insert_command sha256 ahash test_signed))"
  shows "test_global_hot_index = Inr () \<and>
    test_tiered_get_by_epoch cd sha256 ahash drain db tls = Inr () \<and>
    test_tiered_get_by_epoch cd sha256 ahash (\<lambda>db. db) db tls = Inl Assertion_Failed"
proof -
  let ?c = "insert_command sha256 ahash test_signed"
  obtain st :: "('a, 64 word) tiered_store" where
    st: "tiered_new cd (array_splat 0) 512 db tls ''test'' None = Inr st" "ts_db st = db1" "ts_writer st = writer"
    by (simp add: tiered_new_def assms(3,4) hot_index_new_store)
  note wf = tiered_new_wf(1) [OF st(1) assms(2)]
  obtain st1 where st1: "tiered_apply_signed_record cd sha256 ahash st test_signed = Inr st1"
    using tiered_apply_total [OF wf] by blast
  have db: "ts_db st1 = snd (cd_try_send cd db1 writer ?c)" using tiered_apply_db [OF wf st1] st(2,3) by simp
  have "rows (ts_db st1) = Map.empty" "pending (ts_db st1) = [?c]"
    using try_send_rows [OF assms(1) prod.collapse [symmetric], of db1 writer ?c] assms(5-7) db by simp_all
  moreover from this have "rows (drain (ts_db st1)) = [cmd_entity_id ?c \<mapsto> (42, 10, [1, 2, 3])]"
    using drain_rows [OF assms(1)] by (simp add: commit_def insert_command_def test_signed_def)
  ultimately have "fst (tiered_get_by_epoch cd (tiered_flush drain st1) 42) = [test_signed]"
    "fst (tiered_get_by_epoch cd (tiered_flush (\<lambda>db. db) st1) 42) = []"
    by (simp_all add: tiered_flush_def by_epoch_one [OF assms(1)] by_epoch_none [OF assms(1)])
  then show ?thesis
    by (simp add: hot_test_passes epoch_test_eq [OF st(1) st1] test_signed_def)
qed

end
