(* ===== verification/Test_Resp.thy ===== *)
theory Test_Resp
  imports Rust_Std
begin

text \<open>
  The \<open>test_resp\<close> binary (src/src/bin/test_resp.rs), which runs the RESP parser on one command and prints what it
  returns. The parser and the debug formatting of its values belong to other crates and are parameters.
  Shown: the input is the RESP array of the three bulk strings \<open>PUT\<close>, \<open>mykey\<close>, \<open>myval\<close>, so a parser that reads
  back such arrays makes the binary report success.
\<close>

abbreviation crlf :: string where
  "crlf \<equiv> [CHR 0x0D, CHR 0x0A]"

definition test_resp_input :: bytes where
  "test_resp_input = as_bytes (''*3'' @ crlf @ ''$3'' @ crlf @ ''PUT'' @ crlf @ ''$5'' @ crlf @ ''mykey'' @ crlf @
     ''$5'' @ crlf @ ''myval'' @ crlf)"

text \<open>\<open>main\<close>: the lines it prints.\<close>

definition test_resp_main ::
  "(bytes \<Rightarrow> 'err + 'frame \<times> bytes) \<Rightarrow> ('frame \<Rightarrow> string) \<Rightarrow> (bytes \<Rightarrow> string) \<Rightarrow> ('err \<Rightarrow> string) \<Rightarrow> string list" where
  "test_resp_main parse_frame show_frame show_bytes show_err =
     (case parse_frame test_resp_input of
        Inr (frame, remaining) \<Rightarrow> [''Success! Frame: '' @ show_frame frame, ''Remaining bytes: '' @ show_bytes remaining]
      | Inl e \<Rightarrow> [''Error: '' @ show_err e])"

text \<open>How the protocol writes an array of bulk strings.\<close>

definition resp_bulk :: "string \<Rightarrow> string" where
  "resp_bulk s = ''$'' @ decimal (length s) @ crlf @ s @ crlf"

definition resp_array :: "string list \<Rightarrow> bytes" where
  "resp_array ss = as_bytes (''*'' @ decimal (length ss) @ crlf @ concat (map resp_bulk ss))"

lemma decimal_digit: "n < 10 \<Longrightarrow> decimal n = [char_of (48 + n)]"
  by (simp add: decimal.simps)

lemma test_resp_input_is_a_command: "test_resp_input = resp_array [''PUT'', ''mykey'', ''myval'']"
  by (simp add: test_resp_input_def resp_array_def resp_bulk_def decimal_digit char_of_def as_bytes_def bit_0)

lemma test_resp_reports_success:
  assumes "\<And>ss. parse_frame (resp_array ss) = Inr (frame_of ss, [])"
  shows "test_resp_main parse_frame show_frame show_bytes show_err =
    [''Success! Frame: '' @ show_frame (frame_of [''PUT'', ''mykey'', ''myval'']), ''Remaining bytes: '' @ show_bytes []]"
  by (simp add: test_resp_main_def test_resp_input_is_a_command assms)

end
