(* ===== verification/Spec2Isabelle.thy ===== *)
theory Spec2Isabelle
  imports Startup Workers Schedules Linearizability Durability Fast_Path Unit_Tests Test_Resp
begin

text \<open>
  ServerGo, verified: a Redis-protocol key-value server (Rust) whose records live in an
  in-memory index of atomic pointers in front of the columnar database cdDB, and whose \<open>vm:\<close> keys double as a command
  channel to microcontrollers on serial ports.

  The program, and the theory that models each part.

  \<^item> \<open>Prelude\<close>: fixed-width integers, results with panics, checked slices and arrays of a fixed
    length. \<open>Rust_Std\<close> and \<open>Net_Addr\<close>: the functions of Rust's standard library that the sources call
    (prefixes, ASCII case, hexadecimal and decimal numbers; the parser of socket addresses).
  \<^item> \<open>Hot_Index\<close>: \<open>GlobalHotIndex\<close> (src/src/storage.rs), the direct-mapped array of record pointers,
    with \<open>new\<close>, \<open>get\<close> and \<open>set\<close>. Its contract is the locale \<open>direct_mapped\<close>.
  \<^item> \<open>Records\<close>: \<open>SignedRecord\<close> and \<open>CachedRecord\<close>, the content hash and the entity id, the metrics of
    src/src/metrics.rs. The width of an epoch id belongs to another crate and is a type parameter.
  \<^item> \<open>Cddb\<close>: the database as the storage code calls it, a record of operations that every definition
    takes as an argument, and \<open>cddb_laws\<close>, what some theorems assume of it; an in-memory database
    shows that the laws can hold.
  \<^item> \<open>Worker_Cache\<close>: the thread-local \<open>WORKER_CACHE\<close>, \<open>get_worker\<close> and \<open>get_record_from_route\<close>, with the
    log of pins taken and released. \<open>Fast_Path\<close>: \<open>get_record_from_route\<close> against the committed rows.
  \<^item> \<open>State_Store\<close>: the \<open>StateStore\<close> trait as a record of operations, its calls as a step relation, and
    the locales \<open>total_store\<close> (no panic, well-formedness kept) and \<open>cached_store\<close> (the last write
    to a slot is read back).
  \<^item> \<open>Pure_Store\<close> and \<open>Tiered_Store\<close>: \<open>PureCacheStore\<close>, \<open>TieredStore\<close> and \<open>MockStore\<close> with all trait
    operations, each an interpretation of the locales. \<open>Tiered_Store\<close> also relates the index to the
    database: what a read past the index finds, what is lost, what \<open>get_by_epoch\<close> returns.
  \<^item> \<open>Interleaving\<close>: concurrent \<open>apply_signed_record\<close> calls of several threads on one tiered store, as a
    step relation over the two atomic halves of a write and the database's commits.
  \<^item> \<open>Executor_Steps\<close>: \<open>L2Executor::get\<close> and \<open>put\<close> taken apart into their atomic actions (the counters, the
    load and the store of an index pointer, taking a worker, the session read, the \<open>try_send\<close>, the spawn of the broadcast), run by
    parallel threads that each have a worker cache. Lemmas: without interruption the actions are the
    functions of \<open>L2_Executor\<close>; no action panics; a thread registers with the database at most once, and only there can it have
    to wait for a lock; the counters add up.
  \<^item> \<open>Linearizability\<close>: these calls against a sequential specification, an array of registers over the rows
    recovered from the database: every call takes effect at one point between its call and its return, so
    a read is never older than a write that had returned before it was called.
  \<^item> \<open>L2_Executor\<close>: \<open>L2Executor::get\<close> and \<open>put\<close>, and their refinement of a map from keys to values
    (locale \<open>exact_store\<close>).
  \<^item> \<open>Gateway\<close>: the request handlers of src/src/main.rs, with the guard of VM scripts, the parsing of MAC
    addresses and the forwarding to the serial channels, and both receive loops, one request after the other.
  \<^item> \<open>Tasks\<close>: the same handlers as tasks of several workers under any scheduler, a step relation with one rule
    per piece of code between two await points; the bounded channels, arriving requests and serial devices are its
    environment. Locales \<open>worker_stores\<close> and \<open>cached_workers\<close> say what the tasks need of the store. Lemmas: the
    invariant, a measure of the work left, progress, order, and who sees an acknowledged write.
  \<^item> \<open>Threads\<close>: the tiered store with one worker cache per thread, an interpretation of those locales.
    \<open>Schedules\<close>: the properties of every schedule that starts where \<open>main\<close> leaves off, and that the
    sequential server is one of them.
  \<^item> \<open>Snapshot\<close>: the \<open>snapshot\<close> and \<open>restore\<close> commands on a model of the file system.
  \<^item> \<open>Startup\<close>: settings and their defaults, governance modes, node identity, and \<open>main\<close> up to the
    worker loops, in the builds with tiered storage, with the pure cache and with neither; the attempt to
    install the system call filter.
  \<^item> \<open>Durability\<close>: what request handlers leave in the database, and a second process that starts on it with its own
    hash keys: which acknowledged writes it can read, and which it cannot find any more.
  \<^item> \<open>Workers\<close>: the worker threads up to their listeners and the loop that joins them; the macOS build. Which
    \<open>bind\<close> settings work, with the text of IPv4 and IPv6 addresses read back by the parser of \<open>Net_Addr\<close>.
  \<^item> \<open>Unit_Tests\<close>: the tests at the end of src/src/storage.rs as functions of the model. \<open>Test_Resp\<close>: the
    \<open>test_resp\<close> binary.
  \<^item> This theory: properties of the server as a whole, from the command line to the responses.

  State and effects. A struct is a record, a method a function that returns the updated state; a
  panic (\<open>unwrap\<close>, slice bounds, \<open>assert\<close>) is the left of a sum, an early return by \<open>?\<close> a branch. The
  store state carries the database and the calling thread's worker cache, which \<open>Threads\<close> exchanges when
  another thread calls. Counters count without wrapping. An \<open>Arc\<close> to an object of cdDB is its address.

  Parameters. cdDB, the SHA-256 and AHash functions, the serial channels, path resolution, the
  command-line parser, key parsing, the opening of databases and serial ports, socket calls, how the gateway's
  run ends, and whether telemetry, system call filter and endpoint come up are arguments of the definitions.
  AHash is one function within a process; \<open>AHasher::default()\<close> draws its keys anew in every process, so \<open>Durability\<close> has one
  function for each of its two processes. Whether the lock that registering a worker takes is free is a parameter, too (\<open>reg_free\<close>).
  Hypotheses about them are named (\<open>cddb_laws\<close>, \<open>column_laws\<close>, \<open>dispatcher_commits\<close>, \<open>recovered_from\<close>,
  \<open>ipv4_sockets_bind_ipv4\<close>) or stated in the theorem; every claim with hypotheses has a witness on concrete functions.

  Bounds. Every function of the model is total and no fuel is used: all loops run over lists (indices,
  entities, directory entries, requests). The tasks are a relation, so they may wait: that they come to an end is
  a theorem (at most \<open>n + 3\<close> steps for a request, with \<open>n\<close> serial channels), as is that they answer everything.
  Machine integers keep their width: entity ids are 64-bit words, the index mask is a bitwise and, epochs are
  cut to 32 bits where the source does.

  Not modelled. The inside of the tokio runtimes; the telemetry driver and what the kernel does with the
  system call filter; the iroh endpoint, gossip and the consensus node behind \<open>genesis\<close>, \<open>broadcast_record\<close> and
  \<open>add_peer\<close> (their calls are recorded, their effects are not; records that the node applies for its peers are actions in
  \<open>Executor_Steps\<close>, not in \<open>Tasks\<close>); the RESP parser and connections (crates resp_rs and
  io_oi_node); log output; src/src/lib.rs, which declares modules; scripts and packaging. A store call is one step of a task in \<open>Tasks\<close>; \<open>Linearizability\<close> shows that calls of parallel threads
  behave as if they were. The three columns of a cold read come from one session, which reads one state of the database.
\<close>

section \<open>Properties of the whole server\<close>

text \<open>
  C1: End to end, the server keeps what it acknowledges: whenever \<open>main\<close> brings the node up on a
  tiered store, then after any requests at all (none of which panics, each answered once) a
  \<open>SET\<close> of any key that is not addressed to a serial port is answered \<open>OK\<close> and the \<open>GET\<close> that follows
  returns exactly the bytes that were set. Keys that start with \<open>vm:\<close> are ordinary keys when no
  serial port is configured.
\<close>

theorem started_server_keeps_acknowledged_sets:
  assumes "main_tiered resolve cli tel_init seccomp bind_ok cd new_std parse_pk open_serial args fs = Inr (Started b)"
    and "\<not> starts_with key ''vm:'' \<or> sv_serial_txs (bt_server b) = []"
  shows "\<exists>sv' answers. serve sha256 (tiered_ops cd sha256 ahash background) tx_send (bt_vm_scripts b) worker
      (reqs @ [\<lparr>req_cmd = Put key val, req_peer_addr = p1\<rparr>, \<lparr>req_cmd = Get key, req_peer_addr = p2\<rparr>])
      (bt_server b) = Inr sv' \<and>
    length answers = length reqs \<and>
    sv_responses sv' = answers @ [SimpleString ''OK'', BulkString (Some val)]"
proof -
  have "tiered_wf (node_storage (sv_node (bt_server b)))" and "sv_responses (bt_server b) = []"
    using main_tiered_started [OF assms(1)] by (auto simp: start_node_def)
  with tiered.served_set_then_get [OF _ assms(2)] show ?thesis by fastforce
qed

theorem started_server_keeps_acknowledged_sets_witness:
  "\<exists>sv' answers. serve sample_sha sample_ops record_tx False 0
      [\<lparr>req_cmd = Ping, req_peer_addr = None\<rparr>, \<lparr>req_cmd = Put ''vm:k'' [72, 105], req_peer_addr = None\<rparr>,
       \<lparr>req_cmd = Get ''vm:k'', req_peer_addr = None\<rparr>]
      (bt_server (sample_booted empty_settings)) = Inr sv' \<and>
    length answers = 1 \<and> sv_responses sv' = answers @ [SimpleString ''OK'', BulkString (Some [72, 105])]"
proof -
  have "sv_serial_txs (bt_server (sample_booted empty_settings)) = []"
    and off: "bt_vm_scripts (sample_booted empty_settings) = False"
    by (simp_all add: sample_booted_simps)
  then have quiet: "\<not> starts_with ''vm:k'' ''vm:'' \<or> sv_serial_txs (bt_server (sample_booted empty_settings)) = []"
    by simp
  show ?thesis
    using started_server_keeps_acknowledged_sets [OF sample_main_started quiet, of sample_sha sample_ahash
      mem_drain record_tx 0 "[\<lparr>req_cmd = Ping, req_peer_addr = None\<rparr>]" "[72, 105]" None None]
    unfolding off append_Cons append_Nil list.size(3,4) by (simp only: add_0 One_nat_def)
qed

text \<open>
  C17: What the other two builds do with a \<open>SET\<close>: the pure-cache build returns exactly the acknowledged bytes
  to the \<open>GET\<close> that follows, after any requests; the build without a storage feature acknowledges the \<open>SET\<close> just the same
  and then answers the \<open>GET\<close> with nothing.
\<close>

theorem other_builds_acknowledge_every_set:
  "(main_pure resolve cli tel_init seccomp bind_ok cd new_with parse_pk open_serial args fs = Inr (Started b) \<and>
      (\<not> starts_with key ''vm:'' \<or> sv_serial_txs (bt_server b) = []) \<longrightarrow>
    (\<exists>sv' answers. serve sha256 (pure_store cd sha256 ahash) tx_send (bt_vm_scripts b) worker
        (reqs @ [\<lparr>req_cmd = Put key val, req_peer_addr = p1\<rparr>, \<lparr>req_cmd = Get key, req_peer_addr = p2\<rparr>])
        (bt_server b) = Inr sv' \<and>
      length answers = length reqs \<and> sv_responses sv' = answers @ [SimpleString ''OK'', BulkString (Some val)])) \<and>
   (main_mock resolve cli tel_init seccomp bind_ok parse_pk open_serial args fs = Inr (Started b') \<and>
      (\<not> starts_with key ''vm:'' \<or> sv_serial_txs (bt_server b') = []) \<longrightarrow>
    (\<exists>sv' answers. serve sha256 mock_store tx_send (bt_vm_scripts b') worker
        (reqs @ [\<lparr>req_cmd = Put key val, req_peer_addr = p1\<rparr>, \<lparr>req_cmd = Get key, req_peer_addr = p2\<rparr>])
        (bt_server b') = Inr sv' \<and>
      length answers = length reqs \<and> sv_responses sv' = answers @ [SimpleString ''OK'', BulkString None]))"
proof (intro conjI impI; elim conjE)
  assume main: "main_pure resolve cli tel_init seccomp bind_ok cd new_with parse_pk open_serial args fs = Inr (Started b)"
    and plain: "\<not> starts_with key ''vm:'' \<or> sv_serial_txs (bt_server b) = []"
  have "pure_wf (node_storage (sv_node (bt_server b)))" and "sv_responses (bt_server b) = []"
    using main_pure_started [OF main] by (auto simp: start_node_def)
  with pure.served_set_then_get [OF _ plain] show "\<exists>sv' answers. serve sha256 (pure_store cd sha256 ahash) tx_send
      (bt_vm_scripts b) worker
        (reqs @ [\<lparr>req_cmd = Put key val, req_peer_addr = p1\<rparr>, \<lparr>req_cmd = Get key, req_peer_addr = p2\<rparr>])
        (bt_server b) = Inr sv' \<and>
      length answers = length reqs \<and> sv_responses sv' = answers @ [SimpleString ''OK'', BulkString (Some val)]"
    by fastforce
next
  assume main: "main_mock resolve cli tel_init seccomp bind_ok parse_pk open_serial args fs = Inr (Started b')"
    and plain: "\<not> starts_with key ''vm:'' \<or> sv_serial_txs (bt_server b') = []"
  have "sv_responses (bt_server b') = []"
    using main_boot_started [OF main [unfolded main_mock_def]] by (auto simp: start_node_def)
  with mock_set_then_get [OF plain] show "\<exists>sv' answers. serve sha256 mock_store tx_send (bt_vm_scripts b') worker
        (reqs @ [\<lparr>req_cmd = Put key val, req_peer_addr = p1\<rparr>, \<lparr>req_cmd = Get key, req_peer_addr = p2\<rparr>])
        (bt_server b') = Inr sv' \<and>
      length answers = length reqs \<and> sv_responses sv' = answers @ [SimpleString ''OK'', BulkString None]"
    by fastforce
qed

text \<open>The other two builds, started with the default settings.\<close>

definition sample_start :: "'st \<Rightarrow> ('st, 64 word, gateway_frame list, string, string) booted" where
  "sample_start st = start_node (syscall_filter sample_seccomp) Some (\<lambda>p baud. []) (load_settings empty_settings) st"

lemma sample_start_sel [simp]:
  "sv_serial_txs (bt_server (sample_start st)) = []" "bt_vm_scripts (sample_start st) = False"
  by (simp_all add: sample_start_def sample_booted_simps)

lemma sample_main_pure:
  "main_pure sample_resolve (\<lambda>args. Some (False, empty_settings)) (\<lambda>_. True) sample_seccomp True (mem_cddb 4) (\<lambda>p f. mem_empty) Some
     (\<lambda>p baud. []) [''server_go''] sample_fs = Inr (Started (sample_start sample_pure))"
  by (simp add: main_pure_def main_boot_def subcommand_def start_pure_def pure_cache_new_def mem_cddb_def
      hot_index_new_store sample_pure_def sample_start_def)

lemma sample_main_mock:
  "main_mock sample_resolve (\<lambda>args. Some (False, empty_settings)) (\<lambda>_. True) sample_seccomp True Some
     (\<lambda>p baud. []) [''server_go''] sample_fs = Inr (Started (sample_start ()))"
  by (simp add: main_mock_def main_boot_def subcommand_def sample_start_def)

theorem other_builds_acknowledge_every_set_witness:
  "(\<exists>sv' answers. serve sample_sha (pure_store (mem_cddb 4) sample_sha sample_ahash) record_tx False 0
       ([] @ [\<lparr>req_cmd = Put ''k'' [1], req_peer_addr = None\<rparr>, \<lparr>req_cmd = Get ''k'', req_peer_addr = None\<rparr>])
       (bt_server (sample_start sample_pure)) = Inr sv' \<and>
     length answers = length ([] :: gateway_request list) \<and>
     sv_responses sv' = answers @ [SimpleString ''OK'', BulkString (Some [1])]) \<and>
   (\<exists>sv' answers. serve sample_sha mock_store record_tx False 0
       ([] @ [\<lparr>req_cmd = Put ''k'' [1], req_peer_addr = None\<rparr>, \<lparr>req_cmd = Get ''k'', req_peer_addr = None\<rparr>])
       (bt_server (sample_start ())) = Inr sv' \<and>
     length answers = length ([] :: gateway_request list) \<and>
     sv_responses sv' = answers @ [SimpleString ''OK'', BulkString None])"
proof -
  note all = other_builds_acknowledge_every_set [of sample_resolve "\<lambda>args. Some (False, empty_settings)" "\<lambda>_. True" sample_seccomp True
      "mem_cddb 4" "\<lambda>p f. mem_empty" Some "\<lambda>p baud. []" "[''server_go'']" sample_fs "sample_start sample_pure" "''k''"
      sample_sha sample_ahash record_tx 0 "[]" "[1]" None None "sample_start ()"]
  from all show ?thesis
    unfolding sample_main_pure sample_main_mock sample_start_sel by blast
qed

text \<open>
  C13: The defaults are closed: unless the settings say \<open>enable_vm_scripts: true\<close>, no sequence of
  requests, from any peer, with any keys and values, sends anything to a serial port: the channels
  stay as the drivers were started, and every request is still answered.
\<close>

theorem vm_scripts_are_off_by_default:
  assumes "main_tiered resolve cli tel_init seccomp bind_ok cd new_std parse_pk open_serial args fs = Inr (Started b)"
    and "cli args = Some (g, sf)" and "sf_security sf \<noteq> Some (Some True)"
  shows "\<exists>sv'. serve sha256 (tiered_ops cd sha256 ahash background) tx_send (bt_vm_scripts b) worker reqs
      (bt_server b) = Inr sv' \<and>
    sv_serial_txs sv' = serial_txs_of open_serial (load_settings sf) \<and>
    length (sv_responses sv') = length reqs"
proof -
  obtain storage where b: "b = start_node (syscall_filter seccomp) parse_pk open_serial (load_settings sf) storage" and wf: "tiered_wf storage"
    using main_tiered_started [OF assms(1)] assms(2) by auto
  have off: "\<not> bt_vm_scripts b"
    using assms(3) by (cases "sf_security sf")
      (auto simp: b start_node_def load_settings_def load_security_def or_default_def default_false_def
        split: option.splits)
  have start: "tiered_wf (node_storage (sv_node (bt_server b)))" "sv_responses (bt_server b) = []"
    "sv_serial_txs (bt_server b) = serial_txs_of open_serial (load_settings sf)"
    using wf by (simp_all add: b start_node_def)
  obtain sv' answers where sv': "serve sha256 (tiered_ops cd sha256 ahash background) tx_send (bt_vm_scripts b)
      worker reqs (bt_server b) = Inr sv'" "sv_responses sv' = answers" "length answers = length reqs"
    using tiered.serve_ok [OF start(1)] start(2) by fastforce
  with serve_serial [OF sv'(1)] off start(3) show ?thesis by auto
qed

theorem vm_scripts_are_off_by_default_witness:
  "\<exists>sv'. serve sample_sha sample_ops record_tx False 0
      [\<lparr>req_cmd = Put ''vm:all'' [1], req_peer_addr = Some \<lparr>ip = V4 127 0 0 1, port = 5000\<rparr>\<rparr>]
      (bt_server (sample_booted (empty_settings\<lparr>sf_serial_port := Some ''tty''\<rparr>))) = Inr sv' \<and>
    sv_serial_txs sv' = [[]] \<and> length (sv_responses sv') = 1"
proof -
  let ?sf = "empty_settings\<lparr>sf_serial_port := Some ''tty''\<rparr>"
  have txs: "serial_txs_of (\<lambda>p baud. [] :: gateway_frame list) (load_settings ?sf) = [[]]"
    and off: "bt_vm_scripts (sample_booted ?sf) = False"
    by (simp_all add: sample_booted_simps)
  have "sf_security ?sf \<noteq> Some (Some True)" by (simp add: empty_settings_def)
  from vm_scripts_are_off_by_default [OF sample_main_started refl this, of sample_sha sample_ahash mem_drain
      record_tx 0 "[\<lparr>req_cmd = Put ''vm:all'' [1], req_peer_addr = Some \<lparr>ip = V4 127 0 0 1, port = 5000\<rparr>\<rparr>]"]
  show ?thesis unfolding off txs by (simp only: list.size add_0 One_nat_def)
qed

text \<open>A name that stands for a directory entry.\<close>

definition plain_name :: "string \<Rightarrow> bool" where
  "plain_name name \<longleftrightarrow> name \<noteq> [] \<and> CHR ''/'' \<notin> set name \<and> name \<noteq> ''.'' \<and> name \<noteq> ''..''"

text \<open>
  C35: A snapshot holds the write-ahead log of every node that ran on the data directory: if the log
  of node \<open>n\<close> is a file, then after a snapshot into another directory \<open>dir\<close> the file
  \<open>server_go.node_n.wal\<close> of \<open>dir\<close> has the same content. The assumption on \<open>resolve\<close> is how paths
  join: \<open>data/name\<close> is the entry \<open>name\<close> of \<open>data\<close> for a plain name, one that is not empty, has no slash and is neither
  \<open>.\<close> nor \<open>..\<close> .
\<close>

theorem snapshot_saves_every_wal:
  assumes "\<forall>name. plain_name name \<longrightarrow> resolve (''data/'' @ name) = resolve ''data'' @ [name]"
    and "resolve ''data'' \<noteq> resolve dir" and "is_dir fs (resolve ''data'')"
    and "snd (create_dir_all (resolve dir) fs)" and "no_clash (resolve ''data'') (resolve dir) fs"
    and "map_of fs (resolve (wal_name n)) = Some (File log)"
  shows "\<exists>fs'. main_tiered resolve cli tel_init seccomp bind_ok cd new_std parse_pk open_serial [prog, ''snapshot'', ''--output'', dir] fs
      = Inr (Exited fs') \<and>
    map_of fs' (resolve dir @ [partition_name n @ ''.wal'']) = Some (File log)"
proof -
  obtain fs' where fs': "snapshot_to resolve dir fs = Inr fs'"
    "map_of fs' = copied_over (resolve ''data'') (resolve dir) fs"
    using snapshot_to_ok [OF assms(2-5)] by blast
  have "CHR ''/'' \<notin> set (decimal (unat n))" using decimal_digits [of "CHR ''/''"] by auto
  then have "plain_name (partition_name n @ ''.wal'')" by (simp add: plain_name_def partition_name_def)
  then have "resolve (wal_name n) = resolve ''data'' @ [partition_name n @ ''.wal'']"
    using assms(1) by (simp add: wal_name_def partition_name_def)
  with assms(6) have "map_of fs' (resolve dir @ [partition_name n @ ''.wal'']) = Some (File log)"
    using copied_over_file [of fs "resolve ''data''"] by (simp add: fs'(2) is_file_def)
  moreover have "subcommand resolve [prog, ''snapshot'', ''--output'', dir] fs = Inr (Some fs')"
    using fs'(1) by (simp add: subcommand_def index_def upt_rec)
  ultimately show ?thesis by (simp add: main_tiered_def main_boot_def)
qed

text \<open>
  A resolver in the way of the operating system: the components between the slashes, where an empty one and \<open>.\<close> stay in the same
  directory and \<open>..\<close> goes to the one above.
\<close>

fun split_slash :: "string \<Rightarrow> string list" where
  "split_slash [] = [[]]"
| "split_slash (c # cs) =
     (if c = CHR ''/'' then [] # split_slash cs
      else case split_slash cs of [] \<Rightarrow> [[c]] | x # xs \<Rightarrow> (c # x) # xs)"

definition path_resolve :: "string \<Rightarrow> path" where
  "path_resolve s =
     rev (fold (\<lambda>x up. if x = [] \<or> x = ''.'' then up else if x = ''..'' then tl up else x # up) (split_slash s) [])"

lemma split_slash_plain: "CHR ''/'' \<notin> set s \<Longrightarrow> split_slash s = [s]"
  by (induction s) auto

lemma path_resolve_joins: "plain_name name \<Longrightarrow> path_resolve (''data/'' @ name) = path_resolve ''data'' @ [name]"
  by (simp add: path_resolve_def split_slash_plain plain_name_def)

theorem snapshot_saves_every_wal_witness:
  "\<exists>fs'. main_tiered path_resolve (\<lambda>_. None) (\<lambda>_. True) sample_seccomp True (mem_cddb 4) (\<lambda>_. mem_empty) Some (\<lambda>p baud. ())
       [''server_go'', ''snapshot'', ''--output'', ''bak'']
       [([''data''], Dir), ([''data'', ''server_go.node_7.wal''], File [5])] =
     Inr (Exited fs' :: ((mem_db, 64 word) tiered_store, 64 word, unit, string, string) booted outcome) \<and>
     map_of fs' [''bak'', ''server_go.node_7.wal''] = Some (File [5])"
proof -
  let ?fs = "[([''data''], Dir), ([''data'', ''server_go.node_7.wal''], File [5])]"
  have "decimal 7 = ''7''" by (simp add: decimal.simps) code_simp
  then have "map_of ?fs (path_resolve (wal_name 7)) = Some (File [5])"
    by (simp add: path_resolve_def wal_name_def partition_name_def)
  moreover have "path_resolve ''data'' \<noteq> path_resolve ''bak''" "is_dir ?fs (path_resolve ''data'')"
    "snd (create_dir_all (path_resolve ''bak'') ?fs)" "no_clash (path_resolve ''data'') (path_resolve ''bak'') ?fs"
    by (simp_all add: path_resolve_def is_dir_def create_dir_all_def no_clash_def is_file_def)
  ultimately show ?thesis
    using snapshot_saves_every_wal [of path_resolve "''bak''" ?fs 7 "[5]"
        "\<lambda>_. None" "\<lambda>_. True" sample_seccomp True "mem_cddb 4" "\<lambda>_. mem_empty" Some "\<lambda>p baud. ()" "''server_go''"]
      path_resolve_joins \<open>decimal 7 = ''7''\<close>
    by (simp add: path_resolve_def partition_name_def)
qed

end
